(* ===== verification/Prelude.thy ===== *)
theory Prelude
  imports Complex_Main "HOL-Library.Word" "HOL-Library.AList"
begin

text \<open>
  What every component of the inspector shares: the outcome type of C++ code
  that may run into undefined behaviour, UTF-16 strings, hash maps as
  association lists, and the interface of a dictionary with the laws its
  clients rely on.
\<close>

unbundle bit_operations_syntax

named_theorems cxx_simps \<open>evaluation of computations that may be undefined\<close>
named_theorems map_laws \<open>what a lookup returns after an update of a hash map\<close>

lemma list_all_below: "list_all p [0..<k] \<Longrightarrow> n < k \<Longrightarrow> p n"
  by (simp add: list_all_iff)

text \<open>Counters of type \<^verbatim>\<open>int\<close> are words that are read as signed numbers.\<close>

lemma sint_word32: "sint (w :: 32 word) = (if uint w < 2 ^ 31 then uint w else uint w - 2 ^ 32)"
proof -
  have "0 \<le> uint w" "uint w < 2 ^ 32" using uint_lt2p [of w] by simp_all
  moreover have "sint w = (uint w + 2 ^ 31) mod 2 ^ 32 - 2 ^ 31"
    by (simp add: sint_uint signed_take_bit_eq_take_bit_shift take_bit_eq_mod)
  moreover have "(uint w + 2 ^ 31) mod 2 ^ 32 = (uint w + 2 ^ 31 - 2 ^ 32) mod 2 ^ 32"
    by (simp only: minus_mod_self2)
  ultimately show ?thesis by (cases "uint w < 2 ^ 31") (simp_all add: mod_pos_pos_trivial)
qed

lemma sint_succ: "sint (w :: 32 word) < 2 ^ 31 - 1 \<Longrightarrow> sint (w + 1) = sint w + 1"
  using sint_word32 [of w] by (simp add: sint_word_ariths signed_take_bit_int_eq_self)

section \<open>Outcomes of C++ code\<close>

text \<open>
  \<open>UB\<close> is the outcome of an execution that reads at or past the end of a
  buffer, dereferences a null pointer or an end iterator, or divides by zero:
  the places the source guards by an assertion at most.
\<close>

datatype 'a cxx = UB | Val (the_val: 'a)

fun bind_cxx :: "'a cxx \<Rightarrow> ('a \<Rightarrow> 'b cxx) \<Rightarrow> 'b cxx" where
  "bind_cxx UB f = UB"
| "bind_cxx (Val a) f = f a"

definition defined :: "'a cxx \<Rightarrow> bool" where
  "defined m \<longleftrightarrow> m \<noteq> UB"

lemma defined_simps [simp, cxx_simps]:
  "\<not> defined UB"
  "defined (Val a)"
  by (simp_all add: defined_def)

lemma defined_iff_Val: "defined m \<longleftrightarrow> (\<exists>a. m = Val a)"
  by (cases m) auto

lemma bind_cxx_cong [fundef_cong]:
  "m = m' \<Longrightarrow> (\<And>a. m' = Val a \<Longrightarrow> f a = g a) \<Longrightarrow> bind_cxx m f = bind_cxx m' g"
  by (cases m') auto

lemma bind_cxx_eq_Val: "bind_cxx m f = Val b \<longleftrightarrow> (\<exists>a. m = Val a \<and> f a = Val b)"
  by (cases m) auto

lemma bind_cxxE: "bind_cxx m f = Val b \<Longrightarrow> (\<And>a. m = Val a \<Longrightarrow> f a = Val b \<Longrightarrow> P) \<Longrightarrow> P"
  by (cases m) auto

lemma bind_cxx_eq_UB: "bind_cxx m f = UB \<longleftrightarrow> m = UB \<or> (\<exists>a. m = Val a \<and> f a = UB)"
  by (cases m) auto

lemma bind_cxx_assoc: "bind_cxx (bind_cxx m f) g = bind_cxx m (\<lambda>a. bind_cxx (f a) g)"
  by (cases m) simp_all

lemma defined_bind:
  "defined m \<Longrightarrow> (\<And>a. m = Val a \<Longrightarrow> defined (f a)) \<Longrightarrow> defined (bind_cxx m f)"
  by (cases m) auto

section \<open>Strings of UTF-16 code units\<close>

text \<open>
  A \<^verbatim>\<open>WTF::String\<close> is the list of its code units; the 8-bit representation
  holds the same units, so that both instances of a template on the character
  type are one definition.  A string that may be null is an option.
\<close>

type_synonym uchar = "16 word"
type_synonym wstr = "uchar list"

definition uc :: "char \<Rightarrow> uchar" where [simp]:
  "uc c = word_of_nat (of_char c)"

definition lit :: "string \<Rightarrow> wstr" where
  "lit s = map uc s"

lemma of_char_less_256: "(of_char c :: nat) < 256"
  by (fact nat_of_char_less_256)

lemma uc_inj: "uc c = uc d \<longleftrightarrow> c = d"
proof -
  have bound: "(of_char x :: nat) < 65536" for x
    using less_trans [OF of_char_less_256 [of x], of 65536] by simp
  have "uc c = uc d \<longleftrightarrow> (of_char c :: nat) = of_char d"
    using bound [of c] bound [of d] by (simp add: word_of_nat_eq_iff take_bit_nat_eq_self)
  thus ?thesis by simp
qed

lemma lit_inj [simp]: "lit s = lit t \<longleftrightarrow> s = t"
proof -
  have "inj uc" by (rule injI) (simp only: uc_inj)
  thus ?thesis by (simp add: lit_def inj_map_eq_map)
qed

lemma lit_simps:
  "lit [] = []"
  "lit (c # s) = uc c # lit s"
  by (simp_all add: lit_def)

lemma lit_eq_Nil [simp]: "lit s = [] \<longleftrightarrow> s = []" "[] = lit s \<longleftrightarrow> s = []"
  by (auto simp: lit_def)

text \<open>The 0-terminated display of a null string is the empty one.\<close>

definition nonnull :: "wstr option \<Rightarrow> wstr" where
  "nonnull s = (case s of None \<Rightarrow> [] | Some t \<Rightarrow> t)"

lemma nonnull_simps [simp]: "nonnull None = []" "nonnull (Some s) = s"
  by (simp_all add: nonnull_def)

section \<open>Doubles\<close>

text \<open>
  A C++ \<^verbatim>\<open>double\<close> is a finite value, an infinity (with its sign) or a NaN.  The
  two zeros are identified.
\<close>

datatype double = DFin rat | DInf bool | DNaN

definition isfinite_double :: "double \<Rightarrow> bool" where
  "isfinite_double d = (case d of DFin _ \<Rightarrow> True | _ \<Rightarrow> False)"

lemma isfinite_double_simps [simp]:
  "isfinite_double (DFin r)" "\<not> isfinite_double (DInf b)" "\<not> isfinite_double DNaN"
  by (simp_all add: isfinite_double_def)

definition trunc_rat :: "rat \<Rightarrow> int" where
  "trunc_rat r = (if 0 \<le> r then \<lfloor>r\<rfloor> else \<lceil>r\<rceil>)"

lemma trunc_rat_of_int [simp]: "trunc_rat (of_int i) = i"
  by (simp add: trunc_rat_def)

lemma trunc_rat_numeral [simp]:
  "trunc_rat 0 = 0" "trunc_rat 1 = 1" "trunc_rat (numeral n) = numeral n"
  "trunc_rat (- numeral n) = - numeral n"
  by (simp_all add: trunc_rat_def)

text \<open>
  The conversion to a signed integer of \<open>w\<close> bits truncates.  Out of range C++
  leaves it undefined; the value is the one the x86-64 instruction
  \<^verbatim>\<open>cvttsd2si\<close> delivers, the smallest integer of the width.
\<close>

definition double_to_signed :: "nat \<Rightarrow> double \<Rightarrow> int" where
  "double_to_signed w d = (case d of
      DFin r \<Rightarrow> (if - (2 ^ (w - 1)) \<le> trunc_rat r \<and> trunc_rat r < 2 ^ (w - 1)
                then trunc_rat r else - (2 ^ (w - 1)))
    | _ \<Rightarrow> - (2 ^ (w - 1)))"

lemma double_to_signed_range:
  "0 < w \<Longrightarrow> - (2 ^ (w - 1)) \<le> double_to_signed w d \<and> double_to_signed w d < 2 ^ (w - 1)"
  by (auto simp: double_to_signed_def split: double.splits)

lemma double_to_signed_of_int: "- (2 ^ 31) \<le> n \<Longrightarrow> n < 2 ^ 31 \<Longrightarrow> double_to_signed 32 (DFin (of_int n)) = n"
  by (simp add: double_to_signed_def trunc_rat_def)

section \<open>Hash maps\<close>

text \<open>
  A \<^verbatim>\<open>WTF::HashMap\<close> is an association list with distinct keys: \<^verbatim>\<open>set\<close> replaces the
  value of a key, \<^verbatim>\<open>add\<close> keeps it, \<^verbatim>\<open>remove\<close> deletes the entry.
\<close>

type_synonym ('k, 'v) hmap = "('k \<times> 'v) list"

definition hget :: "('k, 'v) hmap \<Rightarrow> 'k \<Rightarrow> 'v option" where
  "hget m k = map_of m k"

definition hset :: "'k \<Rightarrow> 'v \<Rightarrow> ('k, 'v) hmap \<Rightarrow> ('k, 'v) hmap" where
  "hset k v m = AList.update k v m"

definition hadd :: "'k \<Rightarrow> 'v \<Rightarrow> ('k, 'v) hmap \<Rightarrow> ('k, 'v) hmap" where
  "hadd k v m = (case map_of m k of None \<Rightarrow> AList.update k v m | Some _ \<Rightarrow> m)"

definition hremove :: "'k \<Rightarrow> ('k, 'v) hmap \<Rightarrow> ('k, 'v) hmap" where
  "hremove k m = AList.delete k m"

definition hkeys :: "('k, 'v) hmap \<Rightarrow> 'k list" where
  "hkeys m = map fst m"

definition hmap_ok :: "('k, 'v) hmap \<Rightarrow> bool" where
  "hmap_ok m \<longleftrightarrow> distinct (map fst m)"

definition hcontains :: "('k, 'v) hmap \<Rightarrow> 'k \<Rightarrow> bool" where
  "hcontains m k = (hget m k \<noteq> None)"

lemma hget_Nil [simp, map_laws]: "hget [] k = None"
  by (simp add: hget_def)

lemma hget_Cons: "hget ((k', v) # m) k = (if k = k' then Some v else hget m k)"
  by (simp add: hget_def)

lemma hget_hset [simp, map_laws]: "hget (hset k v m) k' = (if k = k' then Some v else hget m k')"
  by (auto simp: hget_def hset_def update_conv')

lemma hget_hadd [simp, map_laws]:
  "hget (hadd k v m) k' = (if k = k' \<and> hget m k = None then Some v else hget m k')"
  by (auto simp: hget_def hadd_def update_conv' split: option.splits)

lemma hget_hremove [simp, map_laws]: "hget (hremove k m) k' = (if k = k' then None else hget m k')"
  by (auto simp: hget_def hremove_def delete_conv')

lemma hmap_ok_simps [simp, intro]:
  "hmap_ok []"
  "hmap_ok m \<Longrightarrow> hmap_ok (hset k v m)"
  "hmap_ok m \<Longrightarrow> hmap_ok (hadd k v m)"
  "hmap_ok m \<Longrightarrow> hmap_ok (hremove k m)"
  by (auto simp: hmap_ok_def hset_def hadd_def hremove_def distinct_update distinct_delete
      split: option.splits)

lemma set_hkeys: "k \<in> set (hkeys m) \<longleftrightarrow> hget m k \<noteq> None"
  by (simp add: hkeys_def hget_def map_of_eq_None_iff)

lemma hkeys_hset: "hkeys (hset k v m) = (if hget m k = None then hkeys m @ [k] else hkeys m)"
  by (simp add: hkeys_def hset_def hget_def update_keys map_of_eq_None_iff)

lemma hkeys_hremove: "hkeys (hremove k m) = filter (\<lambda>x. x \<noteq> k) (hkeys m)"
  by (induction m) (auto simp: hkeys_def hremove_def)

lemma hcontains_simps [simp]:
  "\<not> hcontains [] k"
  "hcontains (hset k v m) k' \<longleftrightarrow> k = k' \<or> hcontains m k'"
  "hcontains (hremove k m) k' \<longleftrightarrow> k \<noteq> k' \<and> hcontains m k'"
  by (auto simp: hcontains_def)

lemma hcontains_iff: "hcontains m k \<longleftrightarrow> (\<exists>v. hget m k = Some v)"
  by (auto simp: hcontains_def)

lemma hget_map_of: "hget m k = Some v \<Longrightarrow> (k, v) \<in> set m"
  by (simp add: hget_def map_of_SomeD)

lemma hget_Some_in: "hmap_ok m \<Longrightarrow> (k, v) \<in> set m \<longleftrightarrow> hget m k = Some v"
  by (simp add: hmap_ok_def hget_def)

section \<open>The dictionary interface\<close>

text \<open>
  What a client of a keyed store relies on: a lookup after an insertion or a
  removal, and an invariant every operation keeps.
\<close>

locale dictionary =
  fixes empty :: 's
    and find :: "'s \<Rightarrow> 'k \<Rightarrow> 'v option"
    and put :: "'k \<Rightarrow> 'v \<Rightarrow> 's \<Rightarrow> 's"
    and remove :: "'k \<Rightarrow> 's \<Rightarrow> 's"
    and invar :: "'s \<Rightarrow> bool"
  assumes find_empty: "find empty k = None"
    and find_put: "invar s \<Longrightarrow> find (put k v s) k' = (if k = k' then Some v else find s k')"
    and find_remove: "invar s \<Longrightarrow> find (remove k s) k' = (if k = k' then None else find s k')"
    and invar_empty: "invar empty"
    and invar_put: "invar s \<Longrightarrow> invar (put k v s)"
    and invar_remove: "invar s \<Longrightarrow> invar (remove k s)"
begin

definition put_all :: "('k \<times> 'v) list \<Rightarrow> 's \<Rightarrow> 's" where
  "put_all kvs s = fold (\<lambda>(k, v). put k v) kvs s"

definition remove_all :: "'k list \<Rightarrow> 's \<Rightarrow> 's" where
  "remove_all ks s = fold remove ks s"

lemma put_all_Cons: "put_all ((k, v) # kvs) s = put_all kvs (put k v s)"
  by (simp add: put_all_def)

lemma invar_put_all: "invar s \<Longrightarrow> invar (put_all kvs s)"
  by (induction kvs arbitrary: s) (auto simp: put_all_def invar_put)

lemma invar_remove_all: "invar s \<Longrightarrow> invar (remove_all ks s)"
  by (induction ks arbitrary: s) (auto simp: remove_all_def invar_remove)

lemma find_put_all:
  "invar s \<Longrightarrow> find (put_all kvs s) k = (case map_of (rev kvs) k of None \<Rightarrow> find s k | Some v \<Rightarrow> Some v)"
proof (induction kvs arbitrary: s)
  case Nil
  thus ?case by (simp add: put_all_def)
next
  case (Cons kv kvs)
  obtain k' v' where kv: "kv = (k', v')" by (cases kv)
  show ?case
    using Cons.prems Cons.IH [OF invar_put [OF Cons.prems]]
    by (auto simp: kv put_all_Cons find_put map_add_def split: option.splits)
qed

lemma find_remove_all:
  "invar s \<Longrightarrow> find (remove_all ks s) k = (if k \<in> set ks then None else find s k)"
  by (induction ks arbitrary: s) (auto simp: remove_all_def find_remove invar_remove)

lemma find_put_commute:
  "invar s \<Longrightarrow> k \<noteq> k' \<Longrightarrow> find (put k v (put k' v' s)) = find (put k' v' (put k v s))"
  by (rule ext) (auto simp: find_put invar_put)

end

interpretation hm: dictionary "[]" hget hset hremove hmap_ok
  by unfold_locales auto

end
