(* ===== verification/WTF_String.thy ===== *)
theory WTF_String
  imports Prelude
begin

text \<open>
  The string library the inspector uses (\<^verbatim>\<open>Source/wtf\<close>): character classes,
  searching with a running hash, substrings and stripping, line endings, and
  the conversions between strings and machine integers.  The bidirectional
  class of a non-ASCII character (ICU) and the conversions between strings and
  doubles (the dtoa library) are fields of \<open>platform\<close>.
\<close>

section \<open>Character classes\<close>

record platform =
  isWhiteSpaceNeutral :: "uchar \<Rightarrow> bool"
  charactersToDouble :: "wstr \<Rightarrow> double option"
  numberToString :: "double \<Rightarrow> wstr"

definition isASCIIDigit :: "uchar \<Rightarrow> bool" where
  "isASCIIDigit c \<longleftrightarrow> c \<ge> uc CHR ''0'' \<and> c \<le> uc CHR ''9''"

definition isASCIIAlpha :: "uchar \<Rightarrow> bool" where
  "isASCIIAlpha c \<longleftrightarrow> (c OR 0x20) \<ge> uc CHR ''a'' \<and> (c OR 0x20) \<le> uc CHR ''z''"

definition isASCIIHexDigit :: "uchar \<Rightarrow> bool" where
  "isASCIIHexDigit c \<longleftrightarrow>
    isASCIIDigit c \<or> ((c OR 0x20) \<ge> uc CHR ''a'' \<and> (c OR 0x20) \<le> uc CHR ''f'')"

definition isASCIIPrintable :: "uchar \<Rightarrow> bool" where
  "isASCIIPrintable c \<longleftrightarrow> c \<ge> uc CHR '' '' \<and> c \<le> uc CHR ''~''"

definition isASCIISpace :: "uchar \<Rightarrow> bool" where
  "isASCIISpace c \<longleftrightarrow> c \<le> uc CHR '' '' \<and> (c = uc CHR '' '' \<or> (c \<le> 0xD \<and> c \<ge> 0x9))"

definition isSpaceOrNewline :: "platform \<Rightarrow> uchar \<Rightarrow> bool" where
  "isSpaceOrNewline P c = (if c \<le> 0x7F then isASCIISpace c else isWhiteSpaceNeutral P c)"

section \<open>Searching\<close>

text \<open>\<open>None\<close> is \<^verbatim>\<open>kNotFound\<close>.\<close>

definition find_char :: "wstr \<Rightarrow> uchar \<Rightarrow> nat \<Rightarrow> nat option" where
  "find_char s c index = List.find (\<lambda>i. s ! i = c) [index..<length s]"

primrec reverseFind_char_loop :: "wstr \<Rightarrow> uchar \<Rightarrow> nat \<Rightarrow> nat option" where
  "reverseFind_char_loop s c 0 = (if s ! 0 \<noteq> c then None else Some 0)"
| "reverseFind_char_loop s c (Suc index) =
    (if s ! Suc index \<noteq> c then reverseFind_char_loop s c index else Some (Suc index))"

definition reverseFind_char :: "wstr \<Rightarrow> uchar \<Rightarrow> nat \<Rightarrow> nat option" where
  "reverseFind_char s c index =
    (if length s = 0 then None
     else reverseFind_char_loop s c (if index \<ge> length s then length s - 1 else index))"

text \<open>The running hash is a sum of code units in an \<^verbatim>\<open>unsigned\<close>.\<close>

definition equal_at :: "wstr \<Rightarrow> wstr \<Rightarrow> nat \<Rightarrow> bool" where
  "equal_at s m i \<longleftrightarrow> take (length m) (drop i s) = m"

definition char_hash :: "wstr \<Rightarrow> 32 word" where
  "char_hash s = sum_list (map ucast s)"

primrec findInternal_loop :: "wstr \<Rightarrow> wstr \<Rightarrow> 32 word \<Rightarrow> 32 word \<Rightarrow> nat \<Rightarrow> nat \<Rightarrow> nat option" where
  "findInternal_loop s m matchHash searchHash i 0 =
    (if searchHash \<noteq> matchHash \<or> \<not> equal_at s m i then None else Some i)"
| "findInternal_loop s m matchHash searchHash i (Suc rest) =
    (if searchHash \<noteq> matchHash \<or> \<not> equal_at s m i
     then findInternal_loop s m matchHash
            (searchHash + ucast (s ! (i + length m)) - ucast (s ! i)) (Suc i) rest
     else Some i)"

definition findInternal :: "wstr \<Rightarrow> wstr \<Rightarrow> nat \<Rightarrow> nat option" where
  "findInternal s m index =
    (let delta = length s - length m in
     map_option (\<lambda>i. index + i)
       (findInternal_loop s m (char_hash m) (char_hash (take (length m) s)) 0 delta))"

definition StringImpl_find :: "wstr \<Rightarrow> wstr \<Rightarrow> nat \<Rightarrow> nat option" where
  "StringImpl_find s m index =
    (if length m = 1 then find_char s (m ! 0) index
     else if length m = 0 then Some (min index (length s))
     else if index > length s then None
     else if length m > length s - index then None
     else findInternal (drop index s) m index)"

primrec reverseFindInner_loop :: "wstr \<Rightarrow> wstr \<Rightarrow> 32 word \<Rightarrow> 32 word \<Rightarrow> nat \<Rightarrow> nat option" where
  "reverseFindInner_loop s m matchHash searchHash 0 =
    (if searchHash \<noteq> matchHash \<or> \<not> equal_at s m 0 then None else Some 0)"
| "reverseFindInner_loop s m matchHash searchHash (Suc delta) =
    (if searchHash \<noteq> matchHash \<or> \<not> equal_at s m (Suc delta)
     then reverseFindInner_loop s m matchHash
            (searchHash - ucast (s ! (delta + length m)) + ucast (s ! delta)) delta
     else Some (Suc delta))"

definition reverseFindInner :: "wstr \<Rightarrow> wstr \<Rightarrow> nat \<Rightarrow> nat option" where
  "reverseFindInner s m index =
    (let delta = min index (length s - length m) in
     reverseFindInner_loop s m (char_hash m) (char_hash (take (length m) (drop delta s))) delta)"

definition StringImpl_reverseFind :: "wstr \<Rightarrow> wstr \<Rightarrow> nat \<Rightarrow> nat option" where
  "StringImpl_reverseFind s m index =
    (if length m = 0 then Some (min index (length s))
     else if length m = 1 then reverseFind_char s (m ! 0) index
     else if length m > length s then None
     else reverseFindInner s m index)"

definition endsWith_char :: "wstr \<Rightarrow> uchar \<Rightarrow> bool" where
  "endsWith_char s c \<longleftrightarrow> s \<noteq> [] \<and> s ! (length s - 1) = c"

section \<open>Substrings and stripping\<close>

definition substring :: "wstr \<Rightarrow> nat \<Rightarrow> nat \<Rightarrow> wstr" where
  "substring s start len =
    (if start \<ge> length s then []
     else let maxLength = length s - start in
       if len \<ge> maxLength then (if start = 0 then s else take maxLength (drop start s))
       else take len (drop start s))"

abbreviation substring_from :: "wstr \<Rightarrow> nat \<Rightarrow> wstr" where
  "substring_from s start \<equiv> substring s start (2 ^ 32 - 1)"

definition stripMatchedCharacters :: "(uchar \<Rightarrow> bool) \<Rightarrow> wstr \<Rightarrow> wstr" where
  "stripMatchedCharacters p s =
    (if s = [] then []
     else let t = dropWhile p s in
       if t = [] then [] else rev (dropWhile p (rev t)))"

definition stripWhiteSpace :: "platform \<Rightarrow> wstr \<Rightarrow> wstr" where
  "stripWhiteSpace P s = stripMatchedCharacters (isSpaceOrNewline P) s"

section \<open>Line endings\<close>

function lineEndings_loop :: "wstr \<Rightarrow> nat \<Rightarrow> nat list" where
  "lineEndings_loop text start =
    (if start < length text
     then (case find_char text (uc CHR ''\<newline>'') start of
             None \<Rightarrow> [length text]
           | Some lineEnd \<Rightarrow> lineEnd # lineEndings_loop text (lineEnd + 1))
     else [length text])"
  by pat_completeness auto

lemma find_char_Some:
  "find_char s c i = Some j \<Longrightarrow> i \<le> j \<and> j < length s \<and> s ! j = c \<and> (\<forall>k. i \<le> k \<and> k < j \<longrightarrow> s ! k \<noteq> c)"
  by (auto simp: find_char_def find_Some_iff nth_append)
    (metis add_diff_inverse_nat add_less_cancel_left not_less)

lemma find_char_None: "find_char s c i = None \<longleftrightarrow> (\<forall>k. i \<le> k \<and> k < length s \<longrightarrow> s ! k \<noteq> c)"
  by (auto simp: find_char_def find_None_iff)

termination lineEndings_loop
  by (relation "measure (\<lambda>(text, start). length text - start)") (auto dest!: find_char_Some)

declare lineEndings_loop.simps [simp del]

definition lineEndings :: "wstr \<Rightarrow> nat list" where
  "lineEndings text = lineEndings_loop text 0"

section \<open>Integers\<close>

function numberToStringImpl_digits :: "nat \<Rightarrow> wstr" where
  "numberToStringImpl_digits number =
    (if number div 10 = 0 then [word_of_nat (number mod 10) + uc CHR ''0'']
     else numberToStringImpl_digits (number div 10) @ [word_of_nat (number mod 10) + uc CHR ''0''])"
  by pat_completeness auto
termination by (relation "measure id") auto

declare numberToStringImpl_digits.simps [simp del]

text \<open>\<open>number\<close> is the two's complement pattern of an \<^verbatim>\<open>int\<close>.\<close>

definition numberToStringSigned :: "32 word \<Rightarrow> wstr" where
  "numberToStringSigned number =
    (if number <s 0 then uc CHR ''-'' # numberToStringImpl_digits (unat (- number))
     else numberToStringImpl_digits (unat number))"

definition isCharacterAllowedInBase :: "uchar \<Rightarrow> int \<Rightarrow> bool" where
  "isCharacterAllowedInBase c base =
    (if c > 0x7F then False
     else if isASCIIDigit c then uint c - 48 < base
     else if isASCIIAlpha c then
       (let base = (if base > 36 then 36 else base) in
         (uint c \<ge> 97 \<and> uint c < 97 + base - 10) \<or> (uint c \<ge> 65 \<and> uint c < 65 + base - 10))
     else False)"

definition digitValue :: "uchar \<Rightarrow> int" where
  "digitValue c =
    (if isASCIIDigit c then uint c - 48
     else if c \<ge> uc CHR ''a'' then uint c - 97 + 10 else uint c - 65 + 10)"

text \<open>
  The digit loop of \<^verbatim>\<open>toIntegralType<int>\<close>: \<open>value\<close> is held in 32 bits and the
  comparisons are signed.  \<open>None\<close> is the jump to \<^verbatim>\<open>bye\<close>.
\<close>

fun toIntegralType_digits :: "wstr \<Rightarrow> int \<Rightarrow> bool \<Rightarrow> 32 word \<Rightarrow> (wstr \<times> 32 word) option" where
  "toIntegralType_digits [] base isNegative val = Some ([], val)"
| "toIntegralType_digits (c # data) base isNegative val =
    (if isCharacterAllowedInBase c base then
       (let integralMax = 2 ^ 31 - 1; maxMultiplier = integralMax div base in
        if sint val > maxMultiplier \<or>
           (sint val = maxMultiplier \<and> digitValue c > integralMax mod base + (if isNegative then 1 else 0))
        then None
        else toIntegralType_digits data base isNegative (of_int base * val + of_int (digitValue c)))
     else Some (c # data, val))"

definition toIntegralType :: "platform \<Rightarrow> wstr \<Rightarrow> int \<Rightarrow> (32 word) option" where
  "toIntegralType P data base =
    (let data = dropWhile (isSpaceOrNewline P) data;
         isNegative = (data \<noteq> [] \<and> hd data = uc CHR ''-'');
         data = (if data \<noteq> [] \<and> (hd data = uc CHR ''-'' \<or> hd data = uc CHR ''+'') then tl data else data)
     in if data = [] \<or> \<not> isCharacterAllowedInBase (hd data) base then None
        else case toIntegralType_digits data base isNegative 0 of
            None \<Rightarrow> None
          | Some (rest, val) \<Rightarrow>
              (let val = (if isNegative then - val else val);
                   rest = dropWhile (isSpaceOrNewline P) rest
               in if rest = [] then Some val else None))"

definition lengthOfCharactersAsInteger :: "platform \<Rightarrow> wstr \<Rightarrow> nat" where
  "lengthOfCharactersAsInteger P data =
    (let spaces = takeWhile (isSpaceOrNewline P) data;
         data = dropWhile (isSpaceOrNewline P) data;
         sign = (if data \<noteq> [] \<and> (hd data = uc CHR ''+'' \<or> hd data = uc CHR ''-'') then 1 else 0);
         digits = takeWhile isASCIIDigit (drop sign data)
     in length spaces + sign + length digits)"

definition charactersToInt :: "platform \<Rightarrow> wstr \<Rightarrow> (32 word) option" where
  "charactersToInt P data = toIntegralType P (take (lengthOfCharactersAsInteger P data) data) 10"

section \<open>Searching finds the first and the last occurrence\<close>

lemma char_hash_simps [simp]:
  "char_hash [] = 0" "char_hash (c # s) = ucast c + char_hash s"
  "char_hash (s @ t) = char_hash s + char_hash t"
  by (simp_all add: char_hash_def)

lemma char_hash_slide:
  assumes "i + n < length s"
  shows "char_hash (take n (drop (Suc i) s)) =
    char_hash (take n (drop i s)) + ucast (s ! (i + n)) - ucast (s ! i)"
proof -
  have "take n (drop i s) @ [s ! (i + n)] = take (Suc n) (drop i s)"
    using assms by (simp add: take_Suc_conv_app_nth)
  also have "\<dots> = s ! i # take n (drop (Suc i) s)"
    using assms by (simp flip: Cons_nth_drop_Suc)
  finally have "char_hash (take n (drop i s) @ [s ! (i + n)]) = char_hash (s ! i # take n (drop (Suc i) s))"
    by simp
  thus ?thesis by (simp add: algebra_simps)
qed

lemma equal_at_hash: "equal_at s m i \<Longrightarrow> char_hash (take (length m) (drop i s)) = char_hash m"
  by (simp add: equal_at_def)

lemma findInternal_loop_correct:
  "i + rest + length m = length s \<Longrightarrow>
   findInternal_loop s m (char_hash m) (char_hash (take (length m) (drop i s))) i rest =
     List.find (equal_at s m) [i..<Suc (i + rest)]"
proof (induction rest arbitrary: i)
  case 0
  thus ?case using equal_at_hash [of s m i] by auto
next
  case (Suc rest)
  have hash: "char_hash (take (length m) (drop (Suc i) s)) =
      char_hash (take (length m) (drop i s)) + ucast (s ! (i + length m)) - ucast (s ! i)"
    using Suc.prems by (intro char_hash_slide) simp
  have upt: "[i..<Suc (Suc (i + rest))] = i # [Suc i..<Suc (Suc (i + rest))]"
    by (rule upt_conv_Cons) simp
  show ?case
    using Suc.IH [of "Suc i"] Suc.prems equal_at_hash [of s m i]
    by (simp add: hash upt del: upt_Suc)
qed

lemma reverseFindInner_loop_correct:
  "delta + length m \<le> length s \<Longrightarrow>
   reverseFindInner_loop s m (char_hash m) (char_hash (take (length m) (drop delta s))) delta =
     List.find (equal_at s m) (rev [0..<Suc delta])"
proof (induction delta)
  case 0
  thus ?case using equal_at_hash [of s m 0] by auto
next
  case (Suc delta)
  have hash: "char_hash (take (length m) (drop delta s)) =
      char_hash (take (length m) (drop (Suc delta) s)) - ucast (s ! (delta + length m)) + ucast (s ! delta)"
    using Suc.prems char_hash_slide [of delta "length m" s] by simp
  show ?case
    using Suc.IH Suc.prems equal_at_hash [of s m "Suc delta"] by (auto simp: hash)
qed

lemma equal_at_single: "i < length s \<Longrightarrow> equal_at s [c] i \<longleftrightarrow> s ! i = c"
  by (simp add: equal_at_def flip: Cons_nth_drop_Suc)

lemma reverseFind_char_loop_correct:
  "index < length s \<Longrightarrow>
   reverseFind_char_loop s c index = List.find (equal_at s [c]) (rev [0..<Suc index])"
  by (induction index) (auto simp: equal_at_single)

lemma find_cong_set: "(\<And>x. x \<in> set xs \<Longrightarrow> p x = q x) \<Longrightarrow> List.find p xs = List.find q xs"
  by (rule find_cong) auto

lemma equal_at_drop: "equal_at (drop j s) m = (\<lambda>i. equal_at s m (j + i))"
  by (rule ext) (simp add: equal_at_def add.commute)

lemma find_shift: "map_option (\<lambda>i. j + i) (List.find (\<lambda>i. p (j + i)) [a..<b]) = List.find p [j + a..<j + b]"
proof (induction "b - a" arbitrary: a)
  case 0
  thus ?case by simp
next
  case (Suc n)
  hence "[a..<b] = a # [Suc a..<b]" "[j + a..<j + b] = (j + a) # [j + Suc a..<j + b]"
    by (simp_all add: upt_conv_Cons)
  moreover have "n = b - Suc a" using Suc.hyps(2) by simp
  note Suc.hyps(1) [OF this]
  ultimately show ?case by simp
qed

lemma StringImpl_find_eq:
  "StringImpl_find s m index =
    (if m = [] then Some (min index (length s))
     else List.find (equal_at s m) [index..<Suc (length s) - length m])"
proof (cases "length m \<le> 1")
  case True
  then consider "m = []" | c where "m = [c]" by (cases m) auto
  thus ?thesis
    by cases (auto simp: StringImpl_find_def find_char_def equal_at_single intro: find_cong_set)
next
  case False
  hence m: "m \<noteq> []" "length m \<noteq> 1" by auto
  show ?thesis
  proof (cases "index + length m \<le> length s")
    case True
    let ?t = "drop index s"
    have delta: "(length ?t - length m) + length m = length ?t" using True by simp
    have range: "index + Suc (length ?t - length m) = Suc (length s) - length m" using True by simp
    have "findInternal ?t m index =
        map_option (\<lambda>i. index + i) (List.find (equal_at ?t m) [0..<Suc (length ?t - length m)])"
      using findInternal_loop_correct [of 0 "length ?t - length m" m ?t] delta
      by (simp add: findInternal_def Let_def del: upt_Suc)
    also have "\<dots> = List.find (equal_at s m) [index..<Suc (length s) - length m]"
      using find_shift [of index "equal_at s m" 0 "Suc (length ?t - length m)"]
      by (simp only: equal_at_drop range add_0_right)
    finally show ?thesis using m True by (auto simp: StringImpl_find_def)
  next
    case False
    thus ?thesis using m by (auto simp: StringImpl_find_def)
  qed
qed

lemma StringImpl_reverseFind_eq:
  "StringImpl_reverseFind s m index =
    (if length m \<le> length s
     then List.find (equal_at s m) (rev [0..<Suc (min index (length s - length m))]) else None)"
proof -
  consider "m = []" | c where "m = [c]" | "length m > 1" by (cases m rule: remdups_adj.cases) auto
  thus ?thesis
  proof cases
    case 1
    thus ?thesis by (simp add: StringImpl_reverseFind_def equal_at_def)
  next
    case 2
    thus ?thesis
      using reverseFind_char_loop_correct [of "length s - 1" s c] reverseFind_char_loop_correct [of index s c]
      by (cases s) (auto simp: StringImpl_reverseFind_def reverseFind_char_def min_def simp del: upt_Suc)
  next
    case 3
    thus ?thesis
      using reverseFindInner_loop_correct [of "min index (length s - length m)" m s]
      by (auto simp: StringImpl_reverseFind_def reverseFindInner_def Let_def simp del: upt_Suc)
  qed
qed

lemma find_upt_Some:
  "List.find p [a..<b] = Some i \<longleftrightarrow> a \<le> i \<and> i < b \<and> p i \<and> \<not> (\<exists>q. a \<le> q \<and> q < i \<and> p q)"
proof (induction "b - a" arbitrary: a)
  case 0
  thus ?case by auto
next
  case (Suc n)
  hence "List.find p [a..<b] = (if p a then Some a else List.find p [Suc a..<b])"
    by (simp add: upt_conv_Cons)
  moreover have "n = b - Suc a" using Suc.hyps(2) by simp
  note Suc.hyps(1) [OF this]
  ultimately show ?case using Suc.hyps(2) by (auto simp: Suc_le_eq le_less)
qed

lemma find_rev_upt_Some:
  "List.find p (rev [0..<Suc d]) = Some i \<longleftrightarrow> i \<le> d \<and> p i \<and> \<not> (\<exists>q. i < q \<and> q \<le> d \<and> p q)"
  by (induction d) (auto simp: le_Suc_eq dest: le_imp_less_Suc)

lemma equal_at_length: "equal_at s m p \<Longrightarrow> p \<le> length s \<Longrightarrow> p + length m \<le> length s"
  by (auto simp: equal_at_def dest!: arg_cong [of _ _ length])

lemma equal_at_Cons_length: "equal_at s (c # m) p \<Longrightarrow> p + length (c # m) \<le> length s"
  using equal_at_length [of s "c # m" p] by (cases "p \<le> length s") (auto simp: equal_at_def)

lemma StringImpl_reverseFind_Some:
  "StringImpl_reverseFind s m index = Some p \<longleftrightarrow>
    p \<le> index \<and> p \<le> length s \<and> equal_at s m p \<and>
    \<not> (\<exists>q. p < q \<and> q \<le> index \<and> q \<le> length s \<and> equal_at s m q)"
proof -
  have bound: "q \<le> length s \<and> equal_at s m q \<longleftrightarrow>
      length m \<le> length s \<and> q \<le> length s - length m \<and> equal_at s m q" for q
    using equal_at_length [of s m q] by auto
  show ?thesis
    unfolding StringImpl_reverseFind_eq bound
    using bound [of p] by (auto simp: find_rev_upt_Some simp del: upt_Suc)
qed

lemma StringImpl_reverseFind_None:
  "StringImpl_reverseFind s m index = None \<longleftrightarrow>
    \<not> (\<exists>q. q \<le> index \<and> q \<le> length s \<and> equal_at s m q)"
proof -
  have bound: "q \<le> length s \<and> equal_at s m q \<longleftrightarrow>
      length m \<le> length s \<and> q \<le> length s - length m \<and> equal_at s m q" for q
    using equal_at_length [of s m q] by auto
  show ?thesis
    unfolding StringImpl_reverseFind_eq bound
    by (auto simp: find_None_iff bound less_Suc_eq_le simp del: upt_Suc)
qed

text \<open>
  C16: searching a string forwards with the running 32-bit hash returns the
  least index, not below the starting index, at which the pattern occurs, and
  \<^verbatim>\<open>kNotFound\<close> exactly when there is none.
\<close>

theorem StringImpl_find_least:
  "(StringImpl_find s (c # m) index = Some p \<longleftrightarrow>
      index \<le> p \<and> equal_at s (c # m) p \<and> \<not> (\<exists>q. index \<le> q \<and> q < p \<and> equal_at s (c # m) q)) \<and>
   (StringImpl_find s (c # m) index = None \<longleftrightarrow> \<not> (\<exists>q. index \<le> q \<and> equal_at s (c # m) q))"
proof
  have bound: "equal_at s (c # m) q \<Longrightarrow> q < Suc (length s) - length (c # m)" for q
    using equal_at_Cons_length [of s c m q] by simp
  show "StringImpl_find s (c # m) index = Some p \<longleftrightarrow>
      index \<le> p \<and> equal_at s (c # m) p \<and> \<not> (\<exists>q. index \<le> q \<and> q < p \<and> equal_at s (c # m) q)"
    using bound by (auto simp: StringImpl_find_eq find_upt_Some)
  show "StringImpl_find s (c # m) index = None \<longleftrightarrow> \<not> (\<exists>q. index \<le> q \<and> equal_at s (c # m) q)"
    using bound by (auto simp: StringImpl_find_eq find_None_iff)
qed

text \<open>
  C28: searching backwards with the running hash returns the greatest index, not
  above the starting index, at which the pattern occurs, and \<^verbatim>\<open>kNotFound\<close>
  exactly when there is none.
\<close>

theorem StringImpl_reverseFind_greatest:
  "(StringImpl_reverseFind s m index = Some p \<longleftrightarrow>
      p \<le> index \<and> p \<le> length s \<and> equal_at s m p \<and>
      \<not> (\<exists>q. p < q \<and> q \<le> index \<and> q \<le> length s \<and> equal_at s m q)) \<and>
   (StringImpl_reverseFind s m index = None \<longleftrightarrow>
      \<not> (\<exists>q. q \<le> index \<and> q \<le> length s \<and> equal_at s m q))"
  by (simp add: StringImpl_reverseFind_Some StringImpl_reverseFind_None)

section \<open>Integers print and read back\<close>

lemma digits_append:
  "toIntegralType_digits xs base neg v = Some ([], w) \<Longrightarrow>
   toIntegralType_digits (xs @ ys) base neg v = toIntegralType_digits ys base neg w"
  by (induction xs base neg v rule: toIntegralType_digits.induct) (auto simp: Let_def split: if_splits)

lemma digit_char:
  assumes "d < 10"
  shows "isASCIIDigit (word_of_nat d + uc CHR ''0'')"
    and "digitValue (word_of_nat d + uc CHR ''0'') = int d"
    and "isCharacterAllowedInBase (word_of_nat d + uc CHR ''0'') 10"
proof -
  have "d \<in> {0,1,2,3,4,5,6,7,8,9}" using assms by auto
  thus "isASCIIDigit (word_of_nat d + uc CHR ''0'')"
    and "digitValue (word_of_nat d + uc CHR ''0'') = int d"
    and "isCharacterAllowedInBase (word_of_nat d + uc CHR ''0'') 10"
    by (auto simp: isASCIIDigit_def digitValue_def isCharacterAllowedInBase_def)
qed

lemma sint_word_of_nat: "n < 2 ^ 31 \<Longrightarrow> sint (word_of_nat n :: 32 word) = int n"
  by (simp add: sint_uint uint_nat unat_of_nat signed_take_bit_int_eq_self)

lemma toIntegralType_digits_print:
  "int n \<le> 2 ^ 31 - 1 + (if neg then 1 else 0) \<Longrightarrow>
   toIntegralType_digits (numberToStringImpl_digits n) 10 neg 0 = Some ([], word_of_nat n)"
proof (induction n rule: numberToStringImpl_digits.induct)
  case (1 n)
  let ?d = "n mod 10"
  have expand: "(word_of_nat n :: 32 word) = 10 * word_of_nat (n div 10) + word_of_nat ?d"
    by (metis (mono_tags, lifting) mult_div_mod_eq of_nat_add of_nat_mult of_nat_numeral)
  have sint: "sint (word_of_nat (n div 10) :: 32 word) = int (n div 10)"
    using 1 by (intro sint_word_of_nat) (auto split: if_splits)
  have last: "toIntegralType_digits [word_of_nat ?d + uc CHR ''0''] 10 neg (word_of_nat (n div 10)) =
      Some ([], word_of_nat n)"
  proof -
    have bound: "\<not> 214748364 < int (n div 10)"
        "int (n div 10) = 214748364 \<Longrightarrow> \<not> int ?d > 7 + (if neg then 1 else 0)"
      using "1.prems" div_mult_mod_eq [of n 10] by (auto split: if_splits)
    show ?thesis
      using digit_char [of ?d] bound sint by (simp add: Let_def expand del: uc_def)
  qed
  show ?case
  proof (cases "n div 10 = 0")
    case True
    thus ?thesis using last by (simp add: numberToStringImpl_digits.simps [of n])
  next
    case False
    hence "toIntegralType_digits (numberToStringImpl_digits (n div 10)) 10 neg 0 =
        Some ([], word_of_nat (n div 10))"
      using 1 by (auto split: if_splits)
    from digits_append [OF this] last False show ?thesis
      by (simp add: numberToStringImpl_digits.simps [of n])
  qed
qed

lemma numberToStringImpl_digits_set: "\<forall>c \<in> set (numberToStringImpl_digits n). isASCIIDigit c"
proof (induction n rule: numberToStringImpl_digits.induct)
  case (1 n)
  thus ?case using digit_char(1) [of "n mod 10"] by (subst numberToStringImpl_digits.simps) auto
qed

lemma numberToStringImpl_digits_nonempty: "numberToStringImpl_digits n \<noteq> []"
  by (subst numberToStringImpl_digits.simps) simp

lemma digit_inj:
  assumes "word_of_nat (m mod 10) + uc CHR ''0'' = (word_of_nat (n mod 10) + uc CHR ''0'' :: uchar)"
  shows "m mod 10 = n mod 10"
proof -
  have "int (m mod 10) = int (n mod 10)"
    using digit_char(2) [of "m mod 10"] digit_char(2) [of "n mod 10"] unfolding assms by simp
  thus ?thesis by simp
qed

lemma numberToStringImpl_digits_inj [simp]:
  "numberToStringImpl_digits m = numberToStringImpl_digits n \<longleftrightarrow> m = n"
proof (induction m arbitrary: n rule: numberToStringImpl_digits.induct)
  case (1 m)
  note nonempty = numberToStringImpl_digits_nonempty [of "m div 10"] numberToStringImpl_digits_nonempty [of "n div 10"]
  have "m = n" if eq: "numberToStringImpl_digits m = numberToStringImpl_digits n"
  proof (cases "m div 10 = 0 \<or> n div 10 = 0")
    case True
    hence "m div 10 = 0 \<and> n div 10 = 0 \<and> m mod 10 = n mod 10"
      using eq nonempty digit_inj [of m n] unfolding numberToStringImpl_digits.simps [of m] numberToStringImpl_digits.simps [of n]
      by (auto split: if_splits simp del: uc_def)
    thus ?thesis by (metis div_mult_mod_eq)
  next
    case False
    hence "m div 10 = n div 10 \<and> m mod 10 = n mod 10"
      using eq 1 [of "n div 10"] digit_inj [of m n] unfolding numberToStringImpl_digits.simps [of m] numberToStringImpl_digits.simps [of n]
      by (auto simp del: uc_def)
    thus ?thesis by (metis div_mult_mod_eq)
  qed
  thus ?case by blast
qed

lemma sless_0_magnitude: "(w :: 32 word) <s 0 \<Longrightarrow> int (unat (- w)) \<le> 2 ^ 31"
  using uint_lt2p [of w] by (auto simp: word_sless_alt sint_word32 uint_word_ariths(4) zmod_zminus1_eq_if split: if_splits)

lemma not_sless_0_magnitude: "\<not> (w :: 32 word) <s 0 \<Longrightarrow> int (unat w) \<le> 2 ^ 31 - 1"
  using uint_lt2p [of w] by (auto simp: word_sless_alt sint_word32 split: if_splits)

lemma isASCIIDigit_not: assumes "isASCIIDigit d" 
  shows "\<not> isSpaceOrNewline P d"
     "d \<noteq> uc CHR ''-''" "d \<noteq> uc CHR ''+''"
  using assms by (auto simp: isSpaceOrNewline_def isASCIISpace_def isASCIIDigit_def word_le_nat_alt)

lemma sign_not_space: "\<not> isSpaceOrNewline P (uc CHR ''-'')"
  by (simp add: isSpaceOrNewline_def isASCIISpace_def)

lemma charactersToInt_digits:
  assumes "ds \<noteq> []" "\<forall>c \<in> set ds. isASCIIDigit c"
    and pre: "pre = [uc CHR ''-''] \<and> neg \<or> pre = [] \<and> \<not> neg"
    and val: "toIntegralType_digits ds 10 neg 0 = Some ([], v)"
  shows "charactersToInt P (pre @ ds) = Some (if neg then - v else v)"
proof -
  obtain d ds' where ds: "ds = d # ds'" using assms(1) by (cases ds) auto
  have d: "isASCIIDigit d" using assms(2) ds by simp
  note facts = isASCIIDigit_not [OF d] sign_not_space
  have allowed: "isCharacterAllowedInBase d 10"
    using val ds by (auto split: if_splits)
  have all: "takeWhile isASCIIDigit ds = ds" using assms(2) by (simp add: takeWhile_eq_all_conv)
  have len: "lengthOfCharactersAsInteger P (pre @ ds) = length (pre @ ds)"
    using pre all ds by (elim disjE conjE) (simp_all add: lengthOfCharactersAsInteger_def Let_def facts del: uc_def)
  have "toIntegralType P (pre @ ds) 10 = Some (if neg then - v else v)"
    using pre ds val allowed
    by (elim disjE conjE)
       (simp_all add: toIntegralType_def Let_def facts del: uc_def toIntegralType_digits.simps)
  thus ?thesis by (simp add: charactersToInt_def len)
qed

text \<open>
  C29: printing a 32-bit \<^verbatim>\<open>int\<close> and reading the decimal string back gives the
  same \<^verbatim>\<open>int\<close>, the smallest one included.
\<close>

theorem charactersToInt_number: "charactersToInt P (numberToStringSigned w) = Some w"
proof (cases "w <s 0")
  case True
  from charactersToInt_digits [OF numberToStringImpl_digits_nonempty numberToStringImpl_digits_set _
      toIntegralType_digits_print, of "[uc CHR ''-'']" True "unat (- w)" P] sless_0_magnitude [OF True]
  show ?thesis using True by (simp add: numberToStringSigned_def del: uc_def)
next
  case False
  from charactersToInt_digits [OF numberToStringImpl_digits_nonempty numberToStringImpl_digits_set _
      toIntegralType_digits_print, of "[]" False "unat w" P] not_sless_0_magnitude [OF False]
  show ?thesis using False by (simp add: numberToStringSigned_def)
qed

text \<open>
  Reading a decimal string wraps around below the smallest \<^verbatim>\<open>int\<close>: once the
  digits have reached it, the overflow test compares a negative value, so that
  a further digit is accepted and a wrong number is reported as a success.
\<close>

theorem charactersToInt_wraps: "charactersToInt P (lit ''-21474836485'') = Some (- 5)"
  by code_simp

end
