(* ===== verification/Decimal.thy ===== *)
theory Decimal
  imports WTF_String
begin

text \<open>
  Decimal floating point numbers (\<^verbatim>\<open>Source/platform/Decimal.cpp\<close>), which the JSON
  writer prints numbers with.  A \<^verbatim>\<open>uint64_t\<close> is a natural number below \<open>2 ^ 64\<close>;
  the operations of the source that may exceed it are followed by \<open>u64\<close>, the
  wrap-around of the C++ type.
\<close>

section \<open>Arithmetic on 64 and 128 bits\<close>

definition u64 :: "nat \<Rightarrow> nat" where
  "u64 x = x mod 2 ^ 64"

definition u64_minus :: "nat \<Rightarrow> nat \<Rightarrow> nat" where
  "u64_minus x y = u64 (x + (2 ^ 64 - u64 y))"

definition ExponentMax :: int where "ExponentMax = 1023"
definition ExponentMin :: int where "ExponentMin = - 1023"
definition Precision :: int where "Precision = 18"
definition MaxCoefficient :: nat where "MaxCoefficient = 999999999999999999"

lemmas decimal_limits = ExponentMax_def ExponentMin_def Precision_def MaxCoefficient_def

record UInt128 =
  m_high :: nat
  m_low :: nat

definition highUInt32 :: "nat \<Rightarrow> nat" where
  "highUInt32 x = (x div 2 ^ 32) mod 2 ^ 32"

definition lowUInt32 :: "nat \<Rightarrow> nat" where
  "lowUInt32 x = x mod 2 ^ 32"

definition makeUInt64 :: "nat \<Rightarrow> nat \<Rightarrow> nat" where
  "makeUInt64 low high = low OR push_bit 32 high"

definition multiplyHigh :: "nat \<Rightarrow> nat \<Rightarrow> nat" where
  "multiplyHigh u v =
    (let uLow = lowUInt32 u; uHigh = highUInt32 u; vLow = lowUInt32 v; vHigh = highUInt32 v;
         partialProduct = u64 (u64 (uHigh * vLow) + highUInt32 (u64 (uLow * vLow)))
     in u64 (u64 (u64 (uHigh * vHigh) + highUInt32 partialProduct) +
          highUInt32 (u64 (u64 (uLow * vHigh) + lowUInt32 partialProduct))))"

definition UInt128_multiply :: "nat \<Rightarrow> nat \<Rightarrow> UInt128" where
  "UInt128_multiply u v = \<lparr>m_high = multiplyHigh u v, m_low = u64 (u * v)\<rparr>"

text \<open>The loop over the four 32-bit digits of the dividend, highest first.\<close>

fun UInt128_divide_loop :: "nat list \<Rightarrow> nat \<Rightarrow> nat \<Rightarrow> nat list" where
  "UInt128_divide_loop [] divisor remainder = []"
| "UInt128_divide_loop (d # dividend) divisor remainder =
    (let work = makeUInt64 d remainder
     in lowUInt32 (work div divisor) #
        UInt128_divide_loop dividend divisor (lowUInt32 (work mod divisor)))"

definition UInt128_divide :: "UInt128 \<Rightarrow> nat \<Rightarrow> UInt128" where
  "UInt128_divide w divisor =
    (if m_high w = 0 then w\<lparr>m_low := m_low w div divisor\<rparr>
     else case UInt128_divide_loop [highUInt32 (m_high w), lowUInt32 (m_high w),
                 highUInt32 (m_low w), lowUInt32 (m_low w)] divisor 0 of
         [q3, q2, q1, q0] \<Rightarrow> \<lparr>m_high = makeUInt64 q2 q3, m_low = makeUInt64 q0 q1\<rparr>
       | _ \<Rightarrow> w)"

text \<open>\<open>powerOfTen\<close> runs through the powers \<open>10 ^ k\<close>.\<close>

function countDigits_loop :: "nat \<Rightarrow> nat \<Rightarrow> nat" where
  "countDigits_loop x k =
    (if x \<ge> 10 ^ k then
       (if (10 :: nat) ^ k \<ge> (2 ^ 64 - 1) div 10 then Suc k else countDigits_loop x (Suc k))
     else k)"
  by pat_completeness auto

lemma power_ten_below: "(10 :: nat) ^ k < 10 ^ n \<longleftrightarrow> k < n"
  by simp

termination countDigits_loop
proof (relation "measure (\<lambda>(x, k). 20 - k)")
  fix x k :: nat
  assume "\<not> (10 :: nat) ^ k \<ge> (2 ^ 64 - 1) div 10"
  hence "(10 :: nat) ^ k < 10 ^ 19" by simp
  hence "k < 19" by (simp only: power_ten_below)
  thus "((x, Suc k), (x, k)) \<in> measure (\<lambda>(x, k). 20 - k)" by simp
qed simp

declare countDigits_loop.simps [simp del]

definition countDigits :: "nat \<Rightarrow> nat" where
  "countDigits x = countDigits_loop x 0"

primrec scaleDown :: "nat \<Rightarrow> nat \<Rightarrow> nat" where
  "scaleDown x 0 = x"
| "scaleDown x (Suc n) = (if x = 0 then x else scaleDown (x div 10) n)"

function scaleUp_loop :: "nat \<Rightarrow> nat \<Rightarrow> nat \<Rightarrow> nat \<Rightarrow> nat" where
  "scaleUp_loop x n y z =
    (let y = (if odd n then u64 (y * z) else y); n = n div 2
     in if n = 0 then u64 (x * y) else scaleUp_loop x n y (u64 (z * z)))"
  by pat_completeness auto
termination by (relation "measure (\<lambda>(x, n, y, z). n)") auto

declare scaleUp_loop.simps [simp del]

definition scaleUp :: "nat \<Rightarrow> nat \<Rightarrow> nat" where
  "scaleUp x n = scaleUp_loop x n 1 10"

section \<open>The encoded number\<close>

datatype Sign = Positive | Negative

datatype FormatClass = ClassInfinity | ClassNormal | ClassNaN | ClassZero

record decimal =
  m_coefficient :: nat
  m_exponent :: int
  m_formatClass :: FormatClass
  m_sign :: Sign

definition EncodedData_special :: "Sign \<Rightarrow> FormatClass \<Rightarrow> decimal" where
  "EncodedData_special sign formatClass =
    \<lparr>m_coefficient = 0, m_exponent = 0, m_formatClass = formatClass, m_sign = sign\<rparr>"

function shrink :: "nat \<Rightarrow> int \<Rightarrow> nat \<times> int" where
  "shrink coefficient exponent =
    (if coefficient > MaxCoefficient then shrink (coefficient div 10) (exponent + 1)
     else (coefficient, exponent))"
  by pat_completeness auto
termination by (relation "measure (\<lambda>(c, e). c)") auto

declare shrink.simps [simp del]

definition EncodedData :: "Sign \<Rightarrow> int \<Rightarrow> nat \<Rightarrow> decimal" where
  "EncodedData sign exponent coefficient =
    (let formatClass = (if coefficient \<noteq> 0 then ClassNormal else ClassZero);
         (coefficient, exponent) =
           (if exponent \<ge> ExponentMin \<and> exponent \<le> ExponentMax
            then shrink coefficient exponent else (coefficient, exponent))
     in if exponent > ExponentMax then EncodedData_special sign ClassInfinity
        else if exponent < ExponentMin then EncodedData_special sign ClassZero
        else \<lparr>m_coefficient = coefficient, m_exponent = exponent,
               m_formatClass = formatClass, m_sign = sign\<rparr>)"

definition Decimal_of_int :: "int \<Rightarrow> decimal" where
  "Decimal_of_int i32 =
    EncodedData (if i32 < 0 then Negative else Positive) 0 (nat (if i32 < 0 then - i32 else i32))"

definition infinity :: "Sign \<Rightarrow> decimal" where
  "infinity sign = EncodedData_special sign ClassInfinity"

definition nan :: decimal where
  "nan = EncodedData_special Positive ClassNaN"

definition zero :: "Sign \<Rightarrow> decimal" where
  "zero sign = EncodedData_special sign ClassZero"

definition isSpecial :: "decimal \<Rightarrow> bool" where
  "isSpecial d \<longleftrightarrow> m_formatClass d = ClassInfinity \<or> m_formatClass d = ClassNaN"

abbreviation isFinite :: "decimal \<Rightarrow> bool" where
  "isFinite d \<equiv> \<not> isSpecial d"

abbreviation isNaN :: "decimal \<Rightarrow> bool" where
  "isNaN d \<equiv> m_formatClass d = ClassNaN"

abbreviation isZero :: "decimal \<Rightarrow> bool" where
  "isZero d \<equiv> m_formatClass d = ClassZero"

abbreviation isNegative :: "decimal \<Rightarrow> bool" where
  "isNegative d \<equiv> m_sign d = Negative"

definition invertSign :: "Sign \<Rightarrow> Sign" where
  "invertSign sign = (if sign = Negative then Positive else Negative)"

section \<open>Operations\<close>

datatype HandleResult = BothFinite | BothInfinity | EitherNaN decimal | LHSIsInfinity | RHSIsInfinity

text \<open>The result of \<^verbatim>\<open>SpecialValueHandler\<close> carries its \<^verbatim>\<open>value()\<close> for a NaN.\<close>

definition handle :: "decimal \<Rightarrow> decimal \<Rightarrow> HandleResult" where
  "handle lhs rhs =
    (if isFinite lhs \<and> isFinite rhs then BothFinite
     else if m_formatClass lhs = ClassNaN then EitherNaN lhs
     else if m_formatClass rhs = ClassNaN then EitherNaN rhs
     else if m_formatClass lhs = ClassInfinity
       then (if m_formatClass rhs = ClassInfinity then BothInfinity else LHSIsInfinity)
     else if m_formatClass rhs = ClassInfinity then RHSIsInfinity
     else BothFinite)"

record AlignedOperands =
  lhsCoefficient :: nat
  rhsCoefficient :: nat
  ao_exponent :: int

definition alignOperands :: "decimal \<Rightarrow> decimal \<Rightarrow> AlignedOperands" where
  "alignOperands lhs rhs =
    (let lhsExponent = m_exponent lhs; rhsExponent = m_exponent rhs;
         exponent = min lhsExponent rhsExponent;
         l = m_coefficient lhs; r = m_coefficient rhs
     in if lhsExponent > rhsExponent then
          (let numberOfLHSDigits = countDigits l in
           if numberOfLHSDigits \<noteq> 0 then
             (let lhsShiftAmount = lhsExponent - rhsExponent;
                  overflow = int numberOfLHSDigits + lhsShiftAmount - Precision
              in if overflow \<le> 0
                 then \<lparr>lhsCoefficient = scaleUp l (nat lhsShiftAmount), rhsCoefficient = r,
                        ao_exponent = exponent\<rparr>
                 else \<lparr>lhsCoefficient = scaleUp l (nat (lhsShiftAmount - overflow)),
                        rhsCoefficient = scaleDown r (nat overflow),
                        ao_exponent = exponent + overflow\<rparr>)
           else \<lparr>lhsCoefficient = l, rhsCoefficient = r, ao_exponent = exponent\<rparr>)
        else if lhsExponent < rhsExponent then
          (let numberOfRHSDigits = countDigits r in
           if numberOfRHSDigits \<noteq> 0 then
             (let rhsShiftAmount = rhsExponent - lhsExponent;
                  overflow = int numberOfRHSDigits + rhsShiftAmount - Precision
              in if overflow \<le> 0
                 then \<lparr>lhsCoefficient = l, rhsCoefficient = scaleUp r (nat rhsShiftAmount),
                        ao_exponent = exponent\<rparr>
                 else \<lparr>lhsCoefficient = scaleDown l (nat overflow),
                        rhsCoefficient = scaleUp r (nat (rhsShiftAmount - overflow)),
                        ao_exponent = exponent + overflow\<rparr>)
           else \<lparr>lhsCoefficient = l, rhsCoefficient = r, ao_exponent = exponent\<rparr>)
        else \<lparr>lhsCoefficient = l, rhsCoefficient = r, ao_exponent = exponent\<rparr>)"

definition Decimal_negate :: "decimal \<Rightarrow> decimal" where
  "Decimal_negate d = (if isNaN d then d else d\<lparr>m_sign := invertSign (m_sign d)\<rparr>)"

text \<open>
  The last statement of addition and subtraction: the difference, read as a
  signed 64-bit integer, decides the sign.
\<close>

definition signed_result :: "Sign \<Rightarrow> int \<Rightarrow> nat \<Rightarrow> decimal" where
  "signed_result sign exponent result =
    (if result < 2 ^ 63 then EncodedData sign exponent result
     else EncodedData (invertSign sign) exponent (u64_minus 0 result))"

definition Decimal_plus :: "decimal \<Rightarrow> decimal \<Rightarrow> decimal" where
  "Decimal_plus lhs rhs =
    (let lhsSign = m_sign lhs; rhsSign = m_sign rhs in
     case handle lhs rhs of
       BothInfinity \<Rightarrow> (if lhsSign = rhsSign then lhs else nan)
     | EitherNaN v \<Rightarrow> v
     | LHSIsInfinity \<Rightarrow> lhs
     | RHSIsInfinity \<Rightarrow> rhs
     | BothFinite \<Rightarrow>
         (let ao = alignOperands lhs rhs;
              result = (if lhsSign = rhsSign then u64 (lhsCoefficient ao + rhsCoefficient ao)
                        else u64_minus (lhsCoefficient ao) (rhsCoefficient ao))
          in if lhsSign = Negative \<and> rhsSign = Positive \<and> result = 0
             then EncodedData Positive (ao_exponent ao) 0
             else signed_result lhsSign (ao_exponent ao) result))"

definition Decimal_minus :: "decimal \<Rightarrow> decimal \<Rightarrow> decimal" where
  "Decimal_minus lhs rhs =
    (let lhsSign = m_sign lhs; rhsSign = m_sign rhs in
     case handle lhs rhs of
       BothInfinity \<Rightarrow> (if lhsSign = rhsSign then nan else lhs)
     | EitherNaN v \<Rightarrow> v
     | LHSIsInfinity \<Rightarrow> lhs
     | RHSIsInfinity \<Rightarrow> infinity (invertSign rhsSign)
     | BothFinite \<Rightarrow>
         (let ao = alignOperands lhs rhs;
              result = (if lhsSign = rhsSign then u64_minus (lhsCoefficient ao) (rhsCoefficient ao)
                        else u64 (lhsCoefficient ao + rhsCoefficient ao))
          in if lhsSign = Negative \<and> rhsSign = Negative \<and> result = 0
             then EncodedData Positive (ao_exponent ao) 0
             else signed_result lhsSign (ao_exponent ao) result))"

section \<open>128-bit products and quotients are exact\<close>

text \<open>Schoolbook division on digits to any base, highest digit first.\<close>

fun digits_value :: "nat \<Rightarrow> nat list \<Rightarrow> nat" where
  "digits_value B [] = 0"
| "digits_value B (d # ds) = d * B ^ length ds + digits_value B ds"

fun long_division :: "nat \<Rightarrow> nat list \<Rightarrow> nat \<Rightarrow> nat \<Rightarrow> nat list" where
  "long_division B [] q r = []"
| "long_division B (d # ds) q r = (r * B + d) div q # long_division B ds q ((r * B + d) mod q)"

lemma div_step:
  fixes q w L b :: nat
  assumes "0 < q"
  shows "(w * L + b) div q = w div q * L + (w mod q * L + b) div q"
proof -
  have "w * L + b = (w div q * q + w mod q) * L + b" by (simp only: div_mult_mod_eq)
  also have "\<dots> = (w div q * L) * q + (w mod q * L + b)"
    by (simp only: add_mult_distrib mult.assoc mult.commute [of q] add.assoc)
  finally have "(w * L + b) div q = ((w div q * L) * q + (w mod q * L + b)) div q" by (rule arg_cong)
  thus ?thesis using assms div_mult_self3 [of q "w div q * L" "w mod q * L + b"] by (simp only:)
qed

lemma long_division_length [simp]: "length (long_division B ds q r) = length ds"
  by (induction ds arbitrary: r) simp_all

lemma long_division_value:
  "r < q \<Longrightarrow>
   digits_value B (long_division B ds q r) = (r * B ^ length ds + digits_value B ds) div q"
proof (induction ds arbitrary: r)
  case (Cons d ds)
  let ?w = "r * B + d"
  have q: "0 < q" using Cons.prems by (cases q) simp_all
  have "r * B ^ length (d # ds) + digits_value B (d # ds) = ?w * B ^ length ds + digits_value B ds"
    by (simp add: add_mult_distrib)
  hence "(r * B ^ length (d # ds) + digits_value B (d # ds)) div q =
      ?w div q * B ^ length ds + (?w mod q * B ^ length ds + digits_value B ds) div q"
    by (simp only: div_step [OF q, of ?w "B ^ length ds" "digits_value B ds"])
  thus ?case using Cons.IH [of "?w mod q"] q by simp
qed simp

lemma quotient_digit:
  fixes q r d B :: nat
  assumes "r < q" "d < B"
  shows "(r * B + d) div q < B"
proof -
  have "r * B + d < Suc r * B" using assms(2) by simp
  also have "\<dots> \<le> q * B" using assms(1) by (intro mult_right_mono) simp_all
  finally show ?thesis by (simp add: less_mult_imp_div_less mult.commute)
qed

lemma long_division_digits:
  "r < q \<Longrightarrow> \<forall>d \<in> set ds. d < B \<Longrightarrow> \<forall>d \<in> set (long_division B ds q r). d < B"
proof (induction ds arbitrary: r)
  case (Cons d ds)
  have "(r * B + d) mod q < q" using Cons.prems(1) by (cases q) simp_all
  from Cons.IH [OF this] Cons.prems show ?case by (simp add: quotient_digit)
qed simp

lemma makeUInt64_eq: "low < 2 ^ 32 \<Longrightarrow> makeUInt64 low high = high * 2 ^ 32 + low"
proof -
  assume low: "low < 2 ^ 32"
  have "low AND push_bit 32 high = 0"
  proof (rule bit_eqI)
    fix n
    have "\<not> bit low n" if "32 \<le> n"
    proof -
      from low have "low = take_bit 32 low" by (simp add: take_bit_nat_eq_self)
      thus ?thesis using that by (metis bit_take_bit_iff not_less)
    qed
    thus "bit (low AND push_bit 32 high) n = bit (0 :: nat) n"
      by (auto simp: bit_simps)
  qed
  hence "low + push_bit 32 high = low OR push_bit 32 high"
    by (rule disjunctive_add_eq_or)
  thus ?thesis by (simp add: makeUInt64_def push_bit_eq_mult)
qed

lemma UInt128_divide_loop_eq:
  "r < q \<Longrightarrow> q \<le> 2 ^ 32 \<Longrightarrow> \<forall>d \<in> set ds. d < 2 ^ 32 \<Longrightarrow>
   UInt128_divide_loop ds q r = long_division (2 ^ 32) ds q r"
proof (induction ds arbitrary: r)
  case (Cons d ds)
  let ?w = "r * 2 ^ 32 + d"
  have work: "makeUInt64 d r = ?w" using Cons.prems(3) by (intro makeUInt64_eq) simp
  have "0 < q" using Cons.prems(1) by (cases q) simp_all
  hence "?w mod q < q" by simp
  moreover from this Cons.prems(2) have "lowUInt32 (?w mod q) = ?w mod q"
    unfolding lowUInt32_def by (intro mod_less) (rule less_le_trans)
  moreover have "lowUInt32 (?w div q) = ?w div q"
    unfolding lowUInt32_def using Cons.prems by (intro mod_less quotient_digit) simp_all
  moreover have "UInt128_divide_loop ds q (?w mod q) = long_division (2 ^ 32) ds q (?w mod q)"
    using Cons.IH Cons.prems(2,3) \<open>?w mod q < q\<close> by simp
  ultimately show ?case
    unfolding UInt128_divide_loop.simps long_division.simps work Let_def by simp
qed simp

lemma UInt32_bounds [simplified, simp]: "highUInt32 x < 2 ^ 32" "lowUInt32 x < 2 ^ 32"
  by (simp_all add: highUInt32_def lowUInt32_def)

lemma UInt32_join: "x < 2 ^ 64 \<Longrightarrow> highUInt32 x * 2 ^ 32 + lowUInt32 x = x"
  by (simp add: highUInt32_def lowUInt32_def)

lemma makeUInt64_less: "low < 2 ^ 32 \<Longrightarrow> high < 2 ^ 32 \<Longrightarrow> makeUInt64 low high < 2 ^ 64"
  by (simp add: makeUInt64_eq)

definition UInt128_value :: "UInt128 \<Rightarrow> nat" where
  "UInt128_value w = m_high w * 2 ^ 64 + m_low w"

definition UInt128_ok :: "UInt128 \<Rightarrow> bool" where
  "UInt128_ok w \<longleftrightarrow> m_high w < 2 ^ 64 \<and> m_low w < 2 ^ 64"

lemma UInt128_divide_correct:
  assumes "0 < q" "q \<le> 2 ^ 32" "UInt128_ok w"
  shows "UInt128_value (UInt128_divide w q) = UInt128_value w div q \<and> UInt128_ok (UInt128_divide w q)"
proof (cases "m_high w = 0")
  case True
  moreover have "m_low w div q < 2 ^ 64"
    using assms(3) by (auto simp: UInt128_ok_def intro: le_less_trans [OF div_le_dividend])
  ultimately show ?thesis by (simp add: UInt128_divide_def UInt128_value_def UInt128_ok_def)
next
  case False
  let ?ds = "[highUInt32 (m_high w), lowUInt32 (m_high w), highUInt32 (m_low w), lowUInt32 (m_low w)]"
  let ?B = "2 ^ 32 :: nat"
  obtain q3 q2 q1 q0 where qs: "long_division ?B ?ds q 0 = [q3, q2, q1, q0]"
    by (simp only: long_division.simps)
  have digits: "q3 < ?B" "q2 < ?B" "q1 < ?B" "q0 < ?B"
    using long_division_digits [OF assms(1), of ?ds ?B] unfolding qs by simp_all
  have "digits_value ?B ?ds = UInt128_value w"
    using UInt32_join [of "m_high w"] UInt32_join [of "m_low w"] assms(3)
    by (simp add: UInt128_value_def UInt128_ok_def)
  hence val: "digits_value ?B [q3, q2, q1, q0] = UInt128_value w div q"
    using long_division_value [OF assms(1), of ?B ?ds] unfolding qs by (simp only: mult_0 add_0)
  have loop: "UInt128_divide_loop ?ds q 0 = [q3, q2, q1, q0]"
    using UInt128_divide_loop_eq [OF assms(1,2), of ?ds] unfolding qs by simp
  have res: "UInt128_divide w q = \<lparr>m_high = makeUInt64 q2 q3, m_low = makeUInt64 q0 q1\<rparr>"
    unfolding UInt128_divide_def loop using False by simp
  have "UInt128_value (UInt128_divide w q) = digits_value ?B [q3, q2, q1, q0]"
    unfolding res UInt128_value_def using digits by (simp add: makeUInt64_eq)
  thus ?thesis using val digits by (simp add: res UInt128_ok_def makeUInt64_less [simplified])
qed

lemma high_product:
  fixes B :: nat
  assumes "0 < B"
  shows "a * c + (a * d + b * d div B) div B + (b * c + (a * d + b * d div B) mod B) div B =
    (a * B + b) * (c * B + d) div (B * B)"
proof -
  define p where "p = a * d + b * d div B"
  have "(a * B + b) * (c * B + d) = (a * c * B + a * d + b * c) * B + b * d"
    by (simp add: algebra_simps)
  hence "(a * B + b) * (c * B + d) div B = a * c * B + a * d + b * c + b * d div B"
    using assms by simp
  also have "\<dots> = a * c * B + p + b * c" by (simp add: p_def)
  also have "\<dots> = (a * c + p div B) * B + (b * c + p mod B)"
    using div_mult_mod_eq [of p B] by (simp only: add_mult_distrib)
  finally have "(a * B + b) * (c * B + d) div B div B = a * c + p div B + (b * c + p mod B) div B"
    using assms by simp
  thus ?thesis by (simp only: p_def [symmetric] div_mult2_eq)
qed

lemma product_bound:
  fixes B :: nat
  assumes "a < B" "b < B" "c < B"
  shows "a * b + c < B * B"
proof -
  have "a * b + c \<le> (B - 1) * (B - 1) + (B - 1)"
    using assms by (intro add_mono mult_mono) simp_all
  also have "\<dots> = (B - 1) * B" using assms(1) by (cases B) simp_all
  also have "\<dots> < B * B" using assms(1) by (cases B) simp_all
  finally show ?thesis .
qed

lemma u64_id: "x < 2 ^ 32 * 2 ^ 32 \<Longrightarrow> u64 x = x"
  by (simp add: u64_def)

lemma multiplyHigh_eq:
  assumes "u < 2 ^ 64" "v < 2 ^ 64"
  shows "multiplyHigh u v = u * v div 2 ^ 64"
proof -
  define B :: nat where "B = 2 ^ 32"
  have BB: "2 ^ 64 = B * B" by (simp add: B_def)
  define a b c d where "a = highUInt32 u" "b = lowUInt32 u" "c = highUInt32 v" "d = lowUInt32 v"
  note abcd = this
  have less: "a < B" "b < B" "c < B" "d < B"
    unfolding abcd B_def by simp_all
  have uv: "u = a * B + b" "v = c * B + d"
    using UInt32_join [of u] UInt32_join [of v] assms by (simp_all add: abcd B_def)
  have u64B: "x < B * B \<Longrightarrow> u64 x = x" for x using u64_id [of x] by (simp add: B_def)
  have hi: "x < B * B \<Longrightarrow> highUInt32 x = x div B" for x
    by (simp add: highUInt32_def B_def less_mult_imp_div_less)
  have lo: "lowUInt32 x = x mod B" for x by (simp add: lowUInt32_def B_def)
  let ?p = "a * d + b * d div B"
  have bd: "b * d < B * B" "b * d div B < B" "a * d < B * B" "b * c < B * B" "a * c < B * B"
    using product_bound [of b B d 0] product_bound [of a B d 0] product_bound [of b B c 0]
      product_bound [of a B c 0] less by (auto simp: less_mult_imp_div_less)
  have p: "?p < B * B" "?p div B < B" "?p mod B < B"
    using product_bound [OF less(1,4) bd(2)] less by (auto simp: less_mult_imp_div_less)
  have q: "b * c + ?p mod B < B * B" "a * c + ?p div B < B * B"
    using product_bound [OF less(2,3) p(3)] product_bound [OF less(1,3) p(2)] .
  have "(a * B + b) * (c * B + d) < (B * B) * (B * B)"
    using assms unfolding uv BB by (intro mult_strict_mono') auto
  hence r: "a * c + ?p div B + (b * c + ?p mod B) div B < B * B"
    using high_product [of B a c d b] less(1) by (simp add: less_mult_imp_div_less)
  have "multiplyHigh u v = a * c + ?p div B + (b * c + ?p mod B) div B"
    unfolding multiplyHigh_def Let_def abcd [symmetric]
    using bd p q r by (simp add: u64B hi lo)
  also have "\<dots> = u * v div (B * B)" unfolding uv using high_product [of B a c d b] less(1) by simp
  finally show ?thesis unfolding BB .
qed

lemma UInt128_multiply_correct:
  assumes "u < 2 ^ 64" "v < 2 ^ 64"
  shows "UInt128_value (UInt128_multiply u v) = u * v \<and> UInt128_ok (UInt128_multiply u v)"
proof -
  have "u * v < 2 ^ 64 * 2 ^ 64" using assms by (intro mult_strict_mono') auto
  hence "u * v div 2 ^ 64 < 2 ^ 64" by (rule less_mult_imp_div_less)
  thus ?thesis
    using div_mult_mod_eq [of "u * v" "2 ^ 64"]
    by (simp only: UInt128_multiply_def UInt128_value_def UInt128_ok_def UInt128.simps
        multiplyHigh_eq [OF assms] u64_def) simp
qed

lemma UInt32_join_mod: "highUInt32 x * 2 ^ 32 + lowUInt32 x = x mod 2 ^ 64"
  using mod_mult2_eq [of x "2 ^ 32" "2 ^ 32"] by (simp add: highUInt32_def lowUInt32_def)

lemma UInt128_divide_high_less:
  assumes "1 < q" "q \<le> 2 ^ 32" "m_high w \<noteq> 0"
  shows "m_high (UInt128_divide w q) < m_high w"
proof -
  let ?d3 = "highUInt32 (m_high w)" and ?d2 = "lowUInt32 (m_high w)" and ?B = "2 ^ 32 :: nat"
  let ?ds = "[?d3, ?d2, highUInt32 (m_low w), lowUInt32 (m_low w)]"
  have q: "0 < q" using assms(1) by simp
  obtain q3 q2 q1 q0 where qs: "long_division ?B ?ds q 0 = [q3, q2, q1, q0]"
    by (simp only: long_division.simps)
  hence two: "long_division ?B [?d3, ?d2] q 0 = [q3, q2]" by (simp only: long_division.simps list.inject)
  have digits: "q3 < ?B" "q2 < ?B"
    using long_division_digits [OF q, of "[?d3, ?d2]" ?B] unfolding two by simp_all
  have loop: "UInt128_divide_loop ?ds q 0 = [q3, q2, q1, q0]"
    using UInt128_divide_loop_eq [OF q assms(2), of ?ds] unfolding qs by simp
  have "m_high (UInt128_divide w q) = digits_value ?B [q3, q2]"
    unfolding UInt128_divide_def loop using assms(3) digits by (simp add: makeUInt64_eq)
  also have "\<dots> = (m_high w mod 2 ^ 64) div q"
    using long_division_value [OF q, of ?B "[?d3, ?d2]"] UInt32_join_mod [of "m_high w"]
    unfolding two by simp
  also have "\<dots> \<le> m_high w div q" by (intro div_le_mono) simp
  also have "\<dots> < m_high w" using assms by simp
  finally show ?thesis .
qed

section \<open>Scaling by powers of ten\<close>

lemma u64_mult_left [simp]: "u64 (u64 x * y) = u64 (x * y)"
  by (simp add: u64_def mod_mult_left_eq)

lemma u64_mult_right [simp]: "u64 (x * u64 y) = u64 (x * y)"
  by (simp add: u64_def mod_mult_right_eq)

lemma scaleUp_loop_eq: "scaleUp_loop x n y z = u64 (x * y * z ^ n)"
proof (induction x n y z rule: scaleUp_loop.induct)
  case (1 x n y z)
  let ?y = "if odd n then u64 (y * z) else y"
  have pow: "u64 (x * ?y * (z * z) ^ (n div 2)) = u64 (x * y * z ^ n)"
  proof (cases "odd n")
    case True
    hence "z ^ n = z * (z * z) ^ (n div 2)"
      by (metis odd_two_times_div_two_succ power2_eq_square power_Suc power_mult Suc_eq_plus1)
    thus ?thesis using True u64_mult_right [of "x * (z * z) ^ (n div 2)" "y * z"] by (simp add: ac_simps)
  next
    case False
    hence "z ^ n = (z * z) ^ (n div 2)"
      by (metis dvd_mult_div_cancel power2_eq_square power_mult)
    thus ?thesis using False by simp
  qed
  have u64_pow: "u64 (a * u64 b ^ k) = u64 (a * b ^ k)" for a b k
    unfolding u64_def by (metis mod_mult_right_eq power_mod)
  show ?case
  proof (cases "n div 2 = 0")
    case True
    thus ?thesis using pow by (simp add: scaleUp_loop.simps [of x n] Let_def)
  next
    case False
    from 1 [OF refl refl False] have "scaleUp_loop x n y z = u64 (x * ?y * u64 (z * z) ^ (n div 2))"
      using False by (subst scaleUp_loop.simps) (simp add: Let_def)
    thus ?thesis using pow by (simp only: u64_pow)
  qed
qed

lemma scaleUp_eq: "scaleUp x n = u64 (x * 10 ^ n)"
  by (simp add: scaleUp_def scaleUp_loop_eq)

lemma scaleDown_eq: "scaleDown x n = x div 10 ^ n"
  by (induction n arbitrary: x) (auto simp: div_mult2_eq)

lemma countDigits_loop_bounds:
  "x < 2 ^ 64 \<Longrightarrow> k \<le> 19 \<Longrightarrow> (k = 0 \<or> 10 ^ (k - 1) \<le> x) \<Longrightarrow>
   x < 10 ^ countDigits_loop x k \<and> (countDigits_loop x k = 0 \<or> 10 ^ (countDigits_loop x k - 1) \<le> x)"
proof (induction x k rule: countDigits_loop.induct)
  case (1 x k)
  show ?case
  proof (cases "10 ^ k \<le> x \<and> \<not> (2 ^ 64 - 1) div 10 \<le> (10 :: nat) ^ k")
    case True
    hence "(10 :: nat) ^ k < 10 ^ 19" by simp
    hence "k < 19" by (simp only: power_ten_below)
    thus ?thesis using 1 True by (subst (1 2 3) countDigits_loop.simps) simp
  next
    case False
    have "x < 10 ^ Suc k" if "(2 ^ 64 - 1) div 10 \<le> (10 :: nat) ^ k"
    proof -
      have "(10 :: nat) ^ 18 < 10 ^ k" using that by simp
      hence "k = 19" using "1.prems"(2) by (simp only: power_ten_below)
      thus ?thesis using "1.prems"(1) by simp
    qed
    thus ?thesis using False "1.prems" by (subst (1 2 3) countDigits_loop.simps) auto
  qed
qed

section \<open>Multiplication, division, comparison and rounding\<close>

function multiply_loop :: "UInt128 \<Rightarrow> int \<Rightarrow> UInt128 \<times> int" where
  "multiply_loop work resultExponent =
    (if m_high work \<noteq> 0 then multiply_loop (UInt128_divide work 10) (resultExponent + 1)
     else (work, resultExponent))"
  by pat_completeness auto
termination
  by (relation "measure (\<lambda>(work, e). m_high work)") (auto simp: UInt128_divide_high_less)

declare multiply_loop.simps [simp del]

definition Decimal_times :: "decimal \<Rightarrow> decimal \<Rightarrow> decimal" where
  "Decimal_times lhs rhs =
    (let lhsSign = m_sign lhs; rhsSign = m_sign rhs;
         resultSign = (if lhsSign = rhsSign then Positive else Negative) in
     case handle lhs rhs of
       BothFinite \<Rightarrow>
         (let (work, resultExponent) =
                multiply_loop (UInt128_multiply (m_coefficient lhs) (m_coefficient rhs))
                  (m_exponent lhs + m_exponent rhs)
          in EncodedData resultSign resultExponent (m_low work))
     | BothInfinity \<Rightarrow> infinity resultSign
     | EitherNaN v \<Rightarrow> v
     | LHSIsInfinity \<Rightarrow> (if isZero rhs then nan else infinity resultSign)
     | RHSIsInfinity \<Rightarrow> (if isZero lhs then nan else infinity resultSign))"

text \<open>
  The two nested loops of the division; the inner loop is the second branch.
  A zero divisor or remainder, which the source rules out before the loop, ends
  it at once.  With coefficients up to \<open>MaxCoefficient\<close> no step exceeds 64 bits.
\<close>

function divide_loop :: "nat \<Rightarrow> nat \<Rightarrow> nat \<Rightarrow> int \<Rightarrow> nat \<times> nat \<times> int" where
  "divide_loop divisor remainder result resultExponent =
    (if remainder = 0 \<or> divisor = 0 then (remainder, result, resultExponent)
     else if remainder < divisor \<and> result < MaxCoefficient div 10
     then divide_loop divisor (remainder * 10) (result * 10) (resultExponent - 1)
     else if remainder < divisor then (remainder, result, resultExponent)
     else let quotient = remainder div divisor in
       if result > MaxCoefficient - quotient then (remainder, result, resultExponent)
       else let result = result + quotient; remainder = remainder mod divisor in
         if remainder = 0 then (remainder, result, resultExponent)
         else divide_loop divisor remainder result resultExponent)"
  by pat_completeness auto
termination
proof (relation "measures [\<lambda>(divisor, remainder, result, e). MaxCoefficient - result,
    \<lambda>(divisor, remainder, result, e). divisor - remainder]", goal_cases)
  case (2 divisor remainder result e)
  thus ?case by (cases "result = 0") (auto simp: MaxCoefficient_def)
next
  case (3 divisor remainder result e q r' m')
  hence "0 < q" by (simp add: div_greater_zero_iff)
  with 3 show ?case by (auto simp: MaxCoefficient_def)
qed simp

declare divide_loop.simps [simp del]

definition Decimal_divide :: "decimal \<Rightarrow> decimal \<Rightarrow> decimal" where
  "Decimal_divide lhs rhs =
    (let lhsSign = m_sign lhs; rhsSign = m_sign rhs;
         resultSign = (if lhsSign = rhsSign then Positive else Negative) in
     case handle lhs rhs of
       BothInfinity \<Rightarrow> nan
     | EitherNaN v \<Rightarrow> v
     | LHSIsInfinity \<Rightarrow> infinity resultSign
     | RHSIsInfinity \<Rightarrow> zero resultSign
     | BothFinite \<Rightarrow>
         (if isZero rhs then (if isZero lhs then nan else infinity resultSign)
          else let resultExponent = m_exponent lhs - m_exponent rhs in
            if isZero lhs then EncodedData resultSign resultExponent 0
            else let divisor = m_coefficient rhs;
                     (remainder, result, resultExponent) =
                       divide_loop divisor (m_coefficient lhs) 0 resultExponent;
                     result = (if remainder > divisor div 2 then u64 (result + 1) else result)
              in EncodedData resultSign resultExponent result))"

definition compareTo :: "decimal \<Rightarrow> decimal \<Rightarrow> decimal" where
  "compareTo lhs rhs =
    (let result = Decimal_minus lhs rhs in
     case m_formatClass result of
       ClassInfinity \<Rightarrow> (if isNegative result then Decimal_of_int (- 1) else Decimal_of_int 1)
     | ClassNaN \<Rightarrow> result
     | ClassNormal \<Rightarrow> result
     | ClassZero \<Rightarrow> zero Positive)"

definition Decimal_eq :: "decimal \<Rightarrow> decimal \<Rightarrow> bool" where
  "Decimal_eq lhs rhs \<longleftrightarrow> lhs = rhs \<or> isZero (compareTo lhs rhs)"

definition Decimal_neq :: "decimal \<Rightarrow> decimal \<Rightarrow> bool" where
  "Decimal_neq lhs rhs =
    (if lhs = rhs then False
     else let result = compareTo lhs rhs in if isNaN result then False else \<not> isZero result)"

definition Decimal_less :: "decimal \<Rightarrow> decimal \<Rightarrow> bool" where
  "Decimal_less lhs rhs =
    (let result = compareTo lhs rhs in
     if isNaN result then False else \<not> isZero result \<and> isNegative result)"

definition Decimal_le :: "decimal \<Rightarrow> decimal \<Rightarrow> bool" where
  "Decimal_le lhs rhs =
    (if lhs = rhs then True
     else let result = compareTo lhs rhs in
       if isNaN result then False else isZero result \<or> isNegative result)"

definition Decimal_greater :: "decimal \<Rightarrow> decimal \<Rightarrow> bool" where
  "Decimal_greater lhs rhs =
    (let result = compareTo lhs rhs in
     if isNaN result then False else \<not> isZero result \<and> m_sign result = Positive)"

definition Decimal_ge :: "decimal \<Rightarrow> decimal \<Rightarrow> bool" where
  "Decimal_ge lhs rhs =
    (if lhs = rhs then True
     else let result = compareTo lhs rhs in
       if isNaN result then False else isZero result \<or> \<not> isNegative result)"

definition Decimal_abs :: "decimal \<Rightarrow> decimal" where
  "Decimal_abs d = d\<lparr>m_sign := Positive\<rparr>"

definition isMultiplePowersOfTen :: "nat \<Rightarrow> nat \<Rightarrow> bool" where
  "isMultiplePowersOfTen coefficient n \<longleftrightarrow> coefficient = 0 \<or> coefficient mod scaleUp 1 n = 0"

definition Decimal_ceil :: "decimal \<Rightarrow> decimal" where
  "Decimal_ceil d =
    (if isSpecial d then d
     else if m_exponent d \<ge> 0 then d
     else let numberOfDigits = countDigits (m_coefficient d);
              numberOfDropDigits = nat (- m_exponent d)
       in if numberOfDigits \<le> numberOfDropDigits
          then (if m_sign d = Positive then Decimal_of_int 1 else zero Positive)
          else let result = scaleDown (m_coefficient d) numberOfDropDigits;
                   result = (if m_sign d = Positive \<and>
                                \<not> isMultiplePowersOfTen (m_coefficient d) numberOfDropDigits
                             then u64 (result + 1) else result)
            in EncodedData (m_sign d) 0 result)"

definition Decimal_floor :: "decimal \<Rightarrow> decimal" where
  "Decimal_floor d =
    (if isSpecial d then d
     else if m_exponent d \<ge> 0 then d
     else let numberOfDigits = countDigits (m_coefficient d);
              numberOfDropDigits = nat (- m_exponent d)
       in if numberOfDigits < numberOfDropDigits
          then (if m_sign d = Positive then zero Positive else Decimal_of_int (- 1))
          else let result = scaleDown (m_coefficient d) numberOfDropDigits;
                   result = (if isNegative d \<and>
                                \<not> isMultiplePowersOfTen (m_coefficient d) numberOfDropDigits
                             then u64 (result + 1) else result)
            in EncodedData (m_sign d) 0 result)"

definition Decimal_round :: "decimal \<Rightarrow> decimal" where
  "Decimal_round d =
    (if isSpecial d then d
     else if m_exponent d \<ge> 0 then d
     else let numberOfDigits = countDigits (m_coefficient d);
              numberOfDropDigits = nat (- m_exponent d)
       in if numberOfDigits < numberOfDropDigits then zero Positive
          else let result = scaleDown (m_coefficient d) (numberOfDropDigits - 1);
                   result = (if result mod 10 \<ge> 5 then u64 (result + 10) else result)
            in EncodedData (m_sign d) 0 (result div 10))"

definition Decimal_remainder :: "decimal \<Rightarrow> decimal \<Rightarrow> decimal" where
  "Decimal_remainder lhs rhs =
    (let quotient = Decimal_divide lhs rhs in
     if isSpecial quotient then quotient
     else Decimal_minus lhs
       (Decimal_times (if isNegative quotient then Decimal_ceil quotient else Decimal_floor quotient) rhs))"

section \<open>Reading and printing\<close>

datatype from_string_state =
  StateDigit | StateDot | StateDotDigit | StateE | StateEDigit | StateESign | StateSign | StateStart | StateZero

text \<open>The local variables of \<^verbatim>\<open>Decimal::fromString\<close>.\<close>

record from_string =
  fs_exponent :: int
  fs_exponentSign :: Sign
  fs_numberOfDigits :: int
  fs_numberOfDigitsAfterDot :: int
  fs_numberOfExtraDigits :: int
  fs_sign :: Sign
  fs_state :: from_string_state
  fs_accumulator :: nat

definition digit_of :: "uchar \<Rightarrow> nat" where
  "digit_of ch = unat ch - 48"

definition from_string_init :: from_string where
  "from_string_init =
    \<lparr>fs_exponent = 0, fs_exponentSign = Positive, fs_numberOfDigits = 0, fs_numberOfDigitsAfterDot = 0,
     fs_numberOfExtraDigits = 0, fs_sign = Positive, fs_state = StateStart, fs_accumulator = 0\<rparr>"

text \<open>
  One turn of the loop over the characters: \<open>Inl\<close> is a \<^verbatim>\<open>return\<close> out of the
  loop, \<open>Inr\<close> the variables after the \<^verbatim>\<open>break\<close>.
\<close>

definition from_string_step :: "from_string \<Rightarrow> uchar \<Rightarrow> decimal + from_string" where
  "from_string_step s ch =
    (let digit = (ch \<ge> uc CHR ''0'' \<and> ch \<le> uc CHR ''9'');
         first_digit = s\<lparr>fs_accumulator := digit_of ch, fs_numberOfDigits := 1, fs_state := StateDigit\<rparr>
     in case fs_state s of
       StateDigit \<Rightarrow>
         (if digit then
            (if fs_numberOfDigits s < Precision
             then Inr (s\<lparr>fs_numberOfDigits := fs_numberOfDigits s + 1,
                         fs_accumulator := u64 (u64 (fs_accumulator s * 10) + digit_of ch)\<rparr>)
             else Inr (s\<lparr>fs_numberOfExtraDigits := fs_numberOfExtraDigits s + 1\<rparr>))
          else if ch = uc CHR ''.'' then Inr (s\<lparr>fs_state := StateDot\<rparr>)
          else if ch = uc CHR ''E'' \<or> ch = uc CHR ''e'' then Inr (s\<lparr>fs_state := StateE\<rparr>)
          else Inl nan)
     | StateE \<Rightarrow>
         (if ch = uc CHR ''+'' then Inr (s\<lparr>fs_exponentSign := Positive, fs_state := StateESign\<rparr>)
          else if ch = uc CHR ''-'' then Inr (s\<lparr>fs_exponentSign := Negative, fs_state := StateESign\<rparr>)
          else if digit then Inr (s\<lparr>fs_exponent := int (digit_of ch), fs_state := StateEDigit\<rparr>)
          else Inl nan)
     | StateEDigit \<Rightarrow>
         (if digit then
            (let exponent = fs_exponent s * 10 + int (digit_of ch) in
             if exponent > ExponentMax + Precision then
               (if fs_accumulator s \<noteq> 0
                then Inl (if fs_exponentSign s = Negative then zero Positive else infinity (fs_sign s))
                else Inl (zero (fs_sign s)))
             else Inr (s\<lparr>fs_exponent := exponent, fs_state := StateEDigit\<rparr>))
          else Inl nan)
     | StateESign \<Rightarrow>
         (if digit then Inr (s\<lparr>fs_exponent := int (digit_of ch), fs_state := StateEDigit\<rparr>)
          else Inl nan)
     | StateSign \<Rightarrow>
         (if ch \<ge> uc CHR ''1'' \<and> ch \<le> uc CHR ''9'' then Inr first_digit
          else if ch = uc CHR ''0'' then Inr (s\<lparr>fs_state := StateZero\<rparr>)
          else Inl nan)
     | StateStart \<Rightarrow>
         (if ch \<ge> uc CHR ''1'' \<and> ch \<le> uc CHR ''9'' then Inr first_digit
          else if ch = uc CHR ''-'' then Inr (s\<lparr>fs_sign := Negative, fs_state := StateSign\<rparr>)
          else if ch = uc CHR ''+'' then Inr (s\<lparr>fs_sign := Positive, fs_state := StateSign\<rparr>)
          else if ch = uc CHR ''0'' then Inr (s\<lparr>fs_state := StateZero\<rparr>)
          else if ch = uc CHR ''.'' then Inr (s\<lparr>fs_state := StateDot\<rparr>)
          else Inl nan)
     | StateZero \<Rightarrow>
         (if ch = uc CHR ''0'' then Inr s
          else if ch \<ge> uc CHR ''1'' \<and> ch \<le> uc CHR ''9'' then Inr first_digit
          else if ch = uc CHR ''.'' then Inr (s\<lparr>fs_state := StateDot\<rparr>)
          else if ch = uc CHR ''E'' \<or> ch = uc CHR ''e'' then Inr (s\<lparr>fs_state := StateE\<rparr>)
          else Inl nan)
     | _ \<Rightarrow> \<comment> \<open>\<^verbatim>\<open>StateDot\<close> and \<^verbatim>\<open>StateDotDigit\<close>\<close>
         (if digit then
            (if fs_numberOfDigits s < Precision
             then Inr (s\<lparr>fs_numberOfDigits := fs_numberOfDigits s + 1,
                         fs_numberOfDigitsAfterDot := fs_numberOfDigitsAfterDot s + 1,
                         fs_accumulator := u64 (u64 (fs_accumulator s * 10) + digit_of ch),
                         fs_state := StateDotDigit\<rparr>)
             else Inr (s\<lparr>fs_state := StateDotDigit\<rparr>))
          else if ch = uc CHR ''E'' \<or> ch = uc CHR ''e'' then Inr (s\<lparr>fs_state := StateE\<rparr>)
          else Inl nan))"

fun from_string_loop :: "from_string \<Rightarrow> wstr \<Rightarrow> decimal + from_string" where
  "from_string_loop s [] = Inr s"
| "from_string_loop s (ch # str) =
    (case from_string_step s ch of Inl d \<Rightarrow> Inl d | Inr s' \<Rightarrow> from_string_loop s' str)"

definition from_string_finish :: "from_string \<Rightarrow> decimal" where
  "from_string_finish s =
    (if fs_state s = StateZero then zero (fs_sign s)
     else if fs_state s = StateDigit \<or> fs_state s = StateEDigit \<or> fs_state s = StateDotDigit then
       (let resultExponent = fs_exponent s * (if fs_exponentSign s = Negative then - 1 else 1)
              - fs_numberOfDigitsAfterDot s + fs_numberOfExtraDigits s
        in if resultExponent < ExponentMin then zero Positive
           else let overflow = resultExponent - ExponentMax + 1 in
             if overflow > 0 then
               (if overflow + fs_numberOfDigits s - fs_numberOfDigitsAfterDot s > Precision
                then infinity (fs_sign s)
                else EncodedData (fs_sign s) (resultExponent - overflow)
                       (scaleUp (fs_accumulator s) (nat overflow)))
             else EncodedData (fs_sign s) resultExponent (fs_accumulator s))
     else nan)"

definition fromString :: "wstr \<Rightarrow> decimal" where
  "fromString str =
    (case from_string_loop from_string_init str of Inl d \<Rightarrow> d | Inr s \<Rightarrow> from_string_finish s)"

definition fromDouble :: "platform \<Rightarrow> double \<Rightarrow> decimal" where
  "fromDouble P d =
    (case d of DFin _ \<Rightarrow> fromString (numberToString P d)
     | DInf negative \<Rightarrow> infinity (if negative then Negative else Positive)
     | DNaN \<Rightarrow> nan)"

text \<open>The two loops of \<^verbatim>\<open>Decimal::toString\<close> that shorten a fraction, to \<^verbatim>\<open>DBL_DIG\<close> digits and to no trailing zero.\<close>

function shorten_digits :: "nat \<Rightarrow> int \<Rightarrow> nat \<Rightarrow> nat \<times> int \<times> nat" where
  "shorten_digits coefficient exponent lastDigit =
    (if countDigits coefficient > 15
     then shorten_digits (coefficient div 10) (exponent + 1) (coefficient mod 10)
     else (coefficient, exponent, lastDigit))"
  by pat_completeness auto

lemma countDigits_0 [simp]: "countDigits 0 = 0"
  by (simp add: countDigits_def countDigits_loop.simps)

termination shorten_digits
proof (relation "measure (\<lambda>(c, e, l). c)", goal_cases)
  case (2 c e l)
  thus ?case by (cases "c = 0") auto
qed simp

declare shorten_digits.simps [simp del]

function drop_zeros :: "nat \<Rightarrow> int \<Rightarrow> nat \<times> int" where
  "drop_zeros coefficient exponent =
    (if exponent < 0 \<and> coefficient \<noteq> 0 \<and> coefficient mod 10 = 0
     then drop_zeros (coefficient div 10) (exponent + 1)
     else (coefficient, exponent))"
  by pat_completeness auto
termination by (relation "measure (\<lambda>(c, e). c)") auto

declare drop_zeros.simps [simp del]

definition toString_shorten :: "nat \<Rightarrow> int \<Rightarrow> nat \<times> int" where
  "toString_shorten coefficient originalExponent =
    (if originalExponent < 0 then
       (let (coefficient, originalExponent, lastDigit) = shorten_digits coefficient originalExponent 0;
            coefficient = (if lastDigit \<ge> 5 then u64 (coefficient + 1) else coefficient)
        in drop_zeros coefficient originalExponent)
     else (coefficient, originalExponent))"

primrec strip_trailing_zeros :: "wstr \<Rightarrow> nat \<Rightarrow> nat" where
  "strip_trailing_zeros digits 0 = 0"
| "strip_trailing_zeros digits (Suc n) =
    (if Suc n \<ge> 2 \<and> digits ! n = uc CHR ''0'' then strip_trailing_zeros digits n else Suc n)"

definition toString_digits :: "wstr \<Rightarrow> int \<Rightarrow> wstr" where
  "toString_digits digits originalExponent =
    (let coefficientLength = int (length digits);
         adjustedExponent = originalExponent + coefficientLength - 1
     in if originalExponent \<le> 0 \<and> adjustedExponent \<ge> - 6 then
          (if originalExponent = 0 then digits
           else if adjustedExponent \<ge> 0
           then take (Suc (nat adjustedExponent)) digits @ [uc CHR ''.''] @ drop (Suc (nat adjustedExponent)) digits
           else lit ''0.'' @ replicate (nat (- (adjustedExponent + 1))) (uc CHR ''0'') @ digits)
        else
          (let len = strip_trailing_zeros digits (length digits) in
           [digits ! 0] @
           (if len \<ge> 2 then [uc CHR ''.''] @ take (len - 1) (drop 1 digits) else []) @
           (if adjustedExponent \<noteq> 0
            then (if adjustedExponent < 0 then lit ''e'' else lit ''e+'') @
                 numberToStringSigned (word_of_int adjustedExponent)
            else [])))"

definition toString :: "decimal \<Rightarrow> wstr" where
  "toString d =
    (case m_formatClass d of
       ClassInfinity \<Rightarrow> (if m_sign d = Negative then lit ''-Infinity'' else lit ''Infinity'')
     | ClassNaN \<Rightarrow> lit ''NaN''
     | _ \<Rightarrow>
         (let (coefficient, originalExponent) = toString_shorten (m_coefficient d) (m_exponent d)
          in (if m_sign d = Negative then [uc CHR ''-''] else []) @
             toString_digits (numberToStringImpl_digits coefficient) originalExponent))"

definition toDouble :: "platform \<Rightarrow> decimal \<Rightarrow> double" where
  "toDouble P d =
    (if isFinite d then (case charactersToDouble P (toString d) of Some v \<Rightarrow> v | None \<Rightarrow> DNaN)
     else if m_formatClass d = ClassInfinity then DInf (isNegative d)
     else DNaN)"


lemmas decimal_eval = toString_def toString_digits_def toString_shorten_def drop_zeros.simps shorten_digits.simps
  fromString_def from_string_finish_def from_string_step_def from_string_init_def digit_of_def lit_simps
  nan_def infinity_def zero_def EncodedData_def EncodedData_special_def shrink.simps countDigits_def countDigits_loop.simps
  numberToStringImpl_digits.simps decimal_limits u64_def Let_def scaleUp_def scaleUp_loop.simps
  numberToStringSigned_def

section \<open>The representation invariant\<close>

definition decimal_ok :: "decimal \<Rightarrow> bool" where
  "decimal_ok d \<longleftrightarrow> m_coefficient d \<le> MaxCoefficient \<and>
    ExponentMin \<le> m_exponent d \<and> m_exponent d \<le> ExponentMax \<and>
    (m_formatClass d = ClassNormal \<longleftrightarrow> m_coefficient d \<noteq> 0) \<and>
    (isSpecial d \<longrightarrow> m_exponent d = 0)"

lemma shrink_ok:
  "shrink c e = (c', e') \<Longrightarrow> c' \<le> MaxCoefficient \<and> (c' = 0 \<longleftrightarrow> c = 0) \<and> e \<le> e'"
proof (induction c e rule: shrink.induct)
  case (1 c e)
  show ?case
  proof (cases "MaxCoefficient < c")
    case True
    hence "shrink (c div 10) (e + 1) = (c', e')" using "1.prems" by (simp add: shrink.simps [of c])
    moreover have "c div 10 = 0 \<longleftrightarrow> c = 0" using True by (auto simp: MaxCoefficient_def)
    ultimately show ?thesis using "1.IH" [OF True] by auto
  next
    case False
    thus ?thesis using "1.prems" by (simp add: shrink.simps [of c])
  qed
qed

lemma special_ok [simp]: "f \<noteq> ClassNormal \<Longrightarrow> decimal_ok (EncodedData_special sign f)"
  by (simp add: decimal_ok_def EncodedData_special_def decimal_limits)

lemma EncodedData_ok [simp]: "decimal_ok (EncodedData sign e c)"
proof (cases "ExponentMin \<le> e \<and> e \<le> ExponentMax")
  case True
  obtain c' e' where "shrink c e = (c', e')" by fastforce
  with shrink_ok [OF this] True show ?thesis
    by (auto simp: EncodedData_def decimal_ok_def isSpecial_def Let_def EncodedData_special_def
        ExponentMin_def ExponentMax_def)
next
  case False
  thus ?thesis by (auto simp: EncodedData_def)
qed

lemma decimal_ok_simps [simp]:
  "decimal_ok (infinity sign)" "decimal_ok nan" "decimal_ok (zero sign)" "decimal_ok (Decimal_of_int i)"
  "decimal_ok d \<Longrightarrow> decimal_ok (d\<lparr>m_sign := s\<rparr>)"
  by (auto simp: infinity_def nan_def zero_def Decimal_of_int_def)
    (simp add: decimal_ok_def isSpecial_def)

lemma handle_NaN: "handle lhs rhs = EitherNaN v \<Longrightarrow> v = lhs \<or> v = rhs"
  by (auto simp: handle_def split: if_splits)

lemma decimal_arith_ok:
  assumes "decimal_ok a" "decimal_ok b"
  shows "decimal_ok (Decimal_plus a b)" "decimal_ok (Decimal_minus a b)"
    "decimal_ok (Decimal_times a b)" "decimal_ok (Decimal_divide a b)"
  using assms handle_NaN [of a b]
  by (auto simp: Decimal_plus_def Decimal_minus_def Decimal_times_def Decimal_divide_def Let_def
      signed_result_def split: HandleResult.splits prod.splits)

lemma decimal_round_ok:
  assumes "decimal_ok a"
  shows "decimal_ok (Decimal_negate a)" "decimal_ok (Decimal_abs a)"
    "decimal_ok (Decimal_ceil a)" "decimal_ok (Decimal_floor a)" "decimal_ok (Decimal_round a)"
  using assms
  by (auto simp: Decimal_negate_def Decimal_abs_def Decimal_ceil_def Decimal_floor_def Decimal_round_def Let_def)

lemma compareTo_ok: "decimal_ok a \<Longrightarrow> decimal_ok b \<Longrightarrow> decimal_ok (compareTo a b)"
  using decimal_arith_ok(2) [of a b] by (auto simp: compareTo_def Let_def split: FormatClass.splits)

lemma from_string_step_ok: "from_string_step s ch = Inl d \<Longrightarrow> decimal_ok d"
  by (auto simp: from_string_step_def Let_def split: from_string_state.splits if_splits)

lemma from_string_loop_ok: "from_string_loop s str = Inl d \<Longrightarrow> decimal_ok d"
  by (induction s str rule: from_string_loop.induct) (auto split: sum.splits dest: from_string_step_ok)

lemma fromString_ok: "decimal_ok (fromString str)"
  by (auto simp: fromString_def from_string_finish_def Let_def split: sum.splits dest: from_string_loop_ok)

text \<open>
  C30: every decimal number the operations produce from well-formed operands is
  well formed: at most eighteen digits, an exponent within the limits, the
  class Normal exactly for a non-zero coefficient.  Reading any string at all
  gives a well-formed number.
\<close>

theorem decimal_operations_ok:
  assumes "decimal_ok a" "decimal_ok b"
  shows "decimal_ok (Decimal_plus a b) \<and> decimal_ok (Decimal_minus a b) \<and>
    decimal_ok (Decimal_times a b) \<and> decimal_ok (Decimal_divide a b) \<and>
    decimal_ok (Decimal_remainder a b) \<and> decimal_ok (compareTo a b) \<and>
    decimal_ok (Decimal_negate a) \<and> decimal_ok (Decimal_abs a) \<and> decimal_ok (Decimal_ceil a) \<and>
    decimal_ok (Decimal_floor a) \<and> decimal_ok (Decimal_round a) \<and> decimal_ok (fromString str)"
proof -
  let ?q = "Decimal_divide a b"
  have "decimal_ok ?q" by (rule decimal_arith_ok(4)) fact+
  hence "decimal_ok (Decimal_times (if isNegative ?q then Decimal_ceil ?q else Decimal_floor ?q) b)"
    by (simp add: decimal_arith_ok(3) decimal_round_ok assms(2))
  with \<open>decimal_ok ?q\<close> have "decimal_ok (Decimal_remainder a b)"
    by (simp add: Decimal_remainder_def Let_def decimal_arith_ok(2) assms(1))
  thus ?thesis
    by (simp add: decimal_arith_ok decimal_round_ok compareTo_ok fromString_ok assms)
qed

theorem decimal_operations_ok_witness:
  "decimal_ok (Decimal_divide (Decimal_of_int 1) (Decimal_of_int 3))"
  using decimal_operations_ok [of "Decimal_of_int 1" "Decimal_of_int 3"] by simp

section \<open>Multiplication is exact\<close>

definition decimal_value :: "decimal \<Rightarrow> rat" where
  "decimal_value d = (if m_sign d = Negative then - 1 else 1) * of_nat (m_coefficient d) * 10 powi m_exponent d"

lemma multiply_loop_low: "m_high w = 0 \<Longrightarrow> multiply_loop w e = (w, e)"
  by (simp add: multiply_loop.simps)



section \<open>Integers are read and printed exactly\<close>

lemma from_string_loop_append:
  "from_string_loop s xs = Inr s' \<Longrightarrow> from_string_loop s (xs @ ys) = from_string_loop s' ys"
  by (induction s xs rule: from_string_loop.induct) (auto split: sum.splits)

lemma numberToStringImpl_digits_length: "n < 10 ^ Suc k \<Longrightarrow> length (numberToStringImpl_digits n) \<le> Suc k"
proof (induction k arbitrary: n)
  case 0
  thus ?case by (simp add: numberToStringImpl_digits.simps [of n])
next
  case (Suc k)
  hence "n div 10 < 10 ^ Suc k" by (simp add: less_mult_imp_div_less)
  from Suc.IH [OF this] show ?case by (subst numberToStringImpl_digits.simps) simp
qed

lemma digit_of_char: "d < 10 \<Longrightarrow> digit_of (word_of_nat d + uc CHR ''0'') = d"
proof -
  assume "d < 10"
  hence "d \<in> {0,1,2,3,4,5,6,7,8,9}" by auto
  thus ?thesis by (auto simp: digit_of_def)
qed

lemma nonzero_digit_char:
  "0 < d \<Longrightarrow> d < 10 \<Longrightarrow>
   word_of_nat d + uc CHR ''0'' \<ge> uc CHR ''1'' \<and> word_of_nat d + uc CHR ''0'' \<le> uc CHR ''9''"
proof -
  assume "0 < d" "d < 10"
  hence "d \<in> {1,2,3,4,5,6,7,8,9}" by auto
  thus ?thesis by auto
qed

lemma from_string_step_first:
  "fs_state s = StateStart \<or> fs_state s = StateSign \<Longrightarrow> uc CHR ''1'' \<le> ch \<and> ch \<le> uc CHR ''9'' \<Longrightarrow>
   from_string_step s ch =
     Inr (s\<lparr>fs_accumulator := digit_of ch, fs_numberOfDigits := 1, fs_state := StateDigit\<rparr>)"
  by (elim disjE) (simp_all add: from_string_step_def Let_def)

lemma from_string_step_digit:
  "fs_state s = StateDigit \<Longrightarrow> isASCIIDigit ch \<Longrightarrow> fs_numberOfDigits s < Precision \<Longrightarrow>
   from_string_step s ch =
     Inr (s\<lparr>fs_numberOfDigits := fs_numberOfDigits s + 1,
            fs_accumulator := u64 (u64 (fs_accumulator s * 10) + digit_of ch)\<rparr>)"
  by (simp add: from_string_step_def Let_def isASCIIDigit_def)

definition digits_read :: "from_string \<Rightarrow> nat \<Rightarrow> from_string" where
  "digits_read s n =
    s\<lparr>fs_accumulator := n, fs_numberOfDigits := int (length (numberToStringImpl_digits n)), fs_state := StateDigit\<rparr>"

lemma from_string_loop_digits:
  "fs_state s = StateStart \<or> fs_state s = StateSign \<Longrightarrow> 0 < n \<Longrightarrow> n \<le> MaxCoefficient \<Longrightarrow>
   from_string_loop s (numberToStringImpl_digits n) = Inr (digits_read s n)"
proof (induction n rule: numberToStringImpl_digits.induct)
  case (1 n)
  let ?d = "n mod 10" and ?ch = "word_of_nat (n mod 10) + uc CHR ''0''"
  show ?case
  proof (cases "n div 10 = 0")
    case True
    hence "n < 10" by simp
    hence digits: "numberToStringImpl_digits n = [?ch]" using True by (subst numberToStringImpl_digits.simps) simp
    have "from_string_step s ?ch = Inr (digits_read s n)"
      using from_string_step_first [OF "1.prems"(1) nonzero_digit_char [of n]]
        digit_of_char [of n] \<open>n < 10\<close> "1.prems"(2)
      by (simp add: digits_read_def digits del: uc_def)
    thus ?thesis unfolding digits by simp
  next
    case False
    have digits: "numberToStringImpl_digits n = numberToStringImpl_digits (n div 10) @ [?ch]"
      using False by (subst numberToStringImpl_digits.simps) simp
    have IH: "from_string_loop s (numberToStringImpl_digits (n div 10)) = Inr (digits_read s (n div 10))"
      using 1 False by (auto intro: order_trans [OF div_le_dividend])
    have "n < 10 ^ Suc 16 * 10" using "1.prems"(3) by (simp add: MaxCoefficient_def)
    hence "n div 10 < 10 ^ Suc 16" by (rule less_mult_imp_div_less)
    hence len: "int (length (numberToStringImpl_digits (n div 10))) < Precision"
      using numberToStringImpl_digits_length [of "n div 10" 16] by (simp add: decimal_limits)
    have small: "n < 2 ^ 64" using "1.prems"(3) by (simp add: MaxCoefficient_def)
    have "n div 10 * 10 \<le> n" by simp
    hence acc: "u64 (u64 (n div 10 * 10) + ?d) = n" using small by (simp add: u64_def)
    have "from_string_step (digits_read s (n div 10)) ?ch = Inr (digits_read s n)"
      using from_string_step_digit [of "digits_read s (n div 10)" ?ch] digit_char(1) [of ?d]
        digit_of_char [of ?d] len acc
      by (simp add: digits_read_def digits del: uc_def)
    thus ?thesis unfolding digits using from_string_loop_append [OF IH] by simp
  qed
qed

definition minus_sign :: "Sign \<Rightarrow> wstr" where
  "minus_sign sign = (if sign = Negative then [uc CHR ''-''] else [])"

lemma fromString_digits:
  assumes "0 < n" "n \<le> MaxCoefficient"
  shows "fromString (minus_sign sign @ numberToStringImpl_digits n) = EncodedData sign 0 n"
proof -
  let ?s = "if sign = Negative then from_string_init\<lparr>fs_sign := Negative, fs_state := StateSign\<rparr> else from_string_init"
  have state: "fs_state ?s = StateStart \<or> fs_state ?s = StateSign" by (simp add: from_string_init_def)
  have "from_string_loop from_string_init (minus_sign sign) = Inr ?s"
    by (simp add: minus_sign_def from_string_step_def from_string_init_def Let_def)
  from from_string_loop_append [OF this] from_string_loop_digits [OF state assms]
  have "from_string_loop from_string_init (minus_sign sign @ numberToStringImpl_digits n) = Inr (digits_read ?s n)"
    by simp
  thus ?thesis
    by (cases sign) (simp_all add: fromString_def from_string_finish_def digits_read_def from_string_init_def
        Let_def decimal_limits)
qed

text \<open>
  C31: a decimal integer of at most eighteen digits is read and printed without
  a change of a single character.
\<close>

theorem decimal_integer_roundtrip:
  assumes "0 < n" "n \<le> MaxCoefficient"
  shows "toString (fromString (minus_sign sign @ numberToStringImpl_digits n)) =
    minus_sign sign @ numberToStringImpl_digits n"
proof -
  have "EncodedData sign 0 n =
      \<lparr>m_coefficient = n, m_exponent = 0, m_formatClass = ClassNormal, m_sign = sign\<rparr>"
    using assms by (simp add: EncodedData_def shrink.simps ExponentMin_def ExponentMax_def)
  thus ?thesis unfolding fromString_digits [OF assms] using numberToStringImpl_digits_nonempty [of n]
    by (simp add: toString_def toString_shorten_def toString_digits_def
        minus_sign_def Let_def Suc_le_eq)
qed

theorem decimal_integer_roundtrip_witness:
  "toString (fromString (minus_sign Negative @ numberToStringImpl_digits 907)) =
    minus_sign Negative @ numberToStringImpl_digits 907"
  using decimal_integer_roundtrip [of 907 Negative] by (simp add: MaxCoefficient_def)

text \<open>
  A fraction is printed with fifteen significant digits only, so that a
  double that needs seventeen is not printed faithfully: the sum of 0.1 and 0.2
  is printed as 0.3.
\<close>

theorem decimal_fraction_truncated: "toString (fromString (lit ''0.30000000000000004'')) = lit ''0.3''"
  by (simp add: decimal_eval)

text \<open>
  The ceiling of a positive zero that carries a negative exponent, as the
  one read from 0.00, is 1.
\<close>

theorem ceil_of_zero: "Decimal_ceil (fromString (lit ''0.00'')) = Decimal_of_int 1"
  by (simp add: decimal_eval Decimal_ceil_def Decimal_of_int_def isSpecial_def)

end
