(* ===== verification/JSON_Values.thy ===== *)
theory JSON_Values
  imports Decimal
begin

text \<open>
  JSON values and their printers (\<^verbatim>\<open>Source/platform/JSONValues.cpp\<close>).  An object is
  a hash map \<^verbatim>\<open>m_data\<close> together with the vector \<^verbatim>\<open>m_order\<close> of its keys in the order
  of their insertion; the printers walk along \<^verbatim>\<open>m_order\<close> and look every key up.
\<close>

section \<open>Values\<close>

datatype json =
    JSONNull
  | JSONBoolean bool
  | JSONNumber double
  | JSONString wstr
  | JSONObject json_object
  | JSONArray "json list"
and json_object =
    JSONObjectBase (m_data: "(wstr \<times> json) list") (m_order: "wstr list")

definition asBoolean :: "json \<Rightarrow> bool option" where
  "asBoolean v = (case v of JSONBoolean b \<Rightarrow> Some b | _ \<Rightarrow> None)"

definition asNumber_double :: "json \<Rightarrow> double option" where
  "asNumber_double v = (case v of JSONNumber d \<Rightarrow> Some d | _ \<Rightarrow> None)"

definition asNumber_long :: "json \<Rightarrow> int option" where
  "asNumber_long v = (case v of JSONNumber d \<Rightarrow> Some (double_to_signed 64 d) | _ \<Rightarrow> None)"

definition asNumber_int :: "json \<Rightarrow> int option" where
  "asNumber_int v = (case v of JSONNumber d \<Rightarrow> Some (double_to_signed 32 d) | _ \<Rightarrow> None)"

definition asString :: "json \<Rightarrow> wstr option" where
  "asString v = (case v of JSONString s \<Rightarrow> Some s | _ \<Rightarrow> None)"

definition asObject :: "json \<Rightarrow> json_object option" where
  "asObject v = (case v of JSONObject ob \<Rightarrow> Some ob | _ \<Rightarrow> None)"

definition asArray :: "json \<Rightarrow> json list option" where
  "asArray v = (case v of JSONArray vs \<Rightarrow> Some vs | _ \<Rightarrow> None)"

lemmas json_as_defs = asBoolean_def asNumber_double_def asNumber_long_def asNumber_int_def
  asString_def asObject_def asArray_def

lemma json_as_simps [simp]:
  "asBoolean (JSONBoolean b) = Some b"
  "asNumber_double (JSONNumber d) = Some d"
  "asString (JSONString s) = Some s"
  "asObject (JSONObject ob) = Some ob"
  "asArray (JSONArray vs) = Some vs"
  by (simp_all add: json_as_defs)

section \<open>Objects\<close>

definition emptyObject :: json_object where
  "emptyObject = JSONObjectBase [] []"

definition setValue :: "wstr \<Rightarrow> json \<Rightarrow> json_object \<Rightarrow> json_object" where
  "setValue name val ob =
    (let isNewEntry = \<not> hcontains (m_data ob) name
     in JSONObjectBase (hset name val (m_data ob))
          (if isNewEntry then m_order ob @ [name] else m_order ob))"

definition setBoolean :: "wstr \<Rightarrow> bool \<Rightarrow> json_object \<Rightarrow> json_object" where
  "setBoolean name b ob = setValue name (JSONBoolean b) ob"

definition setNumber :: "wstr \<Rightarrow> double \<Rightarrow> json_object \<Rightarrow> json_object" where
  "setNumber name d ob = setValue name (JSONNumber d) ob"

text \<open>A number created from an \<^verbatim>\<open>int\<close> is exact as a double.\<close>

definition number_json :: "int \<Rightarrow> json" where
  "number_json n = JSONNumber (DFin (of_int n))"

definition setString :: "wstr \<Rightarrow> wstr \<Rightarrow> json_object \<Rightarrow> json_object" where
  "setString name s ob = setValue name (JSONString s) ob"

definition setObject :: "wstr \<Rightarrow> json_object \<Rightarrow> json_object \<Rightarrow> json_object" where
  "setObject name val ob = setValue name (JSONObject val) ob"

definition setArray :: "wstr \<Rightarrow> json list \<Rightarrow> json_object \<Rightarrow> json_object" where
  "setArray name val ob = setValue name (JSONArray val) ob"

definition getValue :: "json_object \<Rightarrow> wstr \<Rightarrow> json option" where
  "getValue ob name = hget (m_data ob) name"

definition getBoolean :: "json_object \<Rightarrow> wstr \<Rightarrow> bool option" where
  "getBoolean ob name = (case getValue ob name of None \<Rightarrow> None | Some v \<Rightarrow> asBoolean v)"

definition getNumber_double :: "json_object \<Rightarrow> wstr \<Rightarrow> double option" where
  "getNumber_double ob name = (case getValue ob name of None \<Rightarrow> None | Some v \<Rightarrow> asNumber_double v)"

definition getNumber_long :: "json_object \<Rightarrow> wstr \<Rightarrow> int option" where
  "getNumber_long ob name = (case getValue ob name of None \<Rightarrow> None | Some v \<Rightarrow> asNumber_long v)"

definition getNumber_int :: "json_object \<Rightarrow> wstr \<Rightarrow> int option" where
  "getNumber_int ob name = (case getValue ob name of None \<Rightarrow> None | Some v \<Rightarrow> asNumber_int v)"

definition getString :: "json_object \<Rightarrow> wstr \<Rightarrow> wstr option" where
  "getString ob name = (case getValue ob name of None \<Rightarrow> None | Some v \<Rightarrow> asString v)"

definition getObject :: "json_object \<Rightarrow> wstr \<Rightarrow> json_object option" where
  "getObject ob name = (case getValue ob name of None \<Rightarrow> None | Some v \<Rightarrow> asObject v)"

definition getArray :: "json_object \<Rightarrow> wstr \<Rightarrow> json list option" where
  "getArray ob name = (case getValue ob name of None \<Rightarrow> None | Some v \<Rightarrow> asArray v)"

text \<open>\<^verbatim>\<open>remove\<close> deletes the first occurrence of the name in \<^verbatim>\<open>m_order\<close> only.\<close>

definition removeValue :: "wstr \<Rightarrow> json_object \<Rightarrow> json_object" where
  "removeValue name ob = JSONObjectBase (hremove name (m_data ob)) (remove1 name (m_order ob))"

definition pushValue :: "json \<Rightarrow> json list \<Rightarrow> json list" where
  "pushValue v vs = vs @ [v]"

definition arrayGet :: "json list \<Rightarrow> nat \<Rightarrow> json cxx" where
  "arrayGet vs index = (if index < length vs then Val (vs ! index) else UB)"

section \<open>Printing\<close>

definition escapeChar :: "uchar \<Rightarrow> wstr option" where
  "escapeChar c =
    (if c = 8 then Some (lit (CHR 0x5C # ''b''))
     else if c = 12 then Some (lit (CHR 0x5C # ''f''))
     else if c = 10 then Some (lit (CHR 0x5C # ''n''))
     else if c = 13 then Some (lit (CHR 0x5C # ''r''))
     else if c = 9 then Some (lit (CHR 0x5C # ''t''))
     else if c = uc CHR 0x5C then Some (lit [CHR 0x5C, CHR 0x5C])
     else if c = uc CHR 0x22 then Some (lit [CHR 0x5C, CHR 0x22])
     else None)"

definition upper_hex_digit :: "nat \<Rightarrow> uchar" where
  "upper_hex_digit n = (if n < 10 then uc CHR ''0'' + word_of_nat n else uc CHR ''A'' + word_of_nat (n - 10))"

text \<open>\<^verbatim>\<open>String::format("\u%04X", symbol)\<close> of a 16-bit symbol.\<close>

definition format_u04X :: "uchar \<Rightarrow> wstr" where
  "format_u04X c =
    lit (CHR 0x5C # ''u'') @
    [upper_hex_digit (unat c div 16 ^ 3 mod 16), upper_hex_digit (unat c div 16 ^ 2 mod 16),
     upper_hex_digit (unat c div 16 mod 16), upper_hex_digit (unat c mod 16)]"

definition quoteChar :: "uchar \<Rightarrow> wstr" where
  "quoteChar c =
    (case escapeChar c of
       Some s \<Rightarrow> s
     | None \<Rightarrow>
         (if c < 32 \<or> c > 126 \<or> c = uc CHR ''<'' \<or> c = uc CHR ''>'' then format_u04X c else [c]))"

definition doubleQuoteString :: "wstr \<Rightarrow> wstr" where
  "doubleQuoteString str = [uc CHR 0x22] @ concat (map quoteChar str) @ [uc CHR 0x22]"

definition writeIndent :: "nat \<Rightarrow> wstr" where
  "writeIndent depth = concat (replicate depth (lit ''  ''))"

definition writeNumber :: "platform \<Rightarrow> double \<Rightarrow> wstr" where
  "writeNumber P d = (if \<not> isfinite_double d then lit ''null'' else toString (fromDouble P d))"

text \<open>Looking up a key of \<^verbatim>\<open>m_order\<close> that is missing in \<^verbatim>\<open>m_data\<close> dereferences the end iterator.\<close>

function (sequential)
    writeJSON :: "platform \<Rightarrow> json \<Rightarrow> wstr cxx"
and writeMembers :: "platform \<Rightarrow> (wstr \<times> json) list \<Rightarrow> wstr list \<Rightarrow> bool \<Rightarrow> wstr cxx"
and writeElements :: "platform \<Rightarrow> json list \<Rightarrow> bool \<Rightarrow> wstr cxx" where
  "writeJSON P JSONNull = Val (lit ''null'')"
| "writeJSON P (JSONBoolean b) = Val (if b then lit ''true'' else lit ''false'')"
| "writeJSON P (JSONNumber d) = Val (writeNumber P d)"
| "writeJSON P (JSONString s) = Val (doubleQuoteString s)"
| "writeJSON P (JSONObject (JSONObjectBase data order)) =
    bind_cxx (writeMembers P data order True) (\<lambda>ms. Val (lit ''{'' @ ms @ lit ''}''))"
| "writeJSON P (JSONArray vs) =
    bind_cxx (writeElements P vs True) (\<lambda>es. Val (lit ''['' @ es @ lit '']''))"
| "writeMembers P data [] first = Val []"
| "writeMembers P data (k # order) first =
    (case hget data k of
       None \<Rightarrow> UB
     | Some v \<Rightarrow>
         bind_cxx (writeJSON P v) (\<lambda>s.
         bind_cxx (writeMembers P data order False) (\<lambda>ms.
           Val ((if first then [] else lit '','') @ doubleQuoteString k @ lit '':'' @ s @ ms))))"
| "writeElements P [] first = Val []"
| "writeElements P (v # vs) first =
    bind_cxx (writeJSON P v) (\<lambda>s.
    bind_cxx (writeElements P vs False) (\<lambda>es.
      Val ((if first then [] else lit '','') @ s @ es)))"
  by pat_completeness auto

lemma size_hget: "hget m k = Some v \<Longrightarrow> size v < size_list (size_prod (\<lambda>_. 0) size) m"
  by (drule hget_map_of) (force dest: size_list_estimation' [where f = "size_prod (\<lambda>_. 0) size" and y = "Suc (size v)"])

termination writeJSON
  by (relation "measures
      [\<lambda>x. case x of Inl (P, v) \<Rightarrow> size v
         | Inr (Inl (P, data, order, first)) \<Rightarrow> size_list (size_prod (\<lambda>_. 0) size) data
         | Inr (Inr (P, vs, first)) \<Rightarrow> size_list size vs,
       \<lambda>x. case x of Inl (P, v) \<Rightarrow> 0
         | Inr (Inl (P, data, order, first)) \<Rightarrow> Suc (length order)
         | Inr (Inr (P, vs, first)) \<Rightarrow> Suc (length vs)]")
    (auto simp: size_hget)

definition toJSONString :: "platform \<Rightarrow> json \<Rightarrow> wstr cxx" where
  "toJSONString P v = writeJSON P v"

definition insertNewLine :: "json \<Rightarrow> bool" where
  "insertNewLine v = (case v of JSONObject _ \<Rightarrow> True | JSONArray _ \<Rightarrow> True | JSONString _ \<Rightarrow> True | _ \<Rightarrow> False)"

function (sequential)
    prettyWriteJSONInternal :: "platform \<Rightarrow> json \<Rightarrow> nat \<Rightarrow> wstr cxx"
and prettyMembers :: "platform \<Rightarrow> (wstr \<times> json) list \<Rightarrow> wstr list \<Rightarrow> nat \<Rightarrow> bool \<Rightarrow> wstr cxx"
and prettyElements :: "platform \<Rightarrow> json list \<Rightarrow> nat \<Rightarrow> bool \<Rightarrow> bool \<Rightarrow> wstr cxx" where
  "prettyWriteJSONInternal P (JSONObject (JSONObjectBase data order)) depth =
    bind_cxx (prettyMembers P data order depth True) (\<lambda>ms.
      Val (lit ''{'' @ [10] @ ms @ [10] @ writeIndent depth @ lit ''}''))"
| "prettyWriteJSONInternal P (JSONArray vs) depth =
    bind_cxx (prettyElements P vs depth True False) (\<lambda>es. Val (lit ''['' @ es @ lit '']''))"
| "prettyWriteJSONInternal P v depth = writeJSON P v"
| "prettyMembers P data [] depth first = Val []"
| "prettyMembers P data (k # order) depth first =
    (case hget data k of
       None \<Rightarrow> UB
     | Some v \<Rightarrow>
         bind_cxx (prettyWriteJSONInternal P v (depth + 1)) (\<lambda>s.
         bind_cxx (prettyMembers P data order depth False) (\<lambda>ms.
           Val ((if first then [] else lit '','' @ [10]) @ writeIndent (depth + 1) @
                doubleQuoteString k @ lit '': '' @ s @ ms))))"
| "prettyElements P [] depth first lastInsertedNewLine =
    Val (if lastInsertedNewLine then [10] @ writeIndent depth else [])"
| "prettyElements P (v # vs) depth first lastInsertedNewLine =
    bind_cxx (prettyWriteJSONInternal P v (depth + 1)) (\<lambda>s.
    bind_cxx (prettyElements P vs depth False (insertNewLine v)) (\<lambda>es.
      Val ((if first then (if insertNewLine v then [10] @ writeIndent (depth + 1) else [])
            else lit '','' @ (if lastInsertedNewLine then [10] @ writeIndent (depth + 1) else lit '' '')) @
           s @ es)))"
  by pat_completeness auto
termination
  by (relation "measures
      [\<lambda>x. case x of Inl (P, v, depth) \<Rightarrow> size v
         | Inr (Inl (P, data, order, depth, first)) \<Rightarrow> size_list (size_prod (\<lambda>_. 0) size) data
         | Inr (Inr (P, vs, depth, first, l)) \<Rightarrow> size_list size vs,
       \<lambda>x. case x of Inl (P, v, depth) \<Rightarrow> 0
         | Inr (Inl (P, data, order, depth, first)) \<Rightarrow> Suc (length order)
         | Inr (Inr (P, vs, depth, first, l)) \<Rightarrow> Suc (length vs)]")
    (auto simp: size_hget)

definition toPrettyJSONString :: "platform \<Rightarrow> json \<Rightarrow> wstr cxx" where
  "toPrettyJSONString P v = bind_cxx (prettyWriteJSONInternal P v 0) (\<lambda>s. Val (s @ [10]))"

section \<open>The object invariant\<close>

text \<open>
  The keys of \<^verbatim>\<open>m_order\<close> are those of \<^verbatim>\<open>m_data\<close>, each once, in the order in which
  the association list holds them.
\<close>

definition object_shape :: "json_object \<Rightarrow> bool" where
  "object_shape ob \<longleftrightarrow> m_order ob = hkeys (m_data ob) \<and> distinct (m_order ob)"

fun json_ok :: "json \<Rightarrow> bool" and object_ok :: "json_object \<Rightarrow> bool" where
  "json_ok (JSONObject ob) = object_ok ob"
| "json_ok (JSONArray vs) = list_all json_ok vs"
| "json_ok _ = True"
| "object_ok (JSONObjectBase data order) \<longleftrightarrow>
    object_shape (JSONObjectBase data order) \<and> list_all (\<lambda>kv. json_ok (snd kv)) data"

lemma object_shape_hmap_ok: "object_shape ob \<Longrightarrow> hmap_ok (m_data ob)"
  by (auto simp: object_shape_def hmap_ok_def hkeys_def)

lemma object_shape_setValue: "object_shape ob \<Longrightarrow> object_shape (setValue name v ob)"
  by (auto simp: object_shape_def setValue_def Let_def hkeys_hset hcontains_def set_hkeys)

lemma object_shape_removeValue: "object_shape ob \<Longrightarrow> object_shape (removeValue name ob)"
  by (auto simp: object_shape_def removeValue_def hkeys_hremove distinct_remove1_removeAll
      removeAll_filter_not_eq) (metis (mono_tags, lifting))

interpretation jo: dictionary emptyObject getValue setValue removeValue object_shape
  by unfold_locales
    (auto simp: emptyObject_def getValue_def setValue_def removeValue_def Let_def
      object_shape_setValue [unfolded setValue_def Let_def] object_shape_removeValue [unfolded removeValue_def],
     simp add: object_shape_def hkeys_def)

lemma list_all_values:
  "hmap_ok m \<Longrightarrow> list_all (\<lambda>kv. p (snd kv)) m \<longleftrightarrow> (\<forall>k v. hget m k = Some v \<longrightarrow> p v)"
  by (auto simp: list_all_iff simp flip: hget_Some_in)

lemma object_ok_iff:
  "object_ok ob \<longleftrightarrow> object_shape ob \<and> (\<forall>k v. getValue ob k = Some v \<longrightarrow> json_ok v)"
  by (cases ob) (auto simp: getValue_def list_all_values dest: object_shape_hmap_ok)

lemma object_ok_empty [simp]: "object_ok emptyObject"
  by (simp add: object_ok_iff jo.invar_empty jo.find_empty)

lemma object_ok_setValue [simp]: "object_ok ob \<Longrightarrow> json_ok v \<Longrightarrow> object_ok (setValue name v ob)"
  by (simp add: object_ok_iff jo.invar_put jo.find_put)

lemma object_ok_removeValue [simp]: "object_ok ob \<Longrightarrow> object_ok (removeValue name ob)"
  by (simp add: object_ok_iff jo.invar_remove jo.find_remove)

lemma getValue_setValue [simp]: "getValue (setValue name v ob) n = (if name = n then Some v else getValue ob n)"
  by (simp add: getValue_def setValue_def Let_def)

lemma getValue_removeValue [simp]: "getValue (removeValue name ob) n = (if name = n then None else getValue ob n)"
  by (simp add: getValue_def removeValue_def)

lemma getValue_empty [simp]: "getValue emptyObject n = None"
  by (simp add: getValue_def emptyObject_def)

lemmas json_setters = setBoolean_def setNumber_def setString_def setObject_def setArray_def

lemmas json_getters = getBoolean_def getNumber_double_def getNumber_long_def getNumber_int_def
  getString_def getObject_def getArray_def

section \<open>Printing a well-formed value\<close>

lemma writeMembers_defined:
  "(\<And>k v. hget data k = Some v \<Longrightarrow> defined (writeJSON P v)) \<Longrightarrow> set order \<subseteq> set (hkeys data) \<Longrightarrow>
   defined (writeMembers P data order first)"
proof (induction order arbitrary: first)
  case (Cons k order)
  from Cons.prems(2) obtain v where v: "hget data k = Some v"
    using set_hkeys [of k data] by auto
  from Cons.prems(1) [OF v] Cons.IH [of False] Cons.prems show ?case
    by (auto simp: v defined_iff_Val)
qed simp

lemma writeElements_defined:
  "(\<And>v. v \<in> set vs \<Longrightarrow> defined (writeJSON P v)) \<Longrightarrow> defined (writeElements P vs first)"
proof (induction vs arbitrary: first)
  case (Cons v vs)
  hence "defined (writeJSON P v)" "defined (writeElements P vs False)" by auto
  thus ?case by (auto simp: defined_iff_Val)
qed simp

lemma writeJSON_defined: "json_ok v \<Longrightarrow> defined (writeJSON P v)"
proof (induction v rule: measure_induct_rule [where f = size])
  case (less v)
  show ?case
  proof (cases v)
    case (JSONObject ob)
    obtain data order where ob: "ob = JSONObjectBase data order" by (cases ob)
    have shape: "object_shape ob" and ok: "list_all (\<lambda>kv. json_ok (snd kv)) data"
      using less.prems by (auto simp: JSONObject ob)
    have "defined (writeMembers P data order True)"
    proof (rule writeMembers_defined)
      fix k w
      assume w: "hget data k = Some w"
      have "json_ok w" using ok hget_map_of [OF w] by (auto simp: list_all_iff)
      moreover have "size w < size v" using size_hget [OF w] by (simp add: JSONObject ob)
      ultimately show "defined (writeJSON P w)" by (rule less.IH [rotated])
    next
      show "set order \<subseteq> set (hkeys data)" using shape by (simp add: object_shape_def ob)
    qed
    thus ?thesis by (auto simp: JSONObject ob defined_iff_Val)
  next
    case (JSONArray vs)
    have "defined (writeElements P vs True)"
    proof (rule writeElements_defined)
      fix w
      assume w: "w \<in> set vs"
      hence "size w < size v" using size_list_estimation' [of w vs "size w" size] by (simp add: JSONArray)
      moreover have "json_ok w" using less.prems w by (auto simp: JSONArray list_all_iff)
      ultimately show "defined (writeJSON P w)" by (rule less.IH)
    qed
    thus ?thesis by (auto simp: JSONArray defined_iff_Val)
  qed simp_all
qed

section \<open>Printed text is safe to embed\<close>

definition html_safe :: "uchar \<Rightarrow> bool" where
  "html_safe c \<longleftrightarrow> isASCIIPrintable c \<and> c \<noteq> uc CHR ''<'' \<and> c \<noteq> uc CHR ''>''"

lemma html_safe_digit: "isASCIIDigit c \<Longrightarrow> html_safe c"
  by (auto simp: isASCIIDigit_def html_safe_def isASCIIPrintable_def word_le_nat_alt)

lemma html_safe_hex: "n < 16 \<Longrightarrow> html_safe (upper_hex_digit n)"
  by (rule list_all_below [where k = 16]) (simp_all add: upt_rec upper_hex_digit_def html_safe_def isASCIIPrintable_def)

lemma html_safe_quoteChar: "list_all html_safe (quoteChar c)"
proof (cases "escapeChar c")
  case None
  have "list_all html_safe (format_u04X c)"
    by (simp add: format_u04X_def lit_simps html_safe_hex) (simp add: html_safe_def isASCIIPrintable_def)
  thus ?thesis using None
    by (auto simp: quoteChar_def html_safe_def isASCIIPrintable_def not_less)
next
  case (Some s)
  thus ?thesis
    unfolding escapeChar_def
    by (simp split: if_splits)
      (auto simp: quoteChar_def escapeChar_def lit_simps html_safe_def isASCIIPrintable_def)
qed

lemma html_safe_doubleQuoteString: "list_all html_safe (doubleQuoteString s)"
proof -
  have "list_all html_safe (concat (map quoteChar s))"
    by (induction s) (simp_all add: html_safe_quoteChar)
  thus ?thesis by (simp add: doubleQuoteString_def) (simp add: html_safe_def isASCIIPrintable_def)
qed

lemma html_safe_number: "list_all html_safe (numberToStringImpl_digits n)"
  using numberToStringImpl_digits_set [of n] by (auto simp: list_all_iff html_safe_digit)

lemma html_safe_signed: "list_all html_safe (numberToStringSigned w)"
  by (simp add: numberToStringSigned_def html_safe_number) (simp add: html_safe_def isASCIIPrintable_def)

lemma list_all_take_drop: "list_all p xs \<Longrightarrow> list_all p (take n xs)" "list_all p xs \<Longrightarrow> list_all p (drop n xs)"
  by (auto simp: list_all_iff dest: in_set_takeD in_set_dropD)

lemma html_safe_toString_digits:
  assumes "list_all html_safe ds" "ds \<noteq> []"
  shows "list_all html_safe (toString_digits ds e)"
proof -
  have hd: "html_safe (ds ! 0)" using assms by (cases ds) simp_all
  have lits: "html_safe (uc CHR ''.'')" "html_safe (uc CHR ''0'')" "list_all html_safe (lit ''0.'')"
      "list_all html_safe (lit ''e'')" "list_all html_safe (lit ''e+'')"
    by (simp_all add: html_safe_def isASCIIPrintable_def lit_simps)
  have rep: "list_all html_safe (replicate k (uc CHR ''0''))" for k
    using lits(2) by (simp add: list_all_iff del: uc_def)
  show ?thesis
    unfolding toString_digits_def Let_def
    using assms(1) hd lits rep html_safe_signed
    by (simp add: list_all_take_drop del: uc_def)
qed

lemma html_safe_writeNumber: "list_all html_safe (writeNumber P d)"
proof -
  have lits: "list_all html_safe (lit ''null'')" "list_all html_safe (lit ''NaN'')"
      "list_all html_safe (lit ''Infinity'')" "list_all html_safe (lit ''-Infinity'')" "html_safe (uc CHR ''-'')"
    by (simp_all add: html_safe_def isASCIIPrintable_def lit_simps)
  thus ?thesis
    using html_safe_toString_digits [OF html_safe_number numberToStringImpl_digits_nonempty]
    by (auto simp: writeNumber_def toString_def Let_def simp del: uc_def split: FormatClass.splits prod.splits)
qed

lemma html_safe_writeJSON:
  "writeJSON P v = Val s \<Longrightarrow> list_all html_safe s"
  "writeMembers P data order first = Val s \<Longrightarrow> list_all html_safe s"
  "writeElements P vs first = Val s \<Longrightarrow> list_all html_safe s"
proof (induction P v and P data order first and P vs first arbitrary: s and s and s
    rule: writeJSON_writeMembers_writeElements.induct)
qed (auto simp: bind_cxx_eq_Val html_safe_writeNumber html_safe_doubleQuoteString lit_simps
    split: option.splits,
  auto simp: html_safe_def isASCIIPrintable_def)

text \<open>
  C32: whatever value is printed, the text consists of printable ASCII
  characters and contains neither of the two angle brackets, so that it can be
  embedded in a page without opening or closing an element.
\<close>

theorem toJSONString_html_safe:
  assumes "toJSONString P v = Val s"
  shows "list_all (\<lambda>c. isASCIIPrintable c \<and> c \<noteq> uc CHR ''<'' \<and> c \<noteq> uc CHR ''>'') s"
  using html_safe_writeJSON(1) [of P v s] assms
  by (simp add: toJSONString_def html_safe_def list_all_iff)

theorem toJSONString_html_safe_witness:
  "list_all (\<lambda>c. isASCIIPrintable c \<and> c \<noteq> uc CHR ''<'' \<and> c \<noteq> uc CHR ''>'')
    (lit ''['' @ doubleQuoteString (lit ''<b>'') @ lit '',null]'')"
proof (rule toJSONString_html_safe)
  show "toJSONString
      \<lparr>isWhiteSpaceNeutral = (\<lambda>_. False), charactersToDouble = (\<lambda>_. None), numberToString = (\<lambda>_. [])\<rparr>
      (JSONArray [JSONString (lit ''<b>''), JSONNull]) =
    Val (lit ''['' @ doubleQuoteString (lit ''<b>'') @ lit '',null]'')"
    by (simp add: toJSONString_def lit_simps)
qed

end
