(* ===== verification/JSON_Parser.thy ===== *)
theory JSON_Parser
  imports JSON_Values "HOL-Library.Sublist"
begin

text \<open>
  The JSON parser (\<^verbatim>\<open>Source/core/inspector/JSONParser.cpp\<close>).  A pointer into the
  text is the suffix of the text it points to, so that \<^verbatim>\<open>start == end\<close> is the
  empty suffix; a read at \<^verbatim>\<open>end\<close> or beyond is \<open>UB\<close>.  A function that returns
  false, or a null value, returns \<open>None\<close>; otherwise it returns the suffix after
  the token.
\<close>

section \<open>Tokens\<close>

definition stackLimit :: nat where
  "stackLimit = 1000"

datatype Token =
    ObjectBegin | ObjectEnd | ArrayBegin | ArrayEnd | StringLiteral | Number
  | BoolTrue | BoolFalse | NullToken | ListSeparator | ObjectPairSeparator | InvalidToken

text \<open>Both pointers of the loop condition have moved when the comparison fails.\<close>

fun parseConstToken :: "wstr \<Rightarrow> wstr \<Rightarrow> wstr option" where
  "parseConstToken start [] = Some start"
| "parseConstToken [] (t # token) = None"
| "parseConstToken (c # start) (t # token) =
    (if c = t then parseConstToken start token
     else if token \<noteq> [] then None else Some start)"

definition readInt :: "wstr \<Rightarrow> bool \<Rightarrow> wstr option" where
  "readInt start canHaveLeadingZeros =
    (if start = [] then None
     else let haveLeadingZero = (hd start = uc CHR ''0'');
              len = length (takeWhile isASCIIDigit start)
       in if len = 0 then None
          else if \<not> canHaveLeadingZeros \<and> len > 1 \<and> haveLeadingZero then None
          else Some (drop len start))"

definition parseExponent :: "wstr \<Rightarrow> wstr option" where
  "parseExponent start =
    (case start of
       [] \<Rightarrow> Some start
     | c # rest \<Rightarrow>
         if c = uc CHR ''e'' \<or> c = uc CHR ''E'' then
           (case rest of
              [] \<Rightarrow> None
            | c' # rest' \<Rightarrow>
                if c' = uc CHR ''-'' \<or> c' = uc CHR ''+''
                then (if rest' = [] then None else readInt rest' True)
                else readInt rest True)
         else Some start)"

definition parseNumberToken :: "wstr \<Rightarrow> wstr option" where
  "parseNumberToken start =
    (case start of
       [] \<Rightarrow> None
     | c # rest \<Rightarrow>
         (case readInt (if c = uc CHR ''-'' then rest else start) False of
            None \<Rightarrow> None
          | Some start \<Rightarrow>
              (case start of
                 [] \<Rightarrow> Some start
               | c # rest \<Rightarrow>
                   if c = uc CHR ''.'' then
                     (case readInt rest True of
                        None \<Rightarrow> None
                      | Some start \<Rightarrow> parseExponent start)
                   else parseExponent start)))"

definition isHexDigit :: "uchar \<Rightarrow> bool" where
  "isHexDigit c \<longleftrightarrow> (uc CHR ''0'' \<le> c \<and> c \<le> uc CHR ''9'') \<or> (uc CHR ''a'' \<le> c \<and> c \<le> uc CHR ''f'') \<or>
    (uc CHR ''A'' \<le> c \<and> c \<le> uc CHR ''F'')"

definition readHexDigits :: "wstr \<Rightarrow> nat \<Rightarrow> wstr option" where
  "readHexDigits start digits =
    (if length start < digits then None
     else if list_all isHexDigit (take digits start) then Some (drop digits start) else None)"

lemma readHexDigits_length: "readHexDigits s n = Some r \<Longrightarrow> length r \<le> length s"
  by (auto simp: readHexDigits_def split: if_splits)

definition simple_escapes :: "uchar list" where
  "simple_escapes = lit (CHR 0x5C # CHR 0x22 # ''/bfnrtv'')"

function parseStringToken :: "wstr \<Rightarrow> wstr option cxx" where
  "parseStringToken start =
    (case start of
       [] \<Rightarrow> Val None
     | c # start \<Rightarrow>
         if c = uc CHR 0x5C then
           (case start of
              [] \<Rightarrow> UB
            | c # start \<Rightarrow>
                if c = uc CHR ''x'' then
                  (case readHexDigits start 2 of None \<Rightarrow> Val None | Some start \<Rightarrow> parseStringToken start)
                else if c = uc CHR ''u'' then
                  (case readHexDigits start 4 of None \<Rightarrow> Val None | Some start \<Rightarrow> parseStringToken start)
                else if c \<in> set simple_escapes then parseStringToken start
                else Val None)
         else if c = uc CHR 0x22 then Val (Some start)
         else parseStringToken start)"
  by pat_completeness auto
termination
  by (relation "measure length") (auto dest: readHexDigits_length)

declare parseStringToken.simps [simp del]

text \<open>
  \<open>parseToken\<close> returns the token, the suffix at its first character and the
  suffix after it.  For \<open>InvalidToken\<close> the source leaves the two pointers unset.
\<close>

definition token_if :: "Token \<Rightarrow> wstr \<Rightarrow> wstr option \<Rightarrow> Token \<times> wstr \<times> wstr" where
  "token_if token tokenStart r =
    (case r of None \<Rightarrow> (InvalidToken, [], []) | Some tokenEnd \<Rightarrow> (token, tokenStart, tokenEnd))"

definition parseToken :: "platform \<Rightarrow> wstr \<Rightarrow> (Token \<times> wstr \<times> wstr) cxx" where
  "parseToken P start =
    (let start = dropWhile (isSpaceOrNewline P) start in
     case start of
       [] \<Rightarrow> Val (InvalidToken, [], [])
     | c # rest \<Rightarrow>
         if c = uc CHR ''n'' then Val (token_if NullToken start (parseConstToken start (lit ''null'')))
         else if c = uc CHR ''t'' then Val (token_if BoolTrue start (parseConstToken start (lit ''true'')))
         else if c = uc CHR ''f'' then Val (token_if BoolFalse start (parseConstToken start (lit ''false'')))
         else if c = uc CHR ''['' then Val (ArrayBegin, start, rest)
         else if c = uc CHR '']'' then Val (ArrayEnd, start, rest)
         else if c = uc CHR '','' then Val (ListSeparator, start, rest)
         else if c = uc CHR ''{'' then Val (ObjectBegin, start, rest)
         else if c = uc CHR ''}'' then Val (ObjectEnd, start, rest)
         else if c = uc CHR '':'' then Val (ObjectPairSeparator, start, rest)
         else if isASCIIDigit c \<or> c = uc CHR ''-'' then Val (token_if Number start (parseNumberToken start))
         else if c = uc CHR 0x22 then
           bind_cxx (parseStringToken rest) (\<lambda>r. Val (token_if StringLiteral start r))
         else Val (InvalidToken, [], []))"

section \<open>Strings\<close>

definition hexToInt :: "uchar \<Rightarrow> nat" where
  "hexToInt c =
    (if uc CHR ''0'' \<le> c \<and> c \<le> uc CHR ''9'' then unat c - 48
     else if uc CHR ''A'' \<le> c \<and> c \<le> uc CHR ''F'' then unat c - 65 + 10
     else if uc CHR ''a'' \<le> c \<and> c \<le> uc CHR ''f'' then unat c - 97 + 10
     else 0)"

definition decodeEscape :: "uchar \<Rightarrow> uchar option" where
  "decodeEscape c =
    (if c = uc CHR 0x22 \<or> c = uc CHR ''/'' \<or> c = uc CHR 0x5C then Some c
     else if c = uc CHR ''b'' then Some 8
     else if c = uc CHR ''f'' then Some 12
     else if c = uc CHR ''n'' then Some 10
     else if c = uc CHR ''r'' then Some 13
     else if c = uc CHR ''t'' then Some 9
     else if c = uc CHR ''v'' then Some 11
     else None)"

definition decode_hex :: "wstr \<Rightarrow> uchar" where
  "decode_hex ds = word_of_nat (foldl (\<lambda>v d. v * 16 + hexToInt d) 0 ds)"

text \<open>The \<open>append\<close> of a character to the buffer is the \<open>Cons\<close> of it to what the rest decodes to.\<close>

definition append_decoded :: "uchar \<Rightarrow> wstr option cxx \<Rightarrow> wstr option cxx" where
  "append_decoded c m = bind_cxx m (\<lambda>r. Val (map_option (\<lambda>s. c # s) r))"

function decodeString_buffer :: "wstr \<Rightarrow> wstr option cxx" where
  "decodeString_buffer start =
    (case start of
       [] \<Rightarrow> Val (Some [])
     | c # start \<Rightarrow>
         if c \<noteq> uc CHR 0x5C then append_decoded c (decodeString_buffer start)
         else (case start of
              [] \<Rightarrow> UB
            | c # start \<Rightarrow>
                if c = uc CHR ''x'' then
                  (if length start < 2 then UB
                   else append_decoded (decode_hex (take 2 start)) (decodeString_buffer (drop 2 start)))
                else if c = uc CHR ''u'' then
                  (if length start < 4 then UB
                   else append_decoded (decode_hex (take 4 start)) (decodeString_buffer (drop 4 start)))
                else (case decodeEscape c of
                    None \<Rightarrow> Val None
                  | Some c \<Rightarrow> append_decoded c (decodeString_buffer start))))"
  by pat_completeness auto
termination by (relation "measure length") auto

declare decodeString_buffer.simps [simp del]

definition decodeString :: "wstr \<Rightarrow> wstr option cxx" where
  "decodeString s = (if s = [] then Val (Some []) else decodeString_buffer s)"

text \<open>The characters from one pointer to another, and those of a string literal between its quotes.\<close>

definition token_text :: "wstr \<Rightarrow> wstr \<Rightarrow> wstr" where
  "token_text tokenStart tokenEnd = take (length tokenStart - length tokenEnd) tokenStart"

definition literal_text :: "wstr \<Rightarrow> wstr \<Rightarrow> wstr" where
  "literal_text tokenStart tokenEnd = butlast (tl (token_text tokenStart tokenEnd))"

section \<open>Values\<close>

function (sequential)
    buildValue :: "platform \<Rightarrow> wstr \<Rightarrow> nat \<Rightarrow> (json \<times> wstr) option cxx"
and buildArray :: "platform \<Rightarrow> Token \<Rightarrow> wstr \<Rightarrow> wstr \<Rightarrow> json list \<Rightarrow> nat \<Rightarrow> (json \<times> wstr) option cxx"
and buildObject :: "platform \<Rightarrow> Token \<Rightarrow> wstr \<Rightarrow> wstr \<Rightarrow> json_object \<Rightarrow> nat \<Rightarrow> (json \<times> wstr) option cxx"
where
  "buildValue P start depth =
    (if depth > stackLimit then Val None
     else bind_cxx (parseToken P start) (\<lambda>(token, tokenStart, tokenEnd).
       case token of
         InvalidToken \<Rightarrow> Val None
       | NullToken \<Rightarrow> Val (Some (JSONNull, tokenEnd))
       | BoolTrue \<Rightarrow> Val (Some (JSONBoolean True, tokenEnd))
       | BoolFalse \<Rightarrow> Val (Some (JSONBoolean False, tokenEnd))
       | Number \<Rightarrow>
           Val (case charactersToDouble P (token_text tokenStart tokenEnd) of
                  None \<Rightarrow> None
                | Some d \<Rightarrow> Some (JSONNumber d, tokenEnd))
       | StringLiteral \<Rightarrow>
           bind_cxx (decodeString (literal_text tokenStart tokenEnd)) (\<lambda>r.
             Val (case r of None \<Rightarrow> None | Some s \<Rightarrow> Some (JSONString s, tokenEnd)))
       | ArrayBegin \<Rightarrow>
           bind_cxx (parseToken P tokenEnd) (\<lambda>(token', tokenStart', tokenEnd').
             buildArray P token' tokenEnd tokenEnd' [] depth)
       | ObjectBegin \<Rightarrow>
           bind_cxx (parseToken P tokenEnd) (\<lambda>(token', tokenStart', tokenEnd').
             buildObject P token' tokenStart' tokenEnd' emptyObject depth)
       | _ \<Rightarrow> Val None))"
| "buildArray P token start tokenEnd array depth =
    (if token = ArrayEnd then Val (Some (JSONArray array, tokenEnd))
     else bind_cxx (buildValue P start (Suc depth)) (\<lambda>r.
       case r of
         None \<Rightarrow> Val None
       | Some (arrayNode, start) \<Rightarrow>
           bind_cxx (parseToken P start) (\<lambda>(token, tokenStart, tokenEnd).
             if token = ListSeparator then
               bind_cxx (parseToken P tokenEnd) (\<lambda>(token', tokenStart', tokenEnd').
                 if token' = ArrayEnd then Val None
                 else buildArray P token' tokenEnd tokenEnd' (pushValue arrayNode array) depth)
             else if token \<noteq> ArrayEnd then Val None
             else buildArray P token start tokenEnd (pushValue arrayNode array) depth)))"
| "buildObject P token tokenStart tokenEnd object depth =
    (if token = ObjectEnd then Val (Some (JSONObject object, tokenEnd))
     else if token \<noteq> StringLiteral then Val None
     else bind_cxx (decodeString (literal_text tokenStart tokenEnd)) (\<lambda>r.
       case r of
         None \<Rightarrow> Val None
       | Some key \<Rightarrow>
           bind_cxx (parseToken P tokenEnd) (\<lambda>(token, tokenStart, tokenEnd).
             if token \<noteq> ObjectPairSeparator then Val None
             else bind_cxx (buildValue P tokenEnd (Suc depth)) (\<lambda>r.
               case r of
                 None \<Rightarrow> Val None
               | Some (val, start) \<Rightarrow>
                   bind_cxx (parseToken P start) (\<lambda>(token, tokenStart, tokenEnd).
                     if token = ListSeparator then
                       bind_cxx (parseToken P tokenEnd) (\<lambda>(token', tokenStart', tokenEnd').
                         if token' = ObjectEnd then Val None
                         else buildObject P token' tokenStart' tokenEnd' (setValue key val object) depth)
                     else if token \<noteq> ObjectEnd then Val None
                     else buildObject P token tokenStart tokenEnd (setValue key val object) depth)))))"
  by pat_completeness auto

lemma parseConstToken_length: "parseConstToken s t = Some r \<Longrightarrow> length r \<le> length s \<and> (t \<noteq> [] \<longrightarrow> length r < length s)"
  by (induction s t rule: parseConstToken.induct) (auto split: if_splits)

lemma readInt_length: "readInt s z = Some r \<Longrightarrow> length r < length s"
  by (cases s) (auto simp: readInt_def Let_def split: if_splits)

lemma parseExponent_length: "parseExponent s = Some r \<Longrightarrow> length r \<le> length s"
  by (auto simp: parseExponent_def dest!: readInt_length split: list.splits if_splits)

lemma parseNumberToken_length: "parseNumberToken s = Some r \<Longrightarrow> length r < length s"
  by (auto simp: parseNumberToken_def dest!: readInt_length parseExponent_length
      split: list.splits if_splits option.splits)

lemma parseStringToken_length: "parseStringToken s = Val (Some r) \<Longrightarrow> length r < length s"
proof (induction s rule: measure_induct_rule [where f = length])
  case (less s)
  have IH: "parseStringToken y = Val (Some r) \<Longrightarrow> length y < length s \<Longrightarrow> length r < length s" for y
    using less.IH [of y] by force
  show ?case
  proof (cases s)
    case Nil
    thus ?thesis using less.prems by (simp add: parseStringToken.simps)
  next
    case (Cons c t)
    thus ?thesis
      using less.prems IH [of t] IH [of "tl t"]
      by (auto simp: parseStringToken.simps [of "c # t"] dest!: readHexDigits_length IH
          split: list.splits if_splits option.splits)
  qed
qed

lemma token_if_cases:
  assumes "token_if tok start r = (token, tokenStart, tokenEnd)"
  obtains "r = None" "token = InvalidToken" "tokenStart = []" "tokenEnd = []"
    | "r = Some tokenEnd" "token = tok" "tokenStart = start"
  using assms by (auto simp: token_if_def split: option.splits)

text \<open>What a token that was read can be.\<close>

lemma parseToken_cases:
  assumes "parseToken P s = Val (token, tokenStart, tokenEnd)"
  obtains (invalid) "token = InvalidToken" "tokenStart = []" "tokenEnd = []"
    | (const) t where "t \<noteq> []" "tokenStart = dropWhile (isSpaceOrNewline P) s"
        "parseConstToken tokenStart t = Some tokenEnd" "token \<in> {NullToken, BoolTrue, BoolFalse}"
    | (punctuation) c where "tokenStart = dropWhile (isSpaceOrNewline P) s" "tokenStart = c # tokenEnd"
        "token \<in> {ArrayBegin, ArrayEnd, ListSeparator, ObjectBegin, ObjectEnd, ObjectPairSeparator}"
    | (number) "tokenStart = dropWhile (isSpaceOrNewline P) s" "parseNumberToken tokenStart = Some tokenEnd"
        "token = Number"
    | (string) rest where "tokenStart = dropWhile (isSpaceOrNewline P) s" "tokenStart = uc CHR 0x22 # rest"
        "parseStringToken rest = Val (Some tokenEnd)" "token = StringLiteral"
proof (cases "dropWhile (isSpaceOrNewline P) s")
  case Nil
  thus ?thesis using assms invalid unfolding parseToken_def Let_def Nil list.case by simp
next
  case (Cons c rest)
  show ?thesis
    using assms unfolding parseToken_def Cons Let_def list.case
    by (simp only: split: if_splits)
      (auto simp: bind_cxx_eq_Val Cons simp del: uc_def elim!: token_if_cases
        intro: invalid const [of "lit ''null''"] const [of "lit ''true''"] const [of "lit ''false''"]
          punctuation number string)
qed

lemma parseToken_length:
  assumes "parseToken P s = Val (token, tokenStart, tokenEnd)"
  shows "length tokenEnd \<le> length s \<and> (token \<noteq> InvalidToken \<longrightarrow> length tokenEnd < length s)"
proof -
  have ws: "length tokenStart \<le> length s" if "tokenStart = dropWhile (isSpaceOrNewline P) s"
    unfolding that by (rule length_dropWhile_le)
  from assms show ?thesis
  proof (cases rule: parseToken_cases)
    case (const t)
    thus ?thesis using ws parseConstToken_length [OF const(3)] by simp
  next
    case (punctuation c)
    have "length tokenStart = Suc (length tokenEnd)" by (simp add: punctuation(2))
    thus ?thesis using ws [OF punctuation(1)] by simp
  next
    case number
    thus ?thesis using ws parseNumberToken_length by fastforce
  next
    case (string rest)
    have "length tokenStart = Suc (length rest)" by (simp add: string(2))
    thus ?thesis using ws [OF string(1)] parseStringToken_length [OF string(3)] by simp
  qed simp
qed

section \<open>The accepted language\<close>

text \<open>
  The values the parser accepts, as a grammar over tokens: \<open>parses P s d v r\<close> says
  that the text \<open>s\<close> starts with the value \<open>v\<close>, nested \<open>d\<close> deep, and goes on with \<open>r\<close>.
  The other two relations describe what is left of an array or an object once
  the elements or members read so far are known.
\<close>

inductive parses :: "platform \<Rightarrow> wstr \<Rightarrow> nat \<Rightarrow> json \<Rightarrow> wstr \<Rightarrow> bool"
  and parses_array :: "platform \<Rightarrow> Token \<Rightarrow> wstr \<Rightarrow> wstr \<Rightarrow> json list \<Rightarrow> nat \<Rightarrow> json \<Rightarrow> wstr \<Rightarrow> bool"
  and parses_object :: "platform \<Rightarrow> Token \<Rightarrow> wstr \<Rightarrow> wstr \<Rightarrow> json_object \<Rightarrow> nat \<Rightarrow> json \<Rightarrow> wstr \<Rightarrow> bool"
  for P :: platform
where
  null: "d \<le> stackLimit \<Longrightarrow> parseToken P s = Val (NullToken, ts, r) \<Longrightarrow> parses P s d JSONNull r"
| true: "d \<le> stackLimit \<Longrightarrow> parseToken P s = Val (BoolTrue, ts, r) \<Longrightarrow> parses P s d (JSONBoolean True) r"
| false: "d \<le> stackLimit \<Longrightarrow> parseToken P s = Val (BoolFalse, ts, r) \<Longrightarrow> parses P s d (JSONBoolean False) r"
| number: "d \<le> stackLimit \<Longrightarrow> parseToken P s = Val (Number, ts, r) \<Longrightarrow>
    charactersToDouble P (token_text ts r) = Some n \<Longrightarrow> parses P s d (JSONNumber n) r"
| string: "d \<le> stackLimit \<Longrightarrow> parseToken P s = Val (StringLiteral, ts, r) \<Longrightarrow>
    decodeString (literal_text ts r) = Val (Some str) \<Longrightarrow> parses P s d (JSONString str) r"
| array: "d \<le> stackLimit \<Longrightarrow> parseToken P s = Val (ArrayBegin, ts, te) \<Longrightarrow>
    parseToken P te = Val (t, ts', te') \<Longrightarrow> parses_array P t te te' [] d v r \<Longrightarrow> parses P s d v r"
| object: "d \<le> stackLimit \<Longrightarrow> parseToken P s = Val (ObjectBegin, ts, te) \<Longrightarrow>
    parseToken P te = Val (t, ts', te') \<Longrightarrow> parses_object P t ts' te' emptyObject d v r \<Longrightarrow> parses P s d v r"
| array_end: "parses_array P ArrayEnd s r vs d (JSONArray vs) r"
| array_more: "t \<noteq> ArrayEnd \<Longrightarrow> parses P s (Suc d) w s1 \<Longrightarrow>
    parseToken P s1 = Val (ListSeparator, ts2, te2) \<Longrightarrow>
    parseToken P te2 = Val (t3, ts3, te3) \<Longrightarrow> t3 \<noteq> ArrayEnd \<Longrightarrow>
    parses_array P t3 te2 te3 (pushValue w vs) d v r \<Longrightarrow> parses_array P t s e vs d v r"
| array_last: "t \<noteq> ArrayEnd \<Longrightarrow> parses P s (Suc d) w s1 \<Longrightarrow>
    parseToken P s1 = Val (ArrayEnd, ts2, te2) \<Longrightarrow>
    parses_array P ArrayEnd s1 te2 (pushValue w vs) d v r \<Longrightarrow> parses_array P t s e vs d v r"
| object_end: "parses_object P ObjectEnd ts r ob d (JSONObject ob) r"
| object_more: "decodeString (literal_text ts te) = Val (Some key) \<Longrightarrow>
    parseToken P te = Val (ObjectPairSeparator, ts1, te1) \<Longrightarrow> parses P te1 (Suc d) w s1 \<Longrightarrow>
    parseToken P s1 = Val (ListSeparator, ts2, te2) \<Longrightarrow>
    parseToken P te2 = Val (t3, ts3, te3) \<Longrightarrow> t3 \<noteq> ObjectEnd \<Longrightarrow>
    parses_object P t3 ts3 te3 (setValue key w ob) d v r \<Longrightarrow> parses_object P StringLiteral ts te ob d v r"
| object_last: "decodeString (literal_text ts te) = Val (Some key) \<Longrightarrow>
    parseToken P te = Val (ObjectPairSeparator, ts1, te1) \<Longrightarrow> parses P te1 (Suc d) w s1 \<Longrightarrow>
    parseToken P s1 = Val (ObjectEnd, ts2, te2) \<Longrightarrow>
    parses_object P ObjectEnd ts2 te2 (setValue key w ob) d v r \<Longrightarrow> parses_object P StringLiteral ts te ob d v r"

abbreviation build_dom where "build_dom \<equiv> buildValue_buildArray_buildObject_dom"

lemma buildValue_sound_partial:
  "build_dom (Inl (P, s, d)) \<Longrightarrow> buildValue P s d = Val (Some (v, r)) \<Longrightarrow> parses P s d v r"
  "build_dom (Inr (Inl (P, t, s, e, a, d))) \<Longrightarrow>
     buildArray P t s e a d = Val (Some (v, r)) \<Longrightarrow> parses_array P t s e a d v r"
  "build_dom (Inr (Inr (P, t, s, e, ob, d))) \<Longrightarrow>
     buildObject P t s e ob d = Val (Some (v, r)) \<Longrightarrow> parses_object P t s e ob d v r"
proof (induction P s d and P t s e a d and P t s e ob d arbitrary: v r and v r and v r
    rule: buildValue_buildArray_buildObject.pinduct)
  case (1 P start depth)
  from "1.prems" obtain token ts te where
    depth: "\<not> depth > stackLimit" and tok: "parseToken P start = Val (token, ts, te)"
    by (auto simp: buildValue.psimps [OF "1.hyps"] bind_cxx_eq_Val split: if_splits)
  note body = "1.prems" [unfolded buildValue.psimps [OF "1.hyps"] tok, simplified depth if_False bind_cxx.simps prod.case]
  show ?case
  proof (cases token)
    case ArrayBegin
    with body depth tok show ?thesis by (auto simp: bind_cxx_eq_Val intro!: array "1.IH"(2))
  next
    case ObjectBegin
    with body depth tok show ?thesis by (auto simp: bind_cxx_eq_Val intro!: object "1.IH"(1))
  qed (use body depth tok in \<open>auto simp: bind_cxx_eq_Val not_less split: option.splits
        intro: parses_parses_array_parses_object.intros(1-5)\<close>)
next
  case (2 P token start tokenEnd array depth)
  show ?case
    using "2.prems" unfolding buildArray.psimps [OF "2.hyps"]
    by (auto simp: bind_cxx_eq_Val split: if_splits option.splits
        intro: array_end array_more array_last "2.IH")
next
  case (3 P token tokenStart tokenEnd object depth)
  show ?case
    using "3.prems" unfolding buildObject.psimps [OF "3.hyps"]
    by (auto simp: bind_cxx_eq_Val split: if_splits option.splits
        intro: object_end object_more object_last "3.IH")
qed


lemma parses_length:
  "parses P s d v r \<Longrightarrow> length r < length s"
  "parses_array P t s e vs d v r \<Longrightarrow> length e \<le> length s \<Longrightarrow> length r \<le> length s"
  "parses_object P t s e ob d v r \<Longrightarrow> length r \<le> length e"
  by (induction rule: parses_parses_array_parses_object.inducts)
    (auto dest!: parseToken_length)

lemma build_total: "All build_dom"
proof (relation "measure (\<lambda>x. case x of Inl (P, s, d) \<Rightarrow> 2 * length s
      | Inr (Inl (P, t, s, e, a, d)) \<Rightarrow> Suc (2 * length s)
      | Inr (Inr (P, t, s, e, ob, d)) \<Rightarrow> Suc (2 * length e))", goal_cases)
qed (auto dest!: parseToken_length buildValue_sound_partial(1) parses_length(1))

termination buildValue
  by (rule build_total)

lemma buildValue_sound: "buildValue P s d = Val (Some (v, r)) \<Longrightarrow> parses P s d v r"
  using buildValue_sound_partial(1) build_total by blast

lemma buildValue_complete:
  "parses P s d v r \<Longrightarrow> buildValue P s d = Val (Some (v, r))"
  "parses_array P t s e vs d v r \<Longrightarrow> buildArray P t s e vs d = Val (Some (v, r))"
  "parses_object P t s e ob d v r \<Longrightarrow> buildObject P t s e ob d = Val (Some (v, r))"
  by (induction rule: parses_parses_array_parses_object.inducts) auto

declare buildValue.simps [simp del] buildArray.simps [simp del] buildObject.simps [simp del]

lemma buildValue_iff: "buildValue P s d = Val (Some (v, r)) \<longleftrightarrow> parses P s d v r"
  using buildValue_sound buildValue_complete(1) by blast

definition parseJSONInternal :: "platform \<Rightarrow> wstr \<Rightarrow> json option cxx" where
  "parseJSONInternal P start =
    bind_cxx (buildValue P start 0) (\<lambda>r.
      Val (case r of
             None \<Rightarrow> None
           | Some (v, tokenEnd) \<Rightarrow> if tokenEnd \<noteq> [] then None else Some v))"

definition parseJSON :: "platform \<Rightarrow> wstr \<Rightarrow> json option cxx" where
  "parseJSON P json = (if json = [] then Val None else parseJSONInternal P json)"

lemma parseJSON_iff: "parseJSON P s = Val (Some v) \<longleftrightarrow> parses P s 0 v []"
proof
  assume "parseJSON P s = Val (Some v)"
  thus "parses P s 0 v []"
    by (auto simp: parseJSON_def parseJSONInternal_def bind_cxx_eq_Val buildValue_iff
        split: if_splits option.splits)
next
  assume parse: "parses P s 0 v []"
  moreover from parses_length(1) [OF this] have "s \<noteq> []" by auto
  ultimately show "parseJSON P s = Val (Some v)"
    by (simp add: parseJSON_def parseJSONInternal_def flip: buildValue_iff)
qed

section \<open>What the parser returns\<close>

lemma parses_ok:
  "parses P s d v r \<Longrightarrow> json_ok v"
  "parses_array P t s e vs d v r \<Longrightarrow> list_all json_ok vs \<Longrightarrow> json_ok v"
  "parses_object P t s e ob d v r \<Longrightarrow> object_ok ob \<Longrightarrow> json_ok v"
  by (induction rule: parses_parses_array_parses_object.inducts) (auto simp: pushValue_def)

text \<open>The nesting depth of a value: a value without elements or members has depth 0.\<close>

fun json_depth :: "json \<Rightarrow> nat" and object_depth :: "json_object \<Rightarrow> nat" where
  "json_depth (JSONObject ob) = object_depth ob"
| "json_depth (JSONArray vs) = foldr max (map (\<lambda>v. Suc (json_depth v)) vs) 0"
| "json_depth _ = 0"
| "object_depth (JSONObjectBase data order) = foldr max (map (\<lambda>kv. Suc (json_depth (snd kv))) data) 0"

lemma foldr_max_le: "foldr max xs (0 :: nat) \<le> n \<longleftrightarrow> (\<forall>x \<in> set xs. x \<le> n)"
  by (induction xs) auto

lemma json_depth_le:
  "json_depth (JSONArray vs) \<le> n \<longleftrightarrow> (\<forall>v \<in> set vs. json_depth v < n)"
  "json_depth (JSONObject ob) \<le> n \<longleftrightarrow> (\<forall>kv \<in> set (m_data ob). json_depth (snd kv) < n)"
  by (cases ob, auto simp: foldr_max_le Suc_le_eq)+

lemma set_hset: "kv \<in> set (hset k v m) \<Longrightarrow> kv = (k, v) \<or> kv \<in> set m"
  unfolding hset_def by (induction m) (auto split: if_splits)

lemma setValue_depth:
  "\<forall>kv \<in> set (m_data ob). json_depth (snd kv) < n \<Longrightarrow> json_depth w < n \<Longrightarrow>
   \<forall>kv \<in> set (m_data (setValue key w ob)). json_depth (snd kv) < n"
  by (auto simp: setValue_def Let_def dest!: set_hset)

lemma parses_depth:
  "parses P s d v r \<Longrightarrow> d \<le> stackLimit \<and> json_depth v \<le> stackLimit - d"
  "parses_array P t s e vs d v r \<Longrightarrow> \<forall>w \<in> set vs. json_depth w < stackLimit - d \<Longrightarrow>
     json_depth v \<le> stackLimit - d"
  "parses_object P t s e ob d v r \<Longrightarrow> \<forall>kv \<in> set (m_data ob). json_depth (snd kv) < stackLimit - d \<Longrightarrow>
     json_depth v \<le> stackLimit - d"
proof (induction rule: parses_parses_array_parses_object.inducts)
  case (object_more ts te key ts1 te1 d w s1 ts2 te2 t3 ts3 te3 ob v r)
  hence "json_depth w < stackLimit - d" by linarith
  from setValue_depth [OF _ this, of ob key] show ?case using object_more by simp
next
  case (object_last ts te key ts1 te1 d w s1 ts2 te2 ob v r)
  hence "json_depth w < stackLimit - d" by linarith
  from setValue_depth [OF _ this, of ob key] show ?case using object_last by simp
qed (auto simp: pushValue_def emptyObject_def json_depth_le simp del: json_depth.simps(1,2))

text \<open>
  C18: whatever text the parser accepts, the value it returns is well formed
  (in every object, however deeply nested, the key order and the hash map agree
  and no key occurs twice) and nested at most a thousand levels deep.
\<close>

theorem parseJSON_result_ok:
  assumes "parseJSON P s = Val (Some v)"
  shows "json_ok v \<and> json_depth v \<le> stackLimit"
  using assms parses_ok(1) [of P s 0 v "[]"] parses_depth(1) [of P s 0 v "[]"]
  by (simp add: parseJSON_iff)

theorem parseJSON_result_ok_witness:
  "json_ok (JSONArray [JSONBoolean True]) \<and> json_depth (JSONArray [JSONBoolean True]) \<le> stackLimit"
  by (rule parseJSON_result_ok [where s = "lit ''[true]''" and
        P = "\<lparr>isWhiteSpaceNeutral = (\<lambda>_. False), charactersToDouble = (\<lambda>_. None), numberToString = (\<lambda>_. [])\<rparr>"])
    (simp add: parseJSON_def parseJSONInternal_def buildValue.simps buildArray.simps stackLimit_def parseToken_def
      isSpaceOrNewline_def isASCIISpace_def lit_simps token_if_def pushValue_def)

section \<open>Reads stay within the text\<close>

lemma suffix_dropWhile_trans: "suffix r (dropWhile p s) \<Longrightarrow> suffix r s"
  by (meson suffix_dropWhile suffix_order.trans)

lemma parseConstToken_suffix: "parseConstToken s t = Some r \<Longrightarrow> suffix r s"
  by (induction s t rule: parseConstToken.induct) (auto split: if_splits intro: suffix_ConsI)

lemma readInt_suffix: "readInt s z = Some r \<Longrightarrow> suffix r s"
  by (auto simp: readInt_def Let_def suffix_drop split: if_splits)

lemma parseExponent_suffix: "parseExponent s = Some r \<Longrightarrow> suffix r s"
  by (auto simp: parseExponent_def dest!: readInt_suffix intro: suffix_ConsI split: list.splits if_splits)

lemma parseNumberToken_suffix: "parseNumberToken s = Some r \<Longrightarrow> suffix r s"
  by (auto simp: parseNumberToken_def dest!: readInt_suffix parseExponent_suffix
      intro: suffix_ConsI suffix_order.trans split: list.splits if_splits option.splits)

lemma parseStringToken_suffix: "parseStringToken s = Val (Some r) \<Longrightarrow> suffix r s"
proof (induction s rule: measure_induct_rule [where f = length])
  case (less s)
  consider "s = []" | c where "s = [c]" | c e u where "s = c # e # u" by (metis list.exhaust)
  thus ?case
  proof cases
    case 3
    have IH: "parseStringToken y = Val (Some r) \<Longrightarrow> length y \<le> length (e # u) \<Longrightarrow> suffix r y" for y
      using less.IH [of y] by (simp add: 3)
    show ?thesis
      using less.prems unfolding 3
      by (subst (asm) parseStringToken.simps)
        (auto simp: readHexDigits_def split: if_splits option.splits dest!: IH
          intro: suffix_ConsI suffix_order.trans [OF _ suffix_drop])
  qed (use less.prems in \<open>auto simp: parseStringToken.simps split: if_splits intro: suffix_ConsI\<close>)
qed

lemma parseToken_suffix:
  assumes "parseToken P s = Val (token, tokenStart, tokenEnd)" "token \<noteq> InvalidToken"
  shows "suffix tokenEnd s"
  using assms(1)
proof (cases rule: parseToken_cases)
  case (punctuation c)
  have "suffix tokenEnd tokenStart" by (simp add: punctuation(2) suffix_ConsI)
  thus ?thesis unfolding punctuation(1) by (rule suffix_dropWhile_trans)
next
  case (string rest)
  have "suffix tokenEnd tokenStart" using parseStringToken_suffix [OF string(3)] by (simp add: string(2) suffix_ConsI)
  thus ?thesis unfolding string(1) by (rule suffix_dropWhile_trans)
qed (use assms(2) in \<open>auto intro: suffix_dropWhile_trans parseConstToken_suffix parseNumberToken_suffix\<close>)

lemma parses_suffix:
  "parses P s d v r \<Longrightarrow> suffix r s"
  "parses_array P t s e vs d v r \<Longrightarrow> (t = ArrayEnd \<longrightarrow> suffix e s) \<Longrightarrow> suffix r s"
  "parses_object P t s e ob d v r \<Longrightarrow> t \<noteq> InvalidToken \<and> suffix r e"
  by (induction rule: parses_parses_array_parses_object.inducts)
    (auto dest!: parseToken_suffix intro: suffix_order.trans)

section \<open>String literals decode\<close>

lemma string_cases:
  fixes s :: wstr
  obtains (empty) "s = []" | (cut) "s = [92]" | (quote) t where "s = 34 # t"
    | (plain) c t where "s = c # t" "c \<noteq> 92" "c \<noteq> 34"
    | (hex2) t where "s = 92 # 120 # t" | (hex4) t where "s = 92 # 117 # t"
    | (escape) e t where "s = 92 # e # t" "e \<noteq> 120" "e \<noteq> 117"
  by (metis list.exhaust)

lemma parseStringToken_eqs:
  "parseStringToken [] = Val None"
  "parseStringToken [92] = UB"
  "parseStringToken (34 # t) = Val (Some t)"
  "c \<noteq> 92 \<Longrightarrow> c \<noteq> 34 \<Longrightarrow> parseStringToken (c # t) = parseStringToken t"
  "parseStringToken (92 # 120 # t) =
    (case readHexDigits t 2 of None \<Rightarrow> Val None | Some u \<Rightarrow> parseStringToken u)"
  "parseStringToken (92 # 117 # t) =
    (case readHexDigits t 4 of None \<Rightarrow> Val None | Some u \<Rightarrow> parseStringToken u)"
  "e \<noteq> 120 \<Longrightarrow> e \<noteq> 117 \<Longrightarrow>
    parseStringToken (92 # e # t) = (if e \<in> set simple_escapes then parseStringToken t else Val None)"
  by (subst parseStringToken.simps; simp)+

lemma decodeString_buffer_eqs:
  "decodeString_buffer [] = Val (Some [])"
  "decodeString_buffer [92] = UB"
  "c \<noteq> 92 \<Longrightarrow> decodeString_buffer (c # t) = append_decoded c (decodeString_buffer t)"
  "decodeString_buffer (92 # 120 # t) = (if length t < 2 then UB
     else append_decoded (decode_hex (take 2 t)) (decodeString_buffer (drop 2 t)))"
  "decodeString_buffer (92 # 117 # t) = (if length t < 4 then UB
     else append_decoded (decode_hex (take 4 t)) (decodeString_buffer (drop 4 t)))"
  "e \<noteq> 120 \<Longrightarrow> e \<noteq> 117 \<Longrightarrow> decodeString_buffer (92 # e # t) = (case decodeEscape e of
     None \<Rightarrow> Val None | Some c \<Rightarrow> append_decoded c (decodeString_buffer t))"
  by (subst decodeString_buffer.simps; simp)+

lemma append_decoded_Some [simp]: "append_decoded c (Val (Some s)) = Val (Some (c # s))"
  by (simp add: append_decoded_def)

lemma decodeEscape_simple: "c \<in> set simple_escapes \<Longrightarrow> \<exists>c'. decodeEscape c = Some c'"
  by (auto simp: simple_escapes_def lit_simps decodeEscape_def)

text \<open>A string literal the tokenizer accepts decodes, without a failure and without a read beyond its end.\<close>

lemma parseStringToken_decodes:
  "parseStringToken s = Val (Some r) \<Longrightarrow>
   \<exists>body str. s = body @ 34 # r \<and> decodeString_buffer body = Val (Some str)"
proof (induction s rule: measure_induct_rule [where f = length])
  case (less s)
  have hex: "\<exists>body str. t = body @ 34 # r \<and> n \<le> length body \<and> decodeString_buffer (drop n body) = Val (Some str)"
    if "length t < length s" "readHexDigits t n = Some u" "parseStringToken u = Val (Some r)" for n t u
  proof -
    note h = that
    from h(2) have u: "t = take n t @ u" "length (take n t) = n" "length u \<le> length t"
      by (auto simp: readHexDigits_def split: if_splits)
    moreover have "length u < length s" using u(3) h(1) by simp
    ultimately obtain body str where "u = body @ 34 # r" "decodeString_buffer body = Val (Some str)"
      using less.IH [of u] h(3) by blast
    thus ?thesis using u by (intro exI [of _ "take n t @ body"] exI [of _ str]) (auto simp flip: u(1))
  qed
  show ?case
  proof (cases s rule: string_cases)
    case (plain c t)
    then obtain body str where "t = body @ 34 # r" "decodeString_buffer body = Val (Some str)"
      using less.IH [of t] less.prems by (auto simp: parseStringToken_eqs)
    thus ?thesis using plain by (intro exI [of _ "c # body"] exI [of _ "c # str"]) (simp add: decodeString_buffer_eqs)
  next
    case (hex2 t)
    then obtain body str where "t = body @ 34 # r" "2 \<le> length body" "decodeString_buffer (drop 2 body) = Val (Some str)"
      using less.prems hex [of t 2] by (auto simp: parseStringToken_eqs readHexDigits_def split: option.splits if_splits)
    thus ?thesis using hex2
      by (intro exI [of _ "92 # 120 # body"] exI) (auto simp: decodeString_buffer_eqs not_less)
  next
    case (hex4 t)
    then obtain body str where "t = body @ 34 # r" "4 \<le> length body" "decodeString_buffer (drop 4 body) = Val (Some str)"
      using less.prems hex [of t 4] by (auto simp: parseStringToken_eqs readHexDigits_def split: option.splits if_splits)
    thus ?thesis using hex4
      by (intro exI [of _ "92 # 117 # body"] exI) (auto simp: decodeString_buffer_eqs not_less)
  next
    case (escape e t)
    hence simple: "e \<in> set simple_escapes" and t: "parseStringToken t = Val (Some r)"
      using less.prems by (auto simp: parseStringToken_eqs split: if_splits)
    obtain c where "decodeEscape e = Some c" using decodeEscape_simple [OF simple] ..
    moreover obtain body str where "t = body @ 34 # r" "decodeString_buffer body = Val (Some str)"
      using less.IH [OF _ t] escape by auto
    ultimately show ?thesis using escape
      by (intro exI [of _ "92 # e # body"] exI [of _ "c # str"]) (simp add: decodeString_buffer_eqs)
  next
    case (quote t)
    thus ?thesis using less.prems
      by (intro exI [of _ "[]"] exI [of _ "[]"]) (simp add: parseStringToken_eqs decodeString_buffer_eqs)
  qed (use less.prems in \<open>simp_all add: parseStringToken_eqs\<close>)
qed

lemma parseToken_literal:
  assumes "parseToken P s = Val (StringLiteral, ts, te)"
  shows "\<exists>str. decodeString (literal_text ts te) = Val (Some str)"
  using assms
proof (cases rule: parseToken_cases)
  case (string rest)
  then obtain body str where rest: "rest = body @ 34 # te" "decodeString_buffer body = Val (Some str)"
    using parseStringToken_decodes by blast
  have "literal_text ts te = body"
    by (simp add: literal_text_def token_text_def string(2) rest(1))
  thus ?thesis using rest(2) by (auto simp: decodeString_def)
qed auto

lemma parseStringToken_UB: "parseStringToken s = UB \<Longrightarrow> suffix [92] s"
proof (induction s rule: measure_induct_rule [where f = length])
  case (less s)
  show ?case
  proof (cases s rule: string_cases)
    case (hex2 t)
    hence "suffix [92] (drop 2 t)" using less
      by (auto simp: parseStringToken_eqs readHexDigits_def split: option.splits if_splits)
    thus ?thesis unfolding hex2 by (intro suffix_ConsI) (rule suffix_order.trans [OF _ suffix_drop])
  next
    case (hex4 t)
    hence "suffix [92] (drop 4 t)" using less
      by (auto simp: parseStringToken_eqs readHexDigits_def split: option.splits if_splits)
    thus ?thesis unfolding hex4 by (intro suffix_ConsI) (rule suffix_order.trans [OF _ suffix_drop])
  qed (use less in \<open>auto simp: parseStringToken_eqs split: if_splits intro!: suffix_ConsI\<close>)
qed

lemma parseToken_UB: "parseToken P s = UB \<Longrightarrow> suffix [92] s"
proof -
  assume UB: "parseToken P s = UB"
  obtain c rest where s: "dropWhile (isSpaceOrNewline P) s = c # rest"
    using UB by (cases "dropWhile (isSpaceOrNewline P) s") (simp_all only: parseToken_def Let_def list.case, simp)
  have "parseStringToken rest = UB"
    using UB unfolding parseToken_def s Let_def list.case
    by (simp only: split: if_splits) (auto simp: bind_cxx_eq_UB)
  from parseStringToken_UB [OF this] have "suffix [92] (dropWhile (isSpaceOrNewline P) s)"
    unfolding s by (rule suffix_ConsI)
  thus ?thesis by (rule suffix_dropWhile_trans)
qed

lemma buildValue_suffix: "buildValue P s d = Val (Some (v, r)) \<Longrightarrow> suffix r s"
  using parses_suffix(1) by (simp add: buildValue_iff)

text \<open>A text that does not end in a backslash is safe, and so is every suffix of it.\<close>

definition safe :: "wstr \<Rightarrow> bool" where
  "safe s \<longleftrightarrow> \<not> suffix [92] s"

lemma safe_suffix: "suffix r s \<Longrightarrow> safe s \<Longrightarrow> safe r"
  using suffix_order.trans by (auto simp: safe_def)

lemma safe_token_defined: "safe s \<Longrightarrow> defined (parseToken P s)"
  using parseToken_UB by (auto simp: defined_def safe_def)

lemma safe_token: "parseToken P s = Val (t, ts, te) \<Longrightarrow> safe s \<Longrightarrow> safe te"
proof (cases "t = InvalidToken")
  case True
  moreover assume "parseToken P s = Val (t, ts, te)"
  ultimately have "te = []" by (auto elim!: parseToken_cases)
  thus ?thesis by (simp add: safe_def)
qed (metis parseToken_suffix safe_suffix)

lemma safe_value: "buildValue P s d = Val (Some (v, r)) \<Longrightarrow> safe s \<Longrightarrow> safe r"
  using buildValue_suffix safe_suffix by blast

definition literal_ok :: "Token \<Rightarrow> wstr \<Rightarrow> wstr \<Rightarrow> bool" where
  "literal_ok t ts te \<longleftrightarrow> (t = StringLiteral \<longrightarrow> (\<exists>str. decodeString (literal_text ts te) = Val (Some str)))"

lemma literal_ok_token: "parseToken P s = Val (t, ts, te) \<Longrightarrow> literal_ok t ts te"
  using parseToken_literal by (auto simp: literal_ok_def)

lemma literal_ok_defined: "literal_ok StringLiteral ts te \<Longrightarrow> defined (decodeString (literal_text ts te))"
  by (auto simp: literal_ok_def)

lemma build_end [simp]:
  "buildArray P ArrayEnd s e a d = Val (Some (JSONArray a, e))"
  "buildObject P ObjectEnd ts e ob d = Val (Some (JSONObject ob, e))"
  by (simp_all add: buildArray.simps buildObject.simps)

lemmas safe_intros = defined_bind safe_token_defined literal_ok_defined

lemma build_defined:
  "safe s \<Longrightarrow> defined (buildValue P s d)"
  "safe s \<Longrightarrow> defined (buildArray P t s e a d)"
  "literal_ok t ts e \<Longrightarrow> safe e \<Longrightarrow> defined (buildObject P t ts e ob d)"
proof (induction P s d and P t s e a d and P t ts e ob d rule: buildValue_buildArray_buildObject.induct)
  case (1 P s d)
  show ?case
  proof (cases "stackLimit < d")
    case False
    note object = "1.IH"(1) [OF False _ refl refl refl _ refl refl]
      and array = "1.IH"(2) [OF False _ refl refl refl _ refl refl]
    show ?thesis
      unfolding buildValue.simps [of P s d]
      using "1.prems"
      by (auto intro!: safe_intros split: Token.split option.split)
        (blast intro: array object safe_token literal_ok_token)+
  qed (simp add: buildValue.simps)
next
  case (2 P t s e a d)
  show ?case
  proof (cases "t = ArrayEnd")
    case False
    note more = "2.IH"(2) [OF False _ refl refl _ refl refl _ _ refl refl]
    show ?thesis
      unfolding buildArray.simps [of P t s e a d]
      using "2.prems" False
      by (auto intro!: safe_intros "2.IH"(1) split: option.split)
        (blast intro: more safe_token safe_value)+
  qed (simp add: buildArray.simps)
next
  case (3 P t ts e ob d)
  show ?case
  proof (cases "t = StringLiteral")
    case True
    hence t: "\<not> t = ObjectEnd" "\<not> t \<noteq> StringLiteral" by simp_all
    note val = "3.IH"(1) [OF t _ refl _ refl refl, simplified not_not]
      and more = "3.IH"(2) [OF t _ refl _ refl refl _ _ refl refl _ refl refl _ _ refl refl, simplified not_not]
    show ?thesis
      unfolding buildObject.simps [of P t ts e ob d]
      using "3.prems" True
      by (auto intro!: safe_intros split: option.split)
        (metis val more safe_value safe_token literal_ok_token)+
  qed (simp add: buildObject.simps)
qed

text \<open>
  C17: the parser never reads at or beyond the end of a text that does not end
  in a backslash, whatever else the text contains; in particular the strings it
  decodes are always complete.
\<close>

theorem parseJSON_in_bounds:
  assumes "s = [] \<or> last s \<noteq> uc CHR 0x5C"
  shows "defined (parseJSON P s)"
proof -
  have "safe s" using assms by (auto simp: safe_def suffix_def)
  thus ?thesis by (auto simp: parseJSON_def parseJSONInternal_def intro!: defined_bind build_defined(1))
qed

theorem parseJSON_in_bounds_witness:
  "defined (parseJSON
      \<lparr>isWhiteSpaceNeutral = (\<lambda>_. False), charactersToDouble = (\<lambda>_. None), numberToString = (\<lambda>_. [])\<rparr>
      (lit ''[1,''))"
  by (rule parseJSON_in_bounds) (simp add: lit_simps)

text \<open>
  An unterminated string that ends in a backslash makes the parser read
  the character after the end of the text.
\<close>

theorem parseJSON_out_of_bounds: "parseJSON P [uc CHR 0x22, uc CHR 0x5C] = UB"
proof -
  have "parseToken P [34, 92] = UB"
    by (simp add: parseToken_def isSpaceOrNewline_def isASCIISpace_def isASCIIDigit_def parseStringToken_eqs)
  thus ?thesis by (simp add: parseJSON_def parseJSONInternal_def buildValue.simps stackLimit_def)
qed

text \<open>
  The last letter of a constant is not compared: null, true and false may
  end in any character whatever.
\<close>

theorem parseJSON_const_last_letter:
  "parseJSON P (lit ''nul'' @ [c]) = Val (Some JSONNull) \<and>
   parseJSON P (lit ''tru'' @ [c]) = Val (Some (JSONBoolean True)) \<and>
   parseJSON P (lit ''fals'' @ [c]) = Val (Some (JSONBoolean False))"
  by (simp add: parseJSON_def parseJSONInternal_def buildValue.simps stackLimit_def parseToken_def
      isSpaceOrNewline_def isASCIISpace_def lit_simps token_if_def)

end
