(* ===== verification/JSON_Roundtrip.thy ===== *)
theory JSON_Roundtrip
  imports JSON_Parser
begin

text \<open>
  The writer of \<^verbatim>\<open>JSONValues.cpp\<close> and the parser of \<^verbatim>\<open>JSONParser.cpp\<close> together: what is
  printed is read back.  The lemmas go along the printed text, with an
  arbitrary continuation: strings, numbers, and then values of any nesting.
\<close>

section \<open>Printed strings are read back\<close>

text \<open>What may follow a value inside a printed text.\<close>

definition delimiter :: "wstr \<Rightarrow> bool" where
  "delimiter rest \<longleftrightarrow> rest = [] \<or> hd rest = uc CHR '','' \<or> hd rest = uc CHR '']'' \<or> hd rest = uc CHR ''}''"

lemma delimiter_cases:
  assumes "delimiter rest"
  obtains "rest = []" | r where "rest = 44 # r" | r where "rest = 93 # r" | r where "rest = 125 # r"
  using assms by (cases rest) (auto simp: delimiter_def)

lemma upper_hex_digit_read:
  assumes "n < 16"
  shows "isHexDigit (upper_hex_digit n)" "hexToInt (upper_hex_digit n) = n"
  by (rule list_all_below [OF _ assms], simp add: upt_rec upper_hex_digit_def isHexDigit_def hexToInt_def)+

lemma hex_digits_value:
  fixes n :: nat
  assumes "n < 16 ^ 4"
  shows "((n div 16 ^ 3 mod 16 * 16 + n div 16 ^ 2 mod 16) * 16 + n div 16 mod 16) * 16 + n mod 16 = n"
proof -
  have "n div 16 ^ 3 < 16" using assms by (simp add: less_mult_imp_div_less)
  moreover have "n div 16 ^ 3 = n div 16 div 16 div 16" "n div 16 ^ 2 = n div 16 div 16"
    by (simp_all add: div_mult2_eq [symmetric])
  ultimately show ?thesis by (metis add.commute div_mult_mod_eq mod_less)
qed

lemma format_u04X_read:
  "parseStringToken (format_u04X c @ t) = parseStringToken t"
  "decodeString_buffer (format_u04X c @ t) = append_decoded c (decodeString_buffer t)"
proof -
  let ?hs = "[upper_hex_digit (unat c div 16 ^ 3 mod 16), upper_hex_digit (unat c div 16 ^ 2 mod 16),
     upper_hex_digit (unat c div 16 mod 16), upper_hex_digit (unat c mod 16)]"
  have form: "format_u04X c @ t = 92 # 117 # ?hs @ t" by (simp add: format_u04X_def lit_simps)
  have "readHexDigits (?hs @ t) 4 = Some t"
    by (simp add: readHexDigits_def upper_hex_digit_read)
  thus "parseStringToken (format_u04X c @ t) = parseStringToken t"
    unfolding form by (simp add: parseStringToken_eqs)
  have "unat c < 16 ^ 4" using unsigned_less [of c] by simp
  hence "decode_hex ?hs = c"
    using hex_digits_value [of "unat c"]
    by (simp only: decode_hex_def foldl.simps upper_hex_digit_read(2) mod_less_divisor zero_less_numeral mult_0 add_0) simp
  moreover have "decodeString_buffer (92 # 117 # ?hs @ t) = append_decoded (decode_hex ?hs) (decodeString_buffer t)"
    by (simp add: decodeString_buffer_eqs)
  ultimately show "decodeString_buffer (format_u04X c @ t) = append_decoded c (decodeString_buffer t)"
    unfolding form by simp
qed

lemma quoteChar_read:
  "parseStringToken (quoteChar c @ t) = parseStringToken t"
  "decodeString_buffer (quoteChar c @ t) = append_decoded c (decodeString_buffer t)"
proof -
  consider (hex) "quoteChar c = format_u04X c" | (plain) "quoteChar c = [c]" "c \<noteq> 92" "c \<noteq> 34"
    | (escape) e where "quoteChar c = [92, e]" "e \<in> set simple_escapes" "e \<noteq> 120" "e \<noteq> 117" "decodeEscape e = Some c"
  proof (cases "escapeChar c")
    case None
    thus thesis using hex plain
      by (cases "c < 32 \<or> c > 126 \<or> c = 60 \<or> c = 62")
        (auto simp: quoteChar_def escapeChar_def split: if_splits)
  next
    case (Some q)
    then obtain e where "q = [92, e]" "e \<in> set simple_escapes" "e \<noteq> 120" "e \<noteq> 117" "decodeEscape e = Some c"
      by (auto simp: escapeChar_def lit_simps simple_escapes_def decodeEscape_def split: if_splits)
    thus thesis using escape Some by (simp add: quoteChar_def)
  qed
  hence "parseStringToken (quoteChar c @ t) = parseStringToken t \<and>
      decodeString_buffer (quoteChar c @ t) = append_decoded c (decodeString_buffer t)"
    by cases (simp_all add: format_u04X_read parseStringToken_eqs decodeString_buffer_eqs)
  thus "parseStringToken (quoteChar c @ t) = parseStringToken t"
    and "decodeString_buffer (quoteChar c @ t) = append_decoded c (decodeString_buffer t)" by simp_all
qed

lemma quoted_read:
  "parseStringToken (concat (map quoteChar str) @ 34 # rest) = Val (Some rest)"
  "decodeString_buffer (concat (map quoteChar str)) = Val (Some str)"
  by (induction str) (simp_all add: parseStringToken_eqs decodeString_buffer_eqs quoteChar_read)

lemma parseToken_string:
  "parseToken P (doubleQuoteString str @ rest) = Val (StringLiteral, doubleQuoteString str @ rest, rest)"
  "decodeString (literal_text (doubleQuoteString str @ rest) rest) = Val (Some str)"
proof -
  show "parseToken P (doubleQuoteString str @ rest) = Val (StringLiteral, doubleQuoteString str @ rest, rest)"
    by (simp add: parseToken_def doubleQuoteString_def isSpaceOrNewline_def isASCIISpace_def isASCIIDigit_def
        quoted_read token_if_def)
  have "literal_text (doubleQuoteString str @ rest) rest = concat (map quoteChar str)"
    by (simp add: literal_text_def token_text_def doubleQuoteString_def)
  thus "decodeString (literal_text (doubleQuoteString str @ rest) rest) = Val (Some str)"
    by (metis decodeString_def decodeString_buffer_eqs(1) quoted_read(2))
qed

section \<open>Printed numbers are read as one token\<close>

definition digits :: "wstr \<Rightarrow> bool" where
  "digits ds \<longleftrightarrow> ds \<noteq> [] \<and> list_all isASCIIDigit ds"

definition not_digit_start :: "wstr \<Rightarrow> bool" where
  "not_digit_start rest \<longleftrightarrow> rest = [] \<or> \<not> isASCIIDigit (hd rest)"

lemma takeWhile_digits: "digits ds \<Longrightarrow> not_digit_start rest \<Longrightarrow> takeWhile isASCIIDigit (ds @ rest) = ds"
  by (cases rest) (auto simp: digits_def not_digit_start_def list_all_iff takeWhile_append takeWhile_eq_all_conv)

lemma readInt_digits:
  assumes "digits ds" "not_digit_start rest" "zeros \<or> length ds = 1 \<or> hd ds \<noteq> uc CHR ''0''"
  shows "readInt (ds @ rest) zeros = Some rest"
proof -
  have "ds \<noteq> []" using assms(1) by (simp add: digits_def)
  thus ?thesis
    unfolding readInt_def Let_def takeWhile_digits [OF assms(1,2)] using assms(3) by auto
qed

lemma not_digit_start_simps [simp]:
  "not_digit_start []" "not_digit_start (46 # s)" "not_digit_start (101 # s)"
  "delimiter rest \<Longrightarrow> not_digit_start rest"
  by (auto simp: not_digit_start_def isASCIIDigit_def elim!: delimiter_cases)

lemma parseExponent_delimiter: "delimiter rest \<Longrightarrow> parseExponent rest = Some rest"
  by (auto simp: parseExponent_def elim!: delimiter_cases)

lemma parseExponent_signed:
  assumes "digits ds" "delimiter rest" "c = 43 \<or> c = 45"
  shows "parseExponent (101 # c # ds @ rest) = Some rest"
  using assms readInt_digits [of ds rest True] by (auto simp: parseExponent_def digits_def)

text \<open>The fraction and exponent parts that may follow the leading digits.\<close>

definition tail_ok :: "wstr \<Rightarrow> bool" where
  "tail_ok t \<longleftrightarrow> (\<forall>rest. delimiter rest \<longrightarrow> parseExponent (t @ rest) = Some rest \<and> not_digit_start (t @ rest) \<and>
     (t @ rest = [] \<or> hd (t @ rest) \<noteq> 46))"

lemma tail_ok_Nil: "tail_ok []"
  by (auto simp: tail_ok_def parseExponent_delimiter elim!: delimiter_cases)

lemma tail_ok_exponent: "digits ds \<Longrightarrow> c = 43 \<or> c = 45 \<Longrightarrow> tail_ok (101 # c # ds)"
  by (auto simp: tail_ok_def parseExponent_signed)

definition json_number :: "wstr \<Rightarrow> bool" where
  "json_number s \<longleftrightarrow> (\<forall>rest. delimiter rest \<longrightarrow> parseNumberToken (s @ rest) = Some rest) \<and>
     s \<noteq> [] \<and> (isASCIIDigit (hd s) \<or> hd s = 45)"

definition leading :: "wstr \<Rightarrow> bool" where
  "leading ds \<longleftrightarrow> digits ds \<and> (length ds = 1 \<or> hd ds \<noteq> uc CHR ''0'')"

lemma digits_not_minus: "digits ds \<Longrightarrow> hd ds \<noteq> 45"
  by (cases ds) (auto simp: digits_def isASCIIDigit_def word_le_nat_alt)

lemma parseNumberToken_body:
  assumes ds: "leading ds" and t: "tail_ok t" and fs: "fs = [] \<or> digits fs"
    and rest: "delimiter rest"
  shows "parseNumberToken ((if neg then [45] else []) @ ds @ (if fs = [] then [] else 46 # fs) @ t @ rest) = Some rest"
proof -
  let ?r = "(if fs = [] then [] else 46 # fs) @ t @ rest"
  have tail: "parseExponent (t @ rest) = Some rest" "not_digit_start (t @ rest)" "t @ rest = [] \<or> hd (t @ rest) \<noteq> 46"
    using t rest by (simp_all add: tail_ok_def)
  have "readInt (ds @ ?r) False = Some ?r"
    using ds tail(2) by (intro readInt_digits) (auto simp: leading_def)
  moreover have "readInt (fs @ t @ rest) True = Some (t @ rest)" if "fs \<noteq> []"
    using fs that tail(2) by (intro readInt_digits) auto
  moreover obtain d ds' where "ds = d # ds'" "d \<noteq> 45"
    using ds digits_not_minus [of ds] by (cases ds) (auto simp: leading_def digits_def)
  ultimately show ?thesis
    using tail by (cases "t @ rest") (auto simp: parseNumberToken_def parseExponent_def split: list.splits)
qed

lemma json_number_body:
  assumes "leading ds" "tail_ok t" "fs = [] \<or> digits fs"
  shows "json_number ((if neg then [45] else []) @ ds @ (if fs = [] then [] else 46 # fs) @ t)"
proof -
  have "isASCIIDigit (hd ds)" "ds \<noteq> []" using assms(1) by (cases ds; simp add: leading_def digits_def)+
  thus ?thesis using parseNumberToken_body [OF assms] by (auto simp: json_number_def)
qed

lemma numberToStringImpl_digits_hd: "0 < n \<Longrightarrow> hd (numberToStringImpl_digits n) \<noteq> uc CHR ''0''"
proof (induction n rule: numberToStringImpl_digits.induct)
  case (1 n)
  show ?case
  proof (cases "n div 10 = 0")
    case True
    hence "n < 10" by simp
    with "1.prems" nonzero_digit_char [of n] show ?thesis
      by (subst numberToStringImpl_digits.simps) auto
  next
    case False
    hence "hd (numberToStringImpl_digits (n div 10)) \<noteq> uc CHR ''0''" using "1.IH" by simp
    thus ?thesis using False numberToStringImpl_digits_nonempty [of "n div 10"]
      by (subst numberToStringImpl_digits.simps) simp
  qed
qed

lemma digits_number: "digits (numberToStringImpl_digits n)"
  using numberToStringImpl_digits_set [of n] numberToStringImpl_digits_nonempty [of n]
  by (simp add: digits_def list_all_iff)

lemma leading_number: "leading (numberToStringImpl_digits n)"
proof (cases "n = 0")
  case True
  thus ?thesis using digits_number [of 0] by (simp add: leading_def numberToStringImpl_digits.simps [of 0])
next
  case False
  thus ?thesis using digits_number [of n] numberToStringImpl_digits_hd [of n] by (simp add: leading_def)
qed

lemma numberToStringSigned_int:
  assumes "- (2 ^ 31) \<le> i" "i < 2 ^ 31"
  shows "numberToStringSigned (word_of_int i) =
    (if i < 0 then 45 # numberToStringImpl_digits (nat (- i)) else numberToStringImpl_digits (nat i))"
proof -
  have u: "uint (word_of_int k :: 32 word) = (if k < 0 then k + 2 ^ 32 else k)"
    if "- (2 ^ 31) \<le> k" "k \<le> 2 ^ 31" for k
  proof -
    have "uint (word_of_int k :: 32 word) = k mod 2 ^ 32" by (simp add: uint_word_of_int take_bit_eq_mod)
    also have "\<dots> = (if k < 0 then k + 2 ^ 32 else k) mod 2 ^ 32" by (simp only: mod_add_self2 split: if_split) simp
    also have "\<dots> = (if k < 0 then k + 2 ^ 32 else k)"
      using that by (intro mod_pos_pos_trivial) auto
    finally show ?thesis .
  qed
  have sgn: "(word_of_int i :: 32 word) <s 0 \<longleftrightarrow> i < 0"
    using assms u [of i] by (simp add: word_sless_alt sint_word32)
  have mag: "unat (word_of_int k :: 32 word) = nat k" if "0 \<le> k" "k \<le> 2 ^ 31" for k
    unfolding unat_eq_nat_uint using u [of k] that by simp
  show ?thesis
  proof (cases "i < 0")
    case True
    thus ?thesis using sgn mag [of "- i"] assms by (simp add: numberToStringSigned_def)
  next
    case False
    thus ?thesis using sgn mag [of i] assms by (simp add: numberToStringSigned_def)
  qed
qed

lemma strip_trailing_zeros_le: "strip_trailing_zeros ds n \<le> n"
  by (induction n) auto

lemma digits_sublist: "digits ds \<Longrightarrow> xs \<noteq> [] \<Longrightarrow> set xs \<subseteq> set ds \<Longrightarrow> digits xs"
  by (auto simp: digits_def list_all_iff)

lemma json_number_toString_digits:
  assumes ds: "leading ds" and e: "- 2000 \<le> e" "e \<le> 2000" "length ds \<le> 100"
  shows "json_number ((if neg then [45] else []) @ toString_digits ds e)"
proof -
  let ?adj = "e + int (length ds) - 1"
  have dig: "digits ds" "ds \<noteq> []" using ds by (auto simp: leading_def digits_def)
  note number = json_number_body [of _ _ _ neg]
  consider (int) "e = 0" | (fraction) "e < 0" "?adj \<ge> 0" | (small) "e < 0" "?adj < 0" "?adj \<ge> - 6"
    | (exponent) "\<not> (e \<le> 0 \<and> ?adj \<ge> - 6)" by linarith
  thus ?thesis
  proof cases
    case int
    hence "toString_digits ds e = ds @ [] @ []" using dig(2) by (simp add: toString_digits_def Let_def)
    thus ?thesis using number [OF ds tail_ok_Nil, of "[]"] by simp
  next
    case fraction
    let ?k = "Suc (nat ?adj)"
    have k: "?k < length ds" using fraction dig(2) by auto
    hence lead: "leading (take ?k ds)" and frac: "digits (drop ?k ds)" "drop ?k ds \<noteq> []"
      using ds dig by (auto simp: leading_def intro!: digits_sublist [OF dig(1)] dest: in_set_takeD in_set_dropD)
    have "toString_digits ds e = take ?k ds @ (46 # drop ?k ds) @ []"
      using fraction by (simp add: toString_digits_def Let_def)
    thus ?thesis using number [OF lead tail_ok_Nil, of "drop ?k ds"] frac by (simp only: if_False disj_not1) simp
  next
    case small
    define fs where "fs = replicate (nat (- (?adj + 1))) 48 @ ds"
    have "digits fs" "fs \<noteq> []" using dig by (auto simp: fs_def digits_def list_all_iff isASCIIDigit_def)
    moreover have "leading [48]" by (simp add: leading_def digits_def isASCIIDigit_def)
    moreover have "toString_digits ds e = [48] @ (46 # fs) @ []"
      using small by (simp add: toString_digits_def Let_def lit_simps fs_def)
    ultimately show ?thesis using number [of "[48]" "[]" fs, OF _ tail_ok_Nil] by simp
  next
    case exponent
    define len where "len = strip_trailing_zeros ds (length ds)"
    define fs where "fs = (if len \<ge> 2 then take (len - 1) (drop 1 ds) else [])"
    have "len \<le> length ds" using strip_trailing_zeros_le by (simp add: len_def)
    hence fs: "fs = [] \<or> digits fs" "len \<ge> 2 \<longleftrightarrow> fs \<noteq> []"
      by (auto simp: fs_def intro!: digits_sublist [OF dig(1)] dest: in_set_takeD in_set_dropD)
    have lead: "leading [ds ! 0]" using dig by (cases ds) (auto simp: leading_def digits_def)
    define t where "t = (if ?adj < 0 then 101 # 45 # numberToStringImpl_digits (nat (- ?adj))
        else if ?adj = 0 then [] else 101 # 43 # numberToStringImpl_digits (nat ?adj))"
    have "tail_ok t" by (simp add: t_def tail_ok_Nil tail_ok_exponent digits_number)
    moreover have "toString_digits ds e = [ds ! 0] @ (if fs = [] then [] else 46 # fs) @ t"
      using exponent e numberToStringSigned_int [of ?adj] fs(2)
      by (auto simp: toString_digits_def Let_def lit_simps t_def fs_def simp flip: len_def)
    ultimately show ?thesis using number [OF lead _ fs(1)] by simp
  qed
qed

lemma countDigits_large: "c < 2 ^ 64 \<Longrightarrow> 15 < countDigits c \<Longrightarrow> 10 \<le> c"
proof -
  assume "c < 2 ^ 64" "15 < countDigits c"
  hence "10 ^ (countDigits c - 1) \<le> c"
    using countDigits_loop_bounds [of c 0] by (auto simp: countDigits_def)
  moreover have "(10 :: nat) ^ 1 \<le> 10 ^ (countDigits c - 1)"
    using \<open>15 < countDigits c\<close> by (intro power_increasing) auto
  ultimately show ?thesis by simp
qed

lemma shorten_digits_bounds:
  "c < 2 ^ 64 \<Longrightarrow> shorten_digits c e l = (c', e', l') \<Longrightarrow>
   c' \<le> c \<and> e \<le> e' \<and> (e' = e \<or> 10 ^ nat (e' - e) \<le> c)"
proof (induction c e l rule: shorten_digits.induct)
  case (1 c e l)
  show ?case
  proof (cases "15 < countDigits c")
    case True
    hence "shorten_digits (c div 10) (e + 1) (c mod 10) = (c', e', l')"
      using "1.prems" by (simp add: shorten_digits.simps [of c])
    moreover have "c div 10 < 2 ^ 64" using "1.prems"(1) by (rule le_less_trans [OF div_le_dividend])
    ultimately have IH: "c' \<le> c div 10" "e + 1 \<le> e'" "e' = e + 1 \<or> 10 ^ nat (e' - (e + 1)) \<le> c div 10"
      using "1.IH" [OF True] by blast+
    have split: "nat (e' - e) = Suc (nat (e' - (e + 1)))" using IH(2) by simp
    have "10 ^ nat (e' - e) \<le> c"
    proof (cases "e' = e + 1")
      case True
      thus ?thesis using countDigits_large "1.prems"(1) \<open>15 < countDigits c\<close> by simp
    next
      case False
      hence "10 * 10 ^ nat (e' - (e + 1)) \<le> 10 * (c div 10)" using IH(3) by simp
      also have "\<dots> \<le> c" by simp
      finally show ?thesis unfolding split by simp
    qed
    thus ?thesis using IH by (auto intro: order_trans)
  next
    case False
    thus ?thesis using "1.prems" by (simp add: shorten_digits.simps [of c])
  qed
qed

lemma drop_zeros_bounds:
  "drop_zeros c e = (c', e') \<Longrightarrow> c' \<le> c \<and> e \<le> e' \<and> (e' = e \<or> e' \<le> 0)"
proof (induction c e rule: drop_zeros.induct)
  case (1 c e)
  show ?case
  proof (cases "e < 0 \<and> c \<noteq> 0 \<and> c mod 10 = 0")
    case True
    hence "drop_zeros (c div 10) (e + 1) = (c', e')" using "1.prems" by (simp add: drop_zeros.simps [of c])
    with "1.IH" [OF True] True show ?thesis by (auto intro: order_trans)
  next
    case False
    thus ?thesis using "1.prems" by (auto simp: drop_zeros.simps [of c])
  qed
qed

lemma toString_shorten_bounds:
  assumes c: "c \<le> MaxCoefficient" and e: "ExponentMin \<le> e" "e \<le> ExponentMax"
    and res: "toString_shorten c e = (c', e')"
  shows "c' < 10 ^ 19 \<and> - 2000 \<le> e' \<and> e' \<le> 2000"
proof (cases "e < 0")
  case True
  obtain c1 e1 l where s: "shorten_digits c e 0 = (c1, e1, l)" by (cases "shorten_digits c e 0")
  have small: "c < 2 ^ 64" using c by (simp add: MaxCoefficient_def)
  note b = shorten_digits_bounds [OF small s]
  have "e1 \<le> e + 18"
  proof (cases "e1 = e")
    case False
    hence "10 ^ nat (e1 - e) < (10 :: nat) ^ 18" using b c by (auto simp: MaxCoefficient_def)
    hence "nat (e1 - e) < 18" by (simp only: power_ten_below)
    thus ?thesis by simp
  qed simp
  moreover let ?c2 = "if l \<ge> 5 then u64 (c1 + 1) else c1"
  have "?c2 \<le> c1 + 1" by (simp add: u64_def)
  moreover have "drop_zeros ?c2 e1 = (c', e')" using res True by (simp add: toString_shorten_def s)
  note drop_zeros_bounds [OF this]
  ultimately show ?thesis using b c e True by (auto simp: decimal_limits)
next
  case False
  thus ?thesis using res c e by (auto simp: toString_shorten_def decimal_limits)
qed

lemma json_number_toString:
  assumes "decimal_ok d" "isFinite d"
  shows "json_number (toString d)"
proof -
  obtain c e where s: "toString_shorten (m_coefficient d) (m_exponent d) = (c, e)" by fastforce
  have b: "c < 10 ^ 19" "- 2000 \<le> e" "e \<le> 2000"
    using toString_shorten_bounds [OF _ _ _ s] assms(1) by (auto simp: decimal_ok_def)
  have "length (numberToStringImpl_digits c) \<le> 100"
    using numberToStringImpl_digits_length [of c 18] b(1) by simp
  from json_number_toString_digits [OF leading_number b(2,3) this, of "m_sign d = Negative"]
  show ?thesis using assms(2)
    by (cases "m_formatClass d") (auto simp: toString_def s isSpecial_def split: if_splits)
qed

lemma parseToken_number:
  assumes "json_number s" "delimiter rest"
  shows "parseToken P (s @ rest) = Val (Number, s @ rest, rest)"
proof -
  obtain c t where s: "s = c # t" and c: "isASCIIDigit c \<or> c = 45"
    using assms(1) by (cases s) (auto simp: json_number_def)
  have "\<not> isSpaceOrNewline P c" using c isASCIIDigit_not(1) sign_not_space [of P] by auto
  moreover have "c \<noteq> 110" "c \<noteq> 116" "c \<noteq> 102" "c \<noteq> 91" "c \<noteq> 93" "c \<noteq> 44" "c \<noteq> 123" "c \<noteq> 125" "c \<noteq> 58"
    using c by (auto simp: isASCIIDigit_def)
  ultimately show ?thesis
    using assms c by (auto simp: parseToken_def s json_number_def token_if_def)
qed

section \<open>Printed values are read back\<close>

text \<open>
  The numbers of a value survive printing: they are finite, the shortest
  decimal string the platform prints for them is one that \<^verbatim>\<open>Decimal\<close> does not
  take for an overflow, and the platform reads the printed digits as the same
  double.
\<close>

definition number_survives :: "platform \<Rightarrow> double \<Rightarrow> bool" where
  "number_survives P d \<longleftrightarrow> isfinite_double d \<and> isFinite (fromDouble P d) \<and>
    charactersToDouble P (toString (fromDouble P d)) = Some d"

fun numbers_survive :: "platform \<Rightarrow> json \<Rightarrow> bool" and object_numbers_survive :: "platform \<Rightarrow> json_object \<Rightarrow> bool" where
  "numbers_survive P (JSONNumber d) = number_survives P d"
| "numbers_survive P (JSONObject ob) = object_numbers_survive P ob"
| "numbers_survive P (JSONArray vs) = list_all (numbers_survive P) vs"
| "numbers_survive P _ = True"
| "object_numbers_survive P (JSONObjectBase data order) = list_all (\<lambda>kv. numbers_survive P (snd kv)) data"

lemma fromDouble_ok: "decimal_ok (fromDouble P d)"
  by (auto simp: fromDouble_def fromString_ok split: double.splits)

lemma token_text_append [simp]: "token_text (s @ rest) rest = s"
  by (simp add: token_text_def)

lemma parses_number:
  assumes "number_survives P n" "delimiter rest" "d \<le> stackLimit"
  shows "parses P (writeNumber P n @ rest) d (JSONNumber n) rest"
proof -
  let ?s = "toString (fromDouble P n)"
  have "json_number ?s" using assms(1) fromDouble_ok by (intro json_number_toString) (simp_all add: number_survives_def)
  from number [OF assms(3) parseToken_number [OF this assms(2)], where n = n] assms(1)
  show ?thesis by (simp add: writeNumber_def number_survives_def)
qed

lemma parseToken_const:
  "parseToken P (lit ''null'' @ rest) = Val (NullToken, lit ''null'' @ rest, rest)"
  "parseToken P (lit ''true'' @ rest) = Val (BoolTrue, lit ''true'' @ rest, rest)"
  "parseToken P (lit ''false'' @ rest) = Val (BoolFalse, lit ''false'' @ rest, rest)"
  by (simp_all add: parseToken_def lit_simps isSpaceOrNewline_def isASCIISpace_def token_if_def)

lemma parseToken_punctuation:
  "parseToken P (uc CHR ''['' # rest) = Val (ArrayBegin, uc CHR ''['' # rest, rest)"
  "parseToken P (uc CHR '']'' # rest) = Val (ArrayEnd, uc CHR '']'' # rest, rest)"
  "parseToken P (uc CHR ''{'' # rest) = Val (ObjectBegin, uc CHR ''{'' # rest, rest)"
  "parseToken P (uc CHR ''}'' # rest) = Val (ObjectEnd, uc CHR ''}'' # rest, rest)"
  "parseToken P (uc CHR '','' # rest) = Val (ListSeparator, uc CHR '','' # rest, rest)"
  "parseToken P (uc CHR '':'' # rest) = Val (ObjectPairSeparator, uc CHR '':'' # rest, rest)"
  by (simp_all add: parseToken_def isSpaceOrNewline_def isASCIISpace_def)

lemma parses_token: "parses P s d v r \<Longrightarrow> \<exists>t ts te. parseToken P s = Val (t, ts, te) \<and> t \<noteq> ArrayEnd"
  by (cases rule: parses.cases) auto

lemma delimiter_starts [simp]:
  "delimiter []" "delimiter (uc CHR '','' # r)" "delimiter (uc CHR '']'' # r)" "delimiter (uc CHR ''}'' # r)"
  by (simp_all add: delimiter_def)

text \<open>What the induction provides for the elements of an array and the members of an object.\<close>

definition reads_back :: "platform \<Rightarrow> nat \<Rightarrow> json \<Rightarrow> bool" where
  "reads_back P d v \<longleftrightarrow> (\<forall>s rest. writeJSON P v = Val s \<longrightarrow> delimiter rest \<longrightarrow> parses P (s @ rest) d v rest)"

lemma writeElements_first:
  "writeElements P (v # vs) False = bind_cxx (writeElements P (v # vs) True) (\<lambda>es. Val (uc CHR '','' # es))"
  by (cases "writeJSON P v"; cases "writeElements P vs False") (simp_all add: lit_simps)

lemma elements_token:
  assumes "\<forall>v \<in> set vs. reads_back P d v" "vs \<noteq> []" "writeElements P vs True = Val es"
  shows "\<exists>t ts te. parseToken P (es @ uc CHR '']'' # rest) = Val (t, ts, te) \<and> t \<noteq> ArrayEnd"
proof (cases vs)
  case (Cons v ws)
  with assms(3) obtain s es' where s: "writeJSON P v = Val s" "writeElements P ws False = Val es'" "es = s @ es'"
    by (auto simp: bind_cxx_eq_Val)
  moreover have "delimiter (es' @ uc CHR '']'' # rest)"
    using s(2) by (cases ws) (auto simp: writeElements_first bind_cxx_eq_Val simp del: writeElements.simps(2) uc_def)
  ultimately have "parses P (es @ uc CHR '']'' # rest) d v (es' @ uc CHR '']'' # rest)"
    using assms(1) Cons by (simp add: reads_back_def)
  thus ?thesis by (rule parses_token)
qed (use assms in simp)

lemma parses_elements:
  "\<forall>v \<in> set vs. reads_back P (Suc d) v \<Longrightarrow> vs \<noteq> [] \<Longrightarrow> writeElements P vs True = Val es \<Longrightarrow> t \<noteq> ArrayEnd \<Longrightarrow>
   parses_array P t (es @ uc CHR '']'' # rest) e acc d (JSONArray (acc @ vs)) rest"
proof (induction vs arbitrary: es t e acc)
  case (Cons v vs)
  from Cons.prems(3) obtain s es' where s: "writeJSON P v = Val s" and es': "writeElements P vs False = Val es'"
    and es: "es = s @ es'"
    by (auto simp: bind_cxx_eq_Val)
  have rb: "delimiter r \<Longrightarrow> parses P (s @ r) (Suc d) v r" for r
    using Cons.prems(1) s by (simp add: reads_back_def)
  show ?case
  proof (cases vs)
    case Nil
    hence "es' = []" using es' by simp
    with rb [of "uc CHR '']'' # rest"] show ?thesis
      using array_last [OF Cons.prems(4) _ parseToken_punctuation(2) array_end] es Nil
      by (simp add: pushValue_def del: uc_def)
  next
    case (Cons w ws)
    from es' obtain fs where fs: "writeElements P vs True = Val fs" "es' = uc CHR '','' # fs"
      unfolding Cons writeElements_first by (auto simp: bind_cxx_eq_Val)
    hence rb': "parses P (s @ es' @ uc CHR '']'' # rest) (Suc d) v (es' @ uc CHR '']'' # rest)"
      using rb by (simp del: uc_def)
    have "\<exists>t3 ts3 te3. parseToken P (fs @ uc CHR '']'' # rest) = Val (t3, ts3, te3) \<and> t3 \<noteq> ArrayEnd"
      using Cons.prems(1) fs(1) by (intro elements_token [where vs = vs]) (auto simp: Cons)
    then obtain t3 ts3 te3 where t3: "parseToken P (fs @ uc CHR '']'' # rest) = Val (t3, ts3, te3)" "t3 \<noteq> ArrayEnd"
      by blast
    have "parses_array P t3 (fs @ uc CHR '']'' # rest) te3 (acc @ [v]) d (JSONArray ((acc @ [v]) @ vs)) rest"
      using Cons.prems(1) fs(1) t3(2) by (intro Cons.IH) (auto simp: Cons)
    thus ?thesis
      using array_more [OF Cons.prems(4) rb' [unfolded fs(2)], simplified append_Cons, OF parseToken_punctuation(5) t3] es fs(2)
      by (simp add: pushValue_def del: uc_def)
  qed
qed simp

lemma hset_new: "hget m k = None \<Longrightarrow> hset k v m = m @ [(k, v)]"
  by (induction m) (auto simp: hget_def hset_def split: if_splits)

lemma setValue_new:
  "hget data k = None \<Longrightarrow>
   setValue k v (JSONObjectBase data (hkeys data)) = JSONObjectBase (data @ [(k, v)]) (hkeys (data @ [(k, v)]))"
  by (simp add: setValue_def hcontains_def hset_new hkeys_def)

lemma writeMembers_first:
  "writeMembers P data (k # ks) False = bind_cxx (writeMembers P data (k # ks) True) (\<lambda>ms. Val (uc CHR '','' # ms))"
proof (cases "hget data k")
  case (Some v)
  thus ?thesis
    by (cases "writeJSON P v"; cases "writeMembers P data ks False") (simp_all add: lit_simps)
qed simp

lemma parses_members:
  "data = old @ todo \<Longrightarrow> distinct (hkeys data) \<Longrightarrow> \<forall>kv \<in> set todo. reads_back P (Suc d) (snd kv) \<Longrightarrow> todo \<noteq> [] \<Longrightarrow>
   writeMembers P data (hkeys todo) True = Val ms \<Longrightarrow>
   \<exists>te. parseToken P (ms @ uc CHR ''}'' # rest) = Val (StringLiteral, ms @ uc CHR ''}'' # rest, te) \<and>
     parses_object P StringLiteral (ms @ uc CHR ''}'' # rest) te (JSONObjectBase old (hkeys old)) d
       (JSONObject (JSONObjectBase data (hkeys data))) rest"
proof (induction todo arbitrary: old ms)
  case (Cons kv todo)
  obtain k v where kv: "kv = (k, v)" by fastforce
  have new: "hget old k = None" and look: "hget data k = Some v"
    using Cons.prems(1,2) by (force simp: kv hkeys_def hget_def map_of_eq_None_iff map_add_def split: option.splits)+
  from Cons.prems(5) obtain s ms' where s: "writeJSON P v = Val s" and ms': "writeMembers P data (hkeys todo) False = Val ms'"
    and ms: "ms = doubleQuoteString k @ uc CHR '':'' # s @ ms'"
    by (auto simp: kv hkeys_def look bind_cxx_eq_Val lit_simps)
  let ?fin = "uc CHR ''}'' # rest" and ?te = "uc CHR '':'' # s @ ms' @ uc CHR ''}'' # rest"
  have rb: "delimiter r \<Longrightarrow> parses P (s @ r) (Suc d) v r" for r
    using Cons.prems(3) s by (simp add: reads_back_def kv)
  have tok: "parseToken P (ms @ ?fin) = Val (StringLiteral, ms @ ?fin, ?te)"
    and key: "decodeString (literal_text (ms @ ?fin) ?te) = Val (Some k)"
    using parseToken_string(1) [of P k ?te] parseToken_string(2) [of k ?te] by (simp_all add: ms del: uc_def)
  have "parses_object P StringLiteral (ms @ ?fin) ?te (JSONObjectBase old (hkeys old)) d
      (JSONObject (JSONObjectBase data (hkeys data))) rest"
  proof (cases todo)
    case Nil
    hence "ms' = []" using ms' by (simp add: hkeys_def)
    with rb [of ?fin] have "parses P (s @ ms' @ ?fin) (Suc d) v ?fin" by (simp del: uc_def)
    from object_last [OF key parseToken_punctuation(6) this parseToken_punctuation(4) object_end, of "JSONObjectBase old (hkeys old)"]
    show ?thesis using Cons.prems(1) Nil by (simp add: setValue_new [OF new] kv del: uc_def)
  next
    case (Cons kv' todo')
    hence keys: "hkeys todo = fst kv' # hkeys todo'" by (simp add: hkeys_def)
    from ms' obtain ns where ns: "writeMembers P data (hkeys todo) True = Val ns" and ms'_eq: "ms' = uc CHR '','' # ns"
      unfolding keys writeMembers_first by (auto simp: bind_cxx_eq_Val)
    from rb have rb': "parses P (s @ ms' @ ?fin) (Suc d) v (uc CHR '','' # ns @ ?fin)"
      by (simp add: ms'_eq del: uc_def)
    from Cons.IH [of "old @ [kv]" ns] ns Cons.prems(1-3) obtain te where
      "parseToken P (ns @ ?fin) = Val (StringLiteral, ns @ ?fin, te)"
      "parses_object P StringLiteral (ns @ ?fin) te (JSONObjectBase (old @ [kv]) (hkeys (old @ [kv]))) d
         (JSONObject (JSONObjectBase data (hkeys data))) rest"
      by (auto simp: Cons simp del: uc_def)
    thus ?thesis
      using object_more [OF key parseToken_punctuation(6) rb' parseToken_punctuation(5)]
      by (simp add: setValue_new [OF new] kv del: uc_def)
  qed
  with tok show ?case by blast
qed simp

lemma reads_back_array:
  assumes "\<forall>v \<in> set vs. reads_back P (Suc d) v" "d \<le> stackLimit"
  shows "reads_back P d (JSONArray vs)"
  unfolding reads_back_def
proof (intro allI impI)
  fix s rest assume "writeJSON P (JSONArray vs) = Val s"
  then obtain es where es: "writeElements P vs True = Val es" "s @ rest = uc CHR ''['' # es @ uc CHR '']'' # rest"
    by (auto simp: bind_cxx_eq_Val lit_simps)
  have "\<exists>t ts te. parseToken P (es @ uc CHR '']'' # rest) = Val (t, ts, te) \<and>
      parses_array P t (es @ uc CHR '']'' # rest) te [] d (JSONArray vs) rest"
  proof (cases "vs = []")
    case True
    with es(1) show ?thesis by (auto simp: parseToken_punctuation intro: array_end simp del: uc_def)
  next
    case False
    from elements_token [OF assms(1) this es(1)] obtain t ts te where
      "parseToken P (es @ uc CHR '']'' # rest) = Val (t, ts, te)" "t \<noteq> ArrayEnd" by blast
    with parses_elements [OF assms(1) False es(1), of t rest te "[]"] show ?thesis by auto
  qed
  with array [OF assms(2) parseToken_punctuation(1)] es(2)
  show "parses P (s @ rest) d (JSONArray vs) rest" by metis
qed

lemma reads_back_object:
  assumes "\<forall>kv \<in> set data. reads_back P (Suc d) (snd kv)" "d \<le> stackLimit" "distinct (hkeys data)"
  shows "reads_back P d (JSONObject (JSONObjectBase data (hkeys data)))"
  unfolding reads_back_def
proof (intro allI impI)
  fix s rest assume "writeJSON P (JSONObject (JSONObjectBase data (hkeys data))) = Val s"
  then obtain ms where ms: "writeMembers P data (hkeys data) True = Val ms" "s @ rest = uc CHR ''{'' # ms @ uc CHR ''}'' # rest"
    by (auto simp: bind_cxx_eq_Val lit_simps)
  have "\<exists>t ts te. parseToken P (ms @ uc CHR ''}'' # rest) = Val (t, ts, te) \<and>
      parses_object P t ts te emptyObject d (JSONObject (JSONObjectBase data (hkeys data))) rest"
  proof (cases "data = []")
    case True
    with ms(1) object_end [of P _ rest emptyObject d] show ?thesis
      by (auto simp: parseToken_punctuation hkeys_def emptyObject_def simp del: uc_def)
  next
    case False
    from parses_members [OF _ assms(3) assms(1) False ms(1), of "[]" rest] show ?thesis
      by (auto simp: emptyObject_def hkeys_def simp del: uc_def)
  qed
  with object [OF assms(2) parseToken_punctuation(3)] ms(2)
  show "parses P (s @ rest) d (JSONObject (JSONObjectBase data (hkeys data))) rest" by metis
qed

lemma parses_written:
  "json_ok v \<Longrightarrow> numbers_survive P v \<Longrightarrow> d + json_depth v \<le> stackLimit \<Longrightarrow> reads_back P d v"
proof (induction "size v" arbitrary: v d rule: less_induct)
  case less
  show ?case
  proof (cases v)
    case JSONNull
    with less.prems(3) show ?thesis by (auto simp: reads_back_def intro: null parseToken_const)
  next
    case (JSONBoolean b)
    with less.prems(3) show ?thesis by (auto simp: reads_back_def intro: true false parseToken_const)
  next
    case (JSONNumber n)
    with less.prems(2,3) show ?thesis by (auto simp: reads_back_def intro: parses_number)
  next
    case (JSONString str)
    with less.prems(3) show ?thesis by (auto simp: reads_back_def intro: string parseToken_string)
  next
    case (JSONArray vs)
    have "\<forall>w \<in> set vs. reads_back P (Suc d) w"
    proof
      fix w assume w: "w \<in> set vs"
      hence "size w < size v" using size_list_estimation' [of w vs "size w" size] by (simp add: JSONArray)
      moreover have "json_depth w < json_depth v" using json_depth_le(1) [of vs "json_depth v"] w JSONArray by simp
      ultimately show "reads_back P (Suc d) w"
        using less.prems w by (intro less.hyps) (auto simp: JSONArray list_all_iff)
    qed
    thus ?thesis using less.prems(3) unfolding JSONArray by (intro reads_back_array) simp_all
  next
    case (JSONObject ob)
    obtain data where ob: "ob = JSONObjectBase data (hkeys data)" and dist: "distinct (hkeys data)"
      using less.prems(1) by (cases ob) (auto simp: JSONObject object_shape_def)
    have "\<forall>kv \<in> set data. reads_back P (Suc d) (snd kv)"
    proof
      fix kv assume kv: "kv \<in> set data"
      hence "hget data (fst kv) = Some (snd kv)" using dist by (simp add: hget_def hkeys_def)
      from size_hget [OF this] have "size (snd kv) < size v" by (simp add: JSONObject ob)
      moreover have "json_depth (snd kv) < json_depth v"
        using json_depth_le(2) [of ob "json_depth v"] kv by (simp add: JSONObject ob)
      ultimately show "reads_back P (Suc d) (snd kv)"
        using less.prems kv by (intro less.hyps) (auto simp: JSONObject ob list_all_iff)
    qed
    thus ?thesis using less.prems(3) dist unfolding JSONObject ob by (intro reads_back_object) simp_all
  qed
qed

text \<open>A platform that knows the number seven only.\<close>

definition sample_platform :: platform where
  "sample_platform =
    \<lparr>isWhiteSpaceNeutral = (\<lambda>_. False),
     charactersToDouble = (\<lambda>s. if s = lit ''7'' then Some (DFin 7) else None),
     numberToString = (\<lambda>_. lit ''7'')\<rparr>"

lemma sample_number: "number_survives sample_platform (DFin 7)"
  by (simp add: number_survives_def sample_platform_def fromDouble_def decimal_eval isSpecial_def)

lemma toJSONString_parses:
  assumes "json_ok v" "numbers_survive P v" "json_depth v \<le> stackLimit"
  shows "\<exists>s. toJSONString P v = Val s \<and> parseJSON P s = Val (Some v)"
proof -
  obtain s where s: "writeJSON P v = Val s" using writeJSON_defined [OF assms(1)] by (auto simp: defined_iff_Val)
  have "reads_back P 0 v" using assms by (intro parses_written) simp_all
  hence "parses P (s @ []) 0 v []" using s delimiter_starts(1) unfolding reads_back_def by blast
  thus ?thesis using s by (simp add: toJSONString_def parseJSON_iff)
qed

text \<open>
  C8.  The parser reads what the printer wrote: a well-formed value whose
  numbers survive printing and whose nesting fits the stack limit of the parser
  is printed as a text from which \<^verbatim>\<open>parseJSON\<close> builds the same value.
\<close>

theorem json_print_parse:
  assumes "json_ok v" "numbers_survive P v" "json_depth v \<le> stackLimit"
  shows "\<exists>s. toJSONString P v = Val s \<and> parseJSON P s = Val (Some v)"
  using assms by (rule toJSONString_parses)

theorem json_print_parse_witness:
  "let v = JSONObject (JSONObjectBase
         [(lit ''id'', JSONNumber (DFin 7)), (lit ''a'', JSONArray [JSONNull, JSONString (lit ''<'')])]
         [lit ''id'', lit ''a''])
   in \<exists>s. toJSONString sample_platform v = Val s \<and> parseJSON sample_platform s = Val (Some v)"
  unfolding Let_def
  by (rule json_print_parse)
    (simp_all add: object_shape_def hkeys_def lit_simps sample_number stackLimit_def)

end
