(* ===== verification/Injected_Script.thy ===== *)
theory Injected_Script
  imports JSON_Roundtrip
begin

text \<open>
  The injected script: objects bound for the front end and their groups
  (\<^verbatim>\<open>InjectedScriptNative.cpp\<close>), the calls into the script and what is made of their
  results (\<^verbatim>\<open>InjectedScriptBase.cpp\<close>, \<^verbatim>\<open>InjectedScript.cpp\<close>), and the scripts of all
  contexts (\<^verbatim>\<open>InjectedScriptManager.cpp\<close>), all under \<^verbatim>\<open>Source/core/inspector\<close>.
\<close>

section \<open>Bound objects and object groups\<close>

text \<open>
  A JavaScript value is a handle.  Ids are \<^verbatim>\<open>int\<close>s; the counter is a 32-bit word,
  which \<^verbatim>\<open>bind\<close> resets to one when it finds it not positive.
\<close>

type_synonym v8_value = nat

record injected_native =
  m_lastBoundObjectId :: "32 word"
  m_idToWrappedObject :: "(int, v8_value) hmap"
  m_idToObjectGroupName :: "(int, wstr) hmap"
  m_nameToObjectGroup :: "(wstr, int list) hmap"

definition new_native :: injected_native where
  "new_native = \<lparr>m_lastBoundObjectId = 1, m_idToWrappedObject = [], m_idToObjectGroupName = [], m_nameToObjectGroup = []\<rparr>"

definition addObjectToGroup :: "int \<Rightarrow> wstr \<Rightarrow> injected_native \<Rightarrow> injected_native" where
  "addObjectToGroup objectId groupName n =
    (if groupName = [] then n
     else if objectId \<le> 0 then n
     else n\<lparr>m_idToObjectGroupName := hset objectId groupName (m_idToObjectGroupName n),
            m_nameToObjectGroup :=
              (case hget (m_nameToObjectGroup n) groupName of
                 None \<Rightarrow> hset groupName [objectId] (m_nameToObjectGroup n)
               | Some ids \<Rightarrow> hset groupName (ids @ [objectId]) (m_nameToObjectGroup n))\<rparr>)"

definition native_bind :: "v8_value \<Rightarrow> wstr \<Rightarrow> injected_native \<Rightarrow> int \<times> injected_native" where
  "native_bind v groupName n =
    (let last = (if sint (m_lastBoundObjectId n) \<le> 0 then 1 else m_lastBoundObjectId n);
         objectId = sint last;
         n = n\<lparr>m_lastBoundObjectId := last + 1, m_idToWrappedObject := hset objectId v (m_idToWrappedObject n)\<rparr>
     in (objectId, addObjectToGroup objectId groupName n))"

definition unbind :: "int \<Rightarrow> injected_native \<Rightarrow> injected_native" where
  "unbind objectId n =
    n\<lparr>m_idToWrappedObject := hremove objectId (m_idToWrappedObject n),
      m_idToObjectGroupName := hremove objectId (m_idToObjectGroupName n)\<rparr>"

definition objectForId :: "injected_native \<Rightarrow> int \<Rightarrow> v8_value option" where
  "objectForId n objectId = hget (m_idToWrappedObject n) objectId"

definition native_releaseObjectGroup :: "wstr \<Rightarrow> injected_native \<Rightarrow> injected_native" where
  "native_releaseObjectGroup groupName n =
    (if groupName = [] then n
     else case hget (m_nameToObjectGroup n) groupName of
       None \<Rightarrow> n
     | Some ids \<Rightarrow>
         (let n = foldl (\<lambda>n objectId. unbind objectId n) n ids
          in n\<lparr>m_nameToObjectGroup := hremove groupName (m_nameToObjectGroup n)\<rparr>))"

definition groupName :: "injected_native \<Rightarrow> int \<Rightarrow> wstr option" where
  "groupName n objectId = (if objectId \<le> 0 then None else hget (m_idToObjectGroupName n) objectId)"

section \<open>Calls of the injected script\<close>

text \<open>
  The engine is a parameter: it runs a function of the injected script in a
  world of its own and returns the JSON value of the result, \<open>None\<close> when the
  value nests too deeply, or an exception with its message, if any.
\<close>

datatype script_arg = ArgString wstr | ArgBool bool | ArgInt int | ArgValue v8_value | ArgValues "v8_value list"

record script_call =
  sc_name :: wstr
  sc_args :: "script_arg list"

datatype call_result = Threw "wstr option" | Returned "json option"

record 'w script_engine =
  engine_call :: "script_call \<Rightarrow> 'w \<Rightarrow> call_result \<times> 'w"
  evalEnabled :: "'w \<Rightarrow> bool"
  setEvalEnabled :: "bool \<Rightarrow> 'w \<Rightarrow> 'w"

definition script_function :: "string \<Rightarrow> script_arg list \<Rightarrow> script_call" where
  "script_function name args = \<lparr>sc_name = lit name, sc_args = args\<rparr>"

definition callFunctionWithEvalEnabled :: "'w script_engine \<Rightarrow> script_call \<Rightarrow> 'w \<Rightarrow> call_result \<times> 'w" where
  "callFunctionWithEvalEnabled E function w =
    (let evalIsDisabled = \<not> evalEnabled E w;
         w = (if evalIsDisabled then setEvalEnabled E True w else w);
         (resultValue, w) = engine_call E function w;
         w = (if evalIsDisabled then setEvalEnabled E False w else w)
     in (resultValue, w))"

definition maxDepth :: nat where
  "maxDepth = 1000"

definition too_long_chain :: json where
  "too_long_chain =
    JSONString (lit ''Object has too long reference chain(must not be longer than '' @
      numberToStringImpl_digits maxDepth @ lit '')'')"

text \<open>The access check of a worker always succeeds.\<close>

definition canAccessInspectedWorkerGlobalScope :: bool where
  "canAccessInspectedWorkerGlobalScope = True"

definition makeCall :: "'w script_engine \<Rightarrow> bool \<Rightarrow> script_call \<Rightarrow> 'w \<Rightarrow> json option \<times> 'w" where
  "makeCall E isEmpty function w =
    (if isEmpty \<or> \<not> canAccessInspectedWorkerGlobalScope then (Some JSONNull, w)
     else case callFunctionWithEvalEnabled E function w of
       (Threw _, w) \<Rightarrow> (Some (JSONString (lit ''Exception while making a call.'')), w)
     | (Returned (Some v), w) \<Rightarrow> (Some v, w)
     | (Returned None, w) \<Rightarrow> (Some too_long_chain, w))"

definition getNumber_or_zero :: "json_object \<Rightarrow> wstr \<Rightarrow> int" where
  "getNumber_or_zero ob name = (case getNumber_int ob name of None \<Rightarrow> 0 | Some n \<Rightarrow> n)"

definition exception_frame :: "json_object \<Rightarrow> json" where
  "exception_frame stackFrame =
    JSONObject
      (setValue (lit ''columnNumber'') (number_json (getNumber_or_zero stackFrame (lit ''column'')))
      (setValue (lit ''lineNumber'') (number_json (getNumber_or_zero stackFrame (lit ''lineNumber'')))
      (setString (lit ''url'') (nonnull (getString stackFrame (lit ''scriptNameOrSourceURL'')))
      (setString (lit ''scriptId'') (numberToStringSigned (word_of_int (getNumber_or_zero stackFrame (lit ''scriptId''))))
      (setString (lit ''functionName'') (nonnull (getString stackFrame (lit ''functionName''))) emptyObject)))))"

fun exception_frames :: "json list \<Rightarrow> json list cxx" where
  "exception_frames [] = Val []"
| "exception_frames (v # vs) =
    (case asObject v of
       None \<Rightarrow> UB
     | Some stackFrame \<Rightarrow> bind_cxx (exception_frames vs) (\<lambda>fs. Val (exception_frame stackFrame # fs)))"

definition toExceptionDetails :: "json_object \<Rightarrow> json_object option cxx" where
  "toExceptionDetails ob =
    (case getString ob (lit ''text'') of
       None \<Rightarrow> Val None
     | Some txt \<Rightarrow>
         (let details = setString (lit ''text'') txt emptyObject;
              details = (case getString ob (lit ''url'') of None \<Rightarrow> details | Some url \<Rightarrow> setString (lit ''url'') url details);
              details = (case getNumber_int ob (lit ''line'') of None \<Rightarrow> details
                         | Some line \<Rightarrow> setValue (lit ''line'') (number_json line) details);
              details = (case getNumber_int ob (lit ''column'') of None \<Rightarrow> details
                         | Some column \<Rightarrow> setValue (lit ''column'') (number_json column) details);
              originScriptId = getNumber_or_zero ob (lit ''scriptId'')
          in case getArray ob (lit ''stackTrace'') of
               Some (v # vs) \<Rightarrow>
                 bind_cxx (exception_frames (v # vs)) (\<lambda>frames.
                   let originScriptId =
                         (case asObject v of
                            Some stackFrame \<Rightarrow>
                              (if getNumber_or_zero stackFrame (lit ''scriptId'') = originScriptId then 0 else originScriptId)
                          | None \<Rightarrow> originScriptId);
                       details = setArray (lit ''stackTrace'') frames details
                   in Val (Some (if originScriptId \<noteq> 0
                      then setString (lit ''scriptId'') (numberToStringSigned (word_of_int originScriptId)) details
                      else details)))
             | _ \<Rightarrow>
                 Val (Some (if originScriptId \<noteq> 0
                      then setString (lit ''scriptId'') (numberToStringSigned (word_of_int originScriptId)) details
                      else details))))"

record eval_result =
  er_result :: json_object
  er_wasThrown :: bool
  er_exceptionDetails :: "json_object option"

text \<open>
  \<open>wantDetails\<close> says whether the caller passed a place for the exception details;
  without one, details are stored through a null pointer.
\<close>

definition makeEvalCall ::
  "'w script_engine \<Rightarrow> bool \<Rightarrow> bool \<Rightarrow> script_call \<Rightarrow> 'w \<Rightarrow> ((wstr + eval_result) \<times> 'w) cxx" where
  "makeEvalCall E isEmpty wantDetails function w =
    (case makeCall E isEmpty function w of
       (None, w) \<Rightarrow> Val (Inl (lit ''Internal error: result value is empty''), w)
     | (Some result, w) \<Rightarrow>
         (case asString result of
            Some errorString \<Rightarrow> Val (Inl errorString, w)
          | None \<Rightarrow>
              (case asObject result of
                 None \<Rightarrow> Val (Inl (lit ''Internal error: result is not an Object''), w)
               | Some resultPair \<Rightarrow>
                   (case (getObject resultPair (lit ''result''), getBoolean resultPair (lit ''wasThrown'')) of
                      (Some resultObj, Some wasThrown) \<Rightarrow>
                        bind_cxx
                          (if wasThrown
                           then (case getObject resultPair (lit ''exceptionDetails'') of
                                   None \<Rightarrow> Val None
                                 | Some details \<Rightarrow> (if wantDetails then toExceptionDetails details else UB))
                           else Val None)
                          (\<lambda>details. Val (Inr \<lparr>er_result = resultObj, er_wasThrown = wasThrown, er_exceptionDetails = details\<rparr>, w))
                    | _ \<Rightarrow>
                        Val (Inl (lit ''Internal error: result is not a pair of value and wasThrown flag''), w)))))"

text \<open>The result of a call that reports its own exceptions: details, or a value.\<close>

definition makeCallWithExceptionDetails :: "'w script_engine \<Rightarrow> script_call \<Rightarrow> 'w \<Rightarrow> (json_object + json option) \<times> 'w" where
  "makeCallWithExceptionDetails E function w =
    (case engine_call E function w of
       (Threw message, w) \<Rightarrow>
         (Inl (setString (lit ''text'') (case message of None \<Rightarrow> lit ''Internal error'' | Some m \<Rightarrow> m) emptyObject), w)
     | (Returned (Some v), w) \<Rightarrow> (Inr (Some v), w)
     | (Returned None, w) \<Rightarrow> (Inr (Some too_long_chain), w))"

section \<open>The injected script\<close>

definition is_evaluate ::
  "'w script_engine \<Rightarrow> bool \<Rightarrow> wstr \<Rightarrow> wstr \<Rightarrow> bool \<Rightarrow> bool \<Rightarrow> bool \<Rightarrow> 'w \<Rightarrow> ((wstr + eval_result) \<times> 'w) cxx" where
  "is_evaluate E isEmpty expression objectGroup includeCommandLineAPI returnByValue generatePreview w =
    makeEvalCall E isEmpty True
      (script_function ''evaluate''
        [ArgString expression, ArgString objectGroup, ArgBool includeCommandLineAPI, ArgBool returnByValue, ArgBool generatePreview]) w"

definition is_callFunctionOn ::
  "'w script_engine \<Rightarrow> bool \<Rightarrow> wstr \<Rightarrow> wstr \<Rightarrow> wstr \<Rightarrow> bool \<Rightarrow> bool \<Rightarrow> 'w \<Rightarrow> ((wstr + eval_result) \<times> 'w) cxx" where
  "is_callFunctionOn E isEmpty objectId expression arguments returnByValue generatePreview w =
    makeEvalCall E isEmpty False
      (script_function ''callFunctionOn''
        [ArgString objectId, ArgString expression, ArgString arguments, ArgBool returnByValue, ArgBool generatePreview]) w"

definition is_evaluateOnCallFrame ::
  "'w script_engine \<Rightarrow> bool \<Rightarrow> v8_value \<Rightarrow> v8_value list \<Rightarrow> wstr \<Rightarrow> wstr \<Rightarrow> wstr \<Rightarrow> bool \<Rightarrow> bool \<Rightarrow> bool \<Rightarrow> 'w
    \<Rightarrow> ((wstr + eval_result) \<times> 'w) cxx" where
  "is_evaluateOnCallFrame E isEmpty callFrames asyncCallStacks callFrameId expression objectGroup includeCommandLineAPI returnByValue generatePreview w =
    makeEvalCall E isEmpty True
      (script_function ''evaluateOnCallFrame''
        [ArgValue callFrames, ArgValues asyncCallStacks, ArgString callFrameId, ArgString expression, ArgString objectGroup,
         ArgBool includeCommandLineAPI, ArgBool returnByValue, ArgBool generatePreview]) w"

text \<open>What the callers make of a returned value.\<close>

definition object_result :: "json option \<Rightarrow> wstr + json_object" where
  "object_result resultValue =
    (case resultValue of
       None \<Rightarrow> Inl (lit ''Internal error'')
     | Some v \<Rightarrow>
         (case asString v of
            Some errorString \<Rightarrow> Inl errorString
          | None \<Rightarrow> (case asObject v of Some ob \<Rightarrow> Inr ob | None \<Rightarrow> Inl (lit ''Internal error''))))"

definition is_restartFrame :: "'w script_engine \<Rightarrow> bool \<Rightarrow> v8_value \<Rightarrow> wstr \<Rightarrow> 'w \<Rightarrow> (wstr + json_object) \<times> 'w" where
  "is_restartFrame E isEmpty callFrames callFrameId w =
    (case makeCall E isEmpty (script_function ''restartFrame'' [ArgValue callFrames, ArgString callFrameId]) w of
       (resultValue, w) \<Rightarrow> (object_result resultValue, w))"

definition is_getStepInPositions :: "'w script_engine \<Rightarrow> bool \<Rightarrow> v8_value \<Rightarrow> wstr \<Rightarrow> 'w \<Rightarrow> (wstr + json list) \<times> 'w" where
  "is_getStepInPositions E isEmpty callFrames callFrameId w =
    (case makeCall E isEmpty (script_function ''getStepInPositions'' [ArgValue callFrames, ArgString callFrameId]) w of
       (None, w) \<Rightarrow> (Inl (lit ''Internal error''), w)
     | (Some v, w) \<Rightarrow>
         (case asString v of
            Some errorString \<Rightarrow> (Inl errorString, w)
          | None \<Rightarrow> (case asArray v of Some positions \<Rightarrow> (Inr positions, w) | None \<Rightarrow> (Inl (lit ''Internal error''), w))))"

definition is_setVariableValue ::
  "'w script_engine \<Rightarrow> bool \<Rightarrow> v8_value \<Rightarrow> wstr option \<Rightarrow> wstr option \<Rightarrow> int \<Rightarrow> wstr \<Rightarrow> wstr \<Rightarrow> 'w \<Rightarrow> (wstr + unit) \<times> 'w" where
  "is_setVariableValue E isEmpty callFrames callFrameIdOpt functionObjectIdOpt scopeNumber variableName newValueStr w =
    (case makeCall E isEmpty
            (script_function ''setVariableValue''
              ((case callFrameIdOpt of
                  Some callFrameId \<Rightarrow> [ArgValue callFrames, ArgString callFrameId]
                | None \<Rightarrow> [ArgBool False, ArgBool False]) @
               (case functionObjectIdOpt of Some functionObjectId \<Rightarrow> [ArgString functionObjectId] | None \<Rightarrow> [ArgBool False]) @
               [ArgInt scopeNumber, ArgString variableName, ArgString newValueStr])) w of
       (None, w) \<Rightarrow> (Inl (lit ''Internal error''), w)
     | (Some v, w) \<Rightarrow> (case asString v of Some errorString \<Rightarrow> (Inl errorString, w) | None \<Rightarrow> (Inr (), w)))"

text \<open>
  The three inspections of an object test the value for null and then use it all
  the same; a null value is a null dereference.
\<close>

definition details_result :: "(json \<Rightarrow> 'a option) \<Rightarrow> json option \<Rightarrow> (wstr + 'a) cxx" where
  "details_result cast resultValue =
    (case resultValue of
       None \<Rightarrow> UB
     | Some v \<Rightarrow>
         (case cast v of
            Some r \<Rightarrow> Val (Inr r)
          | None \<Rightarrow> Val (Inl (case asString v of Some errorString \<Rightarrow> errorString | None \<Rightarrow> lit ''Internal error''))))"

definition is_getFunctionDetails :: "'w script_engine \<Rightarrow> bool \<Rightarrow> wstr \<Rightarrow> 'w \<Rightarrow> (wstr + json_object) cxx \<times> 'w" where
  "is_getFunctionDetails E isEmpty functionId w =
    (case makeCall E isEmpty (script_function ''getFunctionDetails'' [ArgString functionId]) w of
       (resultValue, w) \<Rightarrow> (details_result asObject resultValue, w))"

definition is_getGeneratorObjectDetails :: "'w script_engine \<Rightarrow> bool \<Rightarrow> wstr \<Rightarrow> 'w \<Rightarrow> (wstr + json_object) cxx \<times> 'w" where
  "is_getGeneratorObjectDetails E isEmpty objectId w =
    (case makeCall E isEmpty (script_function ''getGeneratorObjectDetails'' [ArgString objectId]) w of
       (resultValue, w) \<Rightarrow> (details_result asObject resultValue, w))"

definition is_getCollectionEntries :: "'w script_engine \<Rightarrow> bool \<Rightarrow> wstr \<Rightarrow> 'w \<Rightarrow> (wstr + json list) cxx \<times> 'w" where
  "is_getCollectionEntries E isEmpty objectId w =
    (case makeCall E isEmpty (script_function ''getCollectionEntries'' [ArgString objectId]) w of
       (resultValue, w) \<Rightarrow> (details_result asArray resultValue, w))"

text \<open>Properties: an error, or the descriptors together with the exception details, if any.\<close>

definition is_getProperties ::
  "'w script_engine \<Rightarrow> wstr \<Rightarrow> bool \<Rightarrow> bool \<Rightarrow> bool \<Rightarrow> 'w \<Rightarrow> (wstr + json list \<times> json_object option) \<times> 'w" where
  "is_getProperties E objectId ownProperties accessorPropertiesOnly generatePreview w =
    (case makeCallWithExceptionDetails E
            (script_function ''getProperties''
              [ArgString objectId, ArgBool ownProperties, ArgBool accessorPropertiesOnly, ArgBool generatePreview]) w of
       (Inl exceptionDetails, w) \<Rightarrow> (Inr ([], Some exceptionDetails), w)
     | (Inr (Some (JSONArray properties)), w) \<Rightarrow> (Inr (properties, None), w)
     | (Inr _, w) \<Rightarrow> (Inl (lit ''Internal error''), w))"

definition is_getInternalProperties ::
  "'w script_engine \<Rightarrow> wstr \<Rightarrow> 'w \<Rightarrow> (wstr + json list option \<times> json_object option) \<times> 'w" where
  "is_getInternalProperties E objectId w =
    (case makeCallWithExceptionDetails E (script_function ''getInternalProperties'' [ArgString objectId]) w of
       (Inl exceptionDetails, w) \<Rightarrow> (Inr (None, Some exceptionDetails), w)
     | (Inr (Some (JSONArray properties)), w) \<Rightarrow>
         (Inr (if length properties > 0 then Some properties else None, None), w)
     | (Inr _, w) \<Rightarrow> (Inl (lit ''Internal error''), w))"

text \<open>The id of a bound object inside the text the front end uses for it.\<close>

definition bound_id :: "platform \<Rightarrow> wstr \<Rightarrow> int option cxx" where
  "bound_id P objectId =
    bind_cxx (parseJSON P objectId) (\<lambda>parsedObjectId. Val
      (case parsedObjectId of
         None \<Rightarrow> None
       | Some v \<Rightarrow> (case asObject v of None \<Rightarrow> None | Some ob \<Rightarrow> getNumber_int ob (lit ''id''))))"

definition releaseObject :: "platform \<Rightarrow> wstr \<Rightarrow> injected_native \<Rightarrow> injected_native cxx" where
  "releaseObject P objectId n =
    bind_cxx (bound_id P objectId) (\<lambda>boundId. Val (case boundId of None \<Rightarrow> n | Some i \<Rightarrow> unbind i n))"

definition objectIdToObjectGroupName :: "platform \<Rightarrow> wstr \<Rightarrow> injected_native \<Rightarrow> wstr option cxx" where
  "objectIdToObjectGroupName P objectId n =
    bind_cxx (bound_id P objectId) (\<lambda>boundId. Val (case boundId of None \<Rightarrow> None | Some i \<Rightarrow> groupName n i))"

definition wrapCallFrames :: "'w script_engine \<Rightarrow> v8_value \<Rightarrow> int \<Rightarrow> 'w \<Rightarrow> json list \<times> 'w" where
  "wrapCallFrames E callFrames asyncOrdinal w =
    (case callFunctionWithEvalEnabled E
            (script_function ''wrapCallFrames'' [ArgValue callFrames, ArgInt asyncOrdinal]) w of
       (Returned (Some (JSONArray frames)), w) \<Rightarrow> (frames, w)
     | (_, w) \<Rightarrow> ([], w))"

text \<open>\<^verbatim>\<open>toJSONValue(r)->asObject()\<close> dereferences the null pointer a value nested too deeply gives.\<close>

definition wrap_result :: "call_result \<times> 'w \<Rightarrow> json_object option cxx \<times> 'w" where
  "wrap_result r =
    (case r of
       (Threw _, w) \<Rightarrow> (Val None, w)
     | (Returned None, w) \<Rightarrow> (UB, w)
     | (Returned (Some v), w) \<Rightarrow> (Val (asObject v), w))"

definition wrapObject :: "'w script_engine \<Rightarrow> v8_value \<Rightarrow> wstr \<Rightarrow> bool \<Rightarrow> 'w \<Rightarrow> json_object option cxx \<times> 'w" where
  "wrapObject E v objectGroup generatePreview w =
    wrap_result (callFunctionWithEvalEnabled E
      (script_function ''wrapObject''
        [ArgValue v, ArgString objectGroup, ArgBool canAccessInspectedWorkerGlobalScope, ArgBool generatePreview]) w)"

definition wrapTable :: "'w script_engine \<Rightarrow> v8_value \<Rightarrow> v8_value option \<Rightarrow> 'w \<Rightarrow> json_object option cxx \<times> 'w" where
  "wrapTable E table columns w =
    wrap_result (callFunctionWithEvalEnabled E
      (script_function ''wrapTable''
        [ArgBool canAccessInspectedWorkerGlobalScope, ArgValue table,
         case columns of None \<Rightarrow> ArgBool False | Some c \<Rightarrow> ArgValue c]) w)"

definition is_releaseObjectGroup :: "'w script_engine \<Rightarrow> wstr \<Rightarrow> injected_native \<Rightarrow> 'w \<Rightarrow> injected_native \<times> 'w" where
  "is_releaseObjectGroup E objectGroup n w =
    (let n = native_releaseObjectGroup objectGroup n
     in if objectGroup = lit ''console''
        then (n, snd (callFunctionWithEvalEnabled E (script_function ''clearLastEvaluationResult'' []) w))
        else (n, w))"

definition is_setCustomObjectFormatterEnabled :: "'w script_engine \<Rightarrow> bool \<Rightarrow> bool \<Rightarrow> 'w \<Rightarrow> 'w" where
  "is_setCustomObjectFormatterEnabled E isEmpty enabled w =
    snd (makeCall E isEmpty (script_function ''setCustomObjectFormatterEnabled'' [ArgBool enabled]) w)"

section \<open>The scripts of all contexts\<close>

text \<open>
  One injected script per script state (a handle).  \<open>create_script\<close> stands for
  \<^verbatim>\<open>createInjectedScript\<close>, which compiles and runs the source in the context; it says
  whether the resulting object is empty.
\<close>

record injected_script =
  is_empty :: bool
  m_native :: injected_native

record injected_manager =
  m_nextInjectedScriptId :: int
  m_idToInjectedScript :: "(int, injected_script) hmap"
  m_scriptStateToId :: "(nat, int) hmap"
  m_customObjectFormatterEnabled :: bool

definition empty_script :: injected_script where
  "empty_script = \<lparr>is_empty = True, m_native = new_native\<rparr>"

definition createForWorker :: injected_manager where
  "createForWorker =
    \<lparr>m_nextInjectedScriptId = 1, m_idToInjectedScript = [], m_scriptStateToId = [], m_customObjectFormatterEnabled = False\<rparr>"

definition injectedScriptIdFor :: "nat \<Rightarrow> injected_manager \<Rightarrow> int \<times> injected_manager" where
  "injectedScriptIdFor scriptState m =
    (case hget (m_scriptStateToId m) scriptState of
       Some i \<Rightarrow> (i, m)
     | None \<Rightarrow>
         (m_nextInjectedScriptId m,
          m\<lparr>m_nextInjectedScriptId := m_nextInjectedScriptId m + 1,
            m_scriptStateToId := hset scriptState (m_nextInjectedScriptId m) (m_scriptStateToId m)\<rparr>))"

type_synonym 'w script_factory = "nat \<Rightarrow> int \<Rightarrow> 'w \<Rightarrow> bool \<times> 'w"

definition injectedScriptFor ::
  "'w script_engine \<Rightarrow> 'w script_factory \<Rightarrow> nat \<Rightarrow> injected_manager \<Rightarrow> 'w \<Rightarrow> injected_script \<times> injected_manager \<times> 'w" where
  "injectedScriptFor E create_script scriptState m w =
    (case Option.bind (hget (m_scriptStateToId m) scriptState) (hget (m_idToInjectedScript m)) of
       Some script \<Rightarrow> (script, m, w)
     | None \<Rightarrow>
         (if \<not> canAccessInspectedWorkerGlobalScope then (empty_script, m, w)
          else let (i, m) = injectedScriptIdFor scriptState m;
                   (isEmpty, w) = create_script scriptState i w;
                   result = \<lparr>is_empty = isEmpty, m_native = new_native\<rparr>;
                   w = (if m_customObjectFormatterEnabled m
                        then is_setCustomObjectFormatterEnabled E isEmpty True w else w)
               in (result, m\<lparr>m_idToInjectedScript := hset i result (m_idToInjectedScript m)\<rparr>, w)))"

definition injectedScriptForId ::
  "'w script_engine \<Rightarrow> 'w script_factory \<Rightarrow> int \<Rightarrow> injected_manager \<Rightarrow> 'w \<Rightarrow> injected_script \<times> injected_manager \<times> 'w" where
  "injectedScriptForId E create_script i m w =
    (case hget (m_idToInjectedScript m) i of
       Some script \<Rightarrow> (script, m, w)
     | None \<Rightarrow>
         (case List.find (\<lambda>(scriptState, j). j = i) (m_scriptStateToId m) of
            Some (scriptState, _) \<Rightarrow> injectedScriptFor E create_script scriptState m w
          | None \<Rightarrow> (empty_script, m, w)))"

text \<open>The key is converted from \<^verbatim>\<open>long\<close> to \<^verbatim>\<open>int\<close> by the lookup.\<close>

definition injectedScriptForObjectId :: "platform \<Rightarrow> wstr \<Rightarrow> injected_manager \<Rightarrow> injected_script cxx" where
  "injectedScriptForObjectId P objectId m =
    bind_cxx (parseJSON P objectId) (\<lambda>parsedObjectId. Val
      (case Option.bind (Option.bind parsedObjectId asObject) (\<lambda>ob. getNumber_long ob (lit ''injectedScriptId'')) of
         None \<Rightarrow> empty_script
       | Some injectedScriptId \<Rightarrow>
           (case hget (m_idToInjectedScript m) (sint (word_of_int injectedScriptId :: 32 word)) of
              None \<Rightarrow> empty_script
            | Some script \<Rightarrow> script)))"

definition discardInjectedScripts :: "injected_manager \<Rightarrow> injected_manager" where
  "discardInjectedScripts m = m\<lparr>m_idToInjectedScript := [], m_scriptStateToId := []\<rparr>"

definition discardInjectedScriptFor :: "nat \<Rightarrow> injected_manager \<Rightarrow> injected_manager" where
  "discardInjectedScriptFor scriptState m =
    (case hget (m_scriptStateToId m) scriptState of
       None \<Rightarrow> m
     | Some i \<Rightarrow>
         m\<lparr>m_idToInjectedScript := hremove i (m_idToInjectedScript m),
           m_scriptStateToId := hremove scriptState (m_scriptStateToId m)\<rparr>)"

definition release_in_script :: "'w script_engine \<Rightarrow> wstr \<Rightarrow> injected_manager \<times> 'w \<Rightarrow> int \<Rightarrow> injected_manager \<times> 'w" where
  "release_in_script E objectGroup mw key =
    (case mw of (m, w) \<Rightarrow>
      (case hget (m_idToInjectedScript m) key of
         None \<Rightarrow> (m, w)
       | Some script \<Rightarrow>
           (case is_releaseObjectGroup E objectGroup (m_native script) w of
              (n, w) \<Rightarrow> (m\<lparr>m_idToInjectedScript := hset key (script\<lparr>m_native := n\<rparr>) (m_idToInjectedScript m)\<rparr>, w))))"

definition manager_releaseObjectGroup :: "'w script_engine \<Rightarrow> wstr \<Rightarrow> injected_manager \<Rightarrow> 'w \<Rightarrow> injected_manager \<times> 'w" where
  "manager_releaseObjectGroup E objectGroup m w =
    foldl (release_in_script E objectGroup) (m, w) (hkeys (m_idToInjectedScript m))"

definition manager_setCustomObjectFormatterEnabled :: "'w script_engine \<Rightarrow> bool \<Rightarrow> injected_manager \<Rightarrow> 'w \<Rightarrow> injected_manager \<times> 'w" where
  "manager_setCustomObjectFormatterEnabled E enabled m w =
    (m\<lparr>m_customObjectFormatterEnabled := enabled\<rparr>,
     foldl (\<lambda>w (i, script). if \<not> is_empty script then is_setCustomObjectFormatterEnabled E (is_empty script) enabled w else w)
       w (m_idToInjectedScript m))"

section \<open>Groups hold exactly their objects\<close>

text \<open>
  As long as the counter has not wrapped, ids are fresh: an id of a group is
  either an object of this group or was released.
\<close>

definition native_ok :: "injected_native \<Rightarrow> bool" where
  "native_ok n \<longleftrightarrow>
    0 < sint (m_lastBoundObjectId n) \<and>
    (\<forall>i v. hget (m_idToWrappedObject n) i = Some v \<longrightarrow> 0 < i \<and> i < sint (m_lastBoundObjectId n)) \<and>
    (\<forall>i g. hget (m_idToObjectGroupName n) i = Some g \<longrightarrow>
      0 < i \<and> i < sint (m_lastBoundObjectId n) \<and> g \<noteq> [] \<and>
      (\<exists>ids. hget (m_nameToObjectGroup n) g = Some ids \<and> i \<in> set ids)) \<and>
    (\<forall>g ids i. hget (m_nameToObjectGroup n) g = Some ids \<longrightarrow> i \<in> set ids \<longrightarrow>
      i < sint (m_lastBoundObjectId n) \<and>
      (hget (m_idToObjectGroupName n) i = Some g \<or>
       hget (m_idToObjectGroupName n) i = None \<and> hget (m_idToWrappedObject n) i = None))"

lemma new_native_ok: "native_ok new_native"
  by (simp add: native_ok_def new_native_def)

lemma native_bind_eq:
  assumes "native_ok n"
  shows "native_bind v g n =
    (sint (m_lastBoundObjectId n),
     addObjectToGroup (sint (m_lastBoundObjectId n)) g
       (n\<lparr>m_lastBoundObjectId := m_lastBoundObjectId n + 1,
          m_idToWrappedObject := hset (sint (m_lastBoundObjectId n)) v (m_idToWrappedObject n)\<rparr>))"
  using assms by (simp add: native_bind_def native_ok_def Let_def)

lemma native_lookups [simp]:
  "objectForId (addObjectToGroup i g n) j = objectForId n j"
  "objectForId (n\<lparr>m_lastBoundObjectId := w\<rparr>) j = objectForId n j"
  "objectForId (n\<lparr>m_idToWrappedObject := m\<rparr>) j = hget m j"
  "objectForId (unbind i n) j = (if j = i then None else objectForId n j)"
  "groupName (unbind i n) j = (if j = i then None else groupName n j)"
  "m_nameToObjectGroup (unbind i n) = m_nameToObjectGroup n"
  "m_lastBoundObjectId (unbind i n) = m_lastBoundObjectId n"
  by (auto simp: objectForId_def groupName_def addObjectToGroup_def unbind_def)

lemma native_ok_last: "native_ok n \<Longrightarrow> 0 < sint (m_lastBoundObjectId n)"
  by (simp add: native_ok_def)

lemma native_ok_wrapped:
  "native_ok n \<Longrightarrow> hget (m_idToWrappedObject n) i = Some v \<Longrightarrow> 0 < i \<and> i < sint (m_lastBoundObjectId n)"
  unfolding native_ok_def by blast

lemma native_ok_named:
  "native_ok n \<Longrightarrow> hget (m_idToObjectGroupName n) i = Some g \<Longrightarrow>
   0 < i \<and> i < sint (m_lastBoundObjectId n) \<and> g \<noteq> [] \<and> (\<exists>ids. hget (m_nameToObjectGroup n) g = Some ids \<and> i \<in> set ids)"
  unfolding native_ok_def by blast

lemma native_ok_member:
  "native_ok n \<Longrightarrow> hget (m_nameToObjectGroup n) g = Some ids \<Longrightarrow> i \<in> set ids \<Longrightarrow>
   i < sint (m_lastBoundObjectId n) \<and>
   (hget (m_idToObjectGroupName n) i = Some g \<or>
    hget (m_idToObjectGroupName n) i = None \<and> hget (m_idToWrappedObject n) i = None)"
  unfolding native_ok_def by blast

lemma native_ok_group_eq: "native_ok n \<Longrightarrow> groupName n i = hget (m_idToObjectGroupName n) i"
  by (cases "hget (m_idToObjectGroupName n) i") (auto simp: groupName_def dest: native_ok_named)

lemma native_fresh:
  assumes "native_ok n"
  shows "hget (m_idToWrappedObject n) (sint (m_lastBoundObjectId n)) = None"
    and "hget (m_idToObjectGroupName n) (sint (m_lastBoundObjectId n)) = None"
  using native_ok_wrapped [OF assms] native_ok_named [OF assms] by (metis less_irrefl not_None_eq)+


lemma foldl_unbind:
  "objectForId (foldl (\<lambda>n i. unbind i n) n ids) j = (if j \<in> set ids then None else objectForId n j)"
  "hget (m_idToObjectGroupName (foldl (\<lambda>n i. unbind i n) n ids)) j =
     (if j \<in> set ids then None else hget (m_idToObjectGroupName n) j)"
  "m_nameToObjectGroup (foldl (\<lambda>n i. unbind i n) n ids) = m_nameToObjectGroup n"
  "m_lastBoundObjectId (foldl (\<lambda>n i. unbind i n) n ids) = m_lastBoundObjectId n"
  by (induction ids arbitrary: n) (auto simp: unbind_def objectForId_def)

text \<open>
  C14: releasing a group unbinds exactly the objects of this group: they are
  gone, every other object can still be reached, and the bookkeeping stays
  consistent, even if some objects of the group were released one by one before.
\<close>

theorem release_group_exact:
  assumes "native_ok n" "g \<noteq> []"
  shows "native_ok (native_releaseObjectGroup g n) \<and>
    objectForId (native_releaseObjectGroup g n) i = (if groupName n i = Some g then None else objectForId n i)"
proof (cases "hget (m_nameToObjectGroup n) g")
  case None
  hence "groupName n i \<noteq> Some g"
    using native_ok_named [OF assms(1), of i g] by (auto simp: native_ok_group_eq [OF assms(1)])
  thus ?thesis using None assms by (simp add: native_releaseObjectGroup_def)
next
  case (Some ids)
  let ?n = "foldl (\<lambda>n i. unbind i n) n ids"
  have eq: "native_releaseObjectGroup g n = ?n\<lparr>m_nameToObjectGroup := hremove g (m_nameToObjectGroup n)\<rparr>"
    using Some assms(2) by (simp add: native_releaseObjectGroup_def foldl_unbind Let_def)
  have wrapped: "hget (m_idToWrappedObject ?n) j = (if j \<in> set ids then None else hget (m_idToWrappedObject n) j)" for j
    using foldl_unbind(1) [of n ids j] by (simp add: objectForId_def)
  have "native_ok (native_releaseObjectGroup g n)"
    using assms(1) Some unfolding eq native_ok_def
    by (simp add: wrapped foldl_unbind(2,4)) (metis option.sel option.distinct(1))
  moreover have "i \<in> set ids \<and> objectForId n i \<noteq> None \<longleftrightarrow> groupName n i = Some g \<and> objectForId n i \<noteq> None"
    using assms(1) Some unfolding native_ok_group_eq [OF assms(1)] native_ok_def objectForId_def
    by (metis option.sel)
  ultimately show ?thesis
    using wrapped by (auto simp: eq objectForId_def)
qed

definition sample_native :: injected_native where
  "sample_native = snd (native_bind 5 (lit ''watch'') (snd (native_bind 4 (lit ''console'') new_native)))"

lemma sample_native_eq:
  "sample_native =
    \<lparr>m_lastBoundObjectId = 3, m_idToWrappedObject = [(1, 4), (2, 5)],
     m_idToObjectGroupName = [(1, lit ''console''), (2, lit ''watch'')],
     m_nameToObjectGroup = [(lit ''console'', [1]), (lit ''watch'', [2])]\<rparr>"
  by (simp add: sample_native_def new_native_def native_bind_def addObjectToGroup_def hset_def hget_def lit_simps Let_def)

lemma sample_native_ok: "native_ok sample_native"
  by (auto simp: native_ok_def sample_native_eq hget_def lit_simps split: if_splits)


theorem release_group_exact_witness:
  "objectForId (native_releaseObjectGroup (lit ''watch'') sample_native) 2 = None \<and>
   objectForId (native_releaseObjectGroup (lit ''watch'') sample_native) 1 = Some 4"
  using release_group_exact [OF sample_native_ok, where g = "lit ''watch''" and i = 2]
    release_group_exact [OF sample_native_ok, where g = "lit ''watch''" and i = 1]
  by (simp add: sample_native_eq groupName_def objectForId_def hget_def lit_simps)

section \<open>Evaluation stays as enabled as it was\<close>

text \<open>What the inspector relies on: a script call leaves the flag of its context alone.\<close>

definition keeps_eval_flag :: "'w script_engine \<Rightarrow> bool" where
  "keeps_eval_flag E \<longleftrightarrow>
    (\<forall>b w. evalEnabled E (setEvalEnabled E b w) = b) \<and>
    (\<forall>c w. evalEnabled E (snd (engine_call E c w)) = evalEnabled E w)"

lemma callFunctionWithEvalEnabled_flag:
  "keeps_eval_flag E \<Longrightarrow> evalEnabled E (snd (callFunctionWithEvalEnabled E f w)) = evalEnabled E w"
  by (auto simp: callFunctionWithEvalEnabled_def keeps_eval_flag_def Let_def case_prod_beta)

lemma makeCall_flag: "keeps_eval_flag E \<Longrightarrow> evalEnabled E (snd (makeCall E e f w)) = evalEnabled E w"
  using callFunctionWithEvalEnabled_flag [of E f w]
  by (auto simp: makeCall_def split: prod.splits call_result.splits option.splits)

lemma script_worlds:
  "snd (wrapCallFrames E frames ordinal w) =
     snd (callFunctionWithEvalEnabled E (script_function ''wrapCallFrames'' [ArgValue frames, ArgInt ordinal]) w)"
  "snd (wrap_result r) = snd r"
  "snd (makeCallWithExceptionDetails E f w) = snd (engine_call E f w)"
  "snd (is_getProperties E object own accessors p w) =
     snd (makeCallWithExceptionDetails E
       (script_function ''getProperties'' [ArgString object, ArgBool own, ArgBool accessors, ArgBool p]) w)"
  by (auto simp: wrapCallFrames_def wrap_result_def makeCallWithExceptionDetails_def is_getProperties_def
      split: prod.splits call_result.splits option.splits json.splits sum.splits)

text \<open>
  A context in which evaluation was disabled is left with evaluation
  disabled, and one in which it was enabled with evaluation enabled, by every
  evaluation, inspection and release the injected script performs.
\<close>

lemma eval_flag_restored:
  assumes "keeps_eval_flag E"
  shows "(makeEvalCall E e d f w = Val (r, w') \<longrightarrow> evalEnabled E w' = evalEnabled E w) \<and>
    evalEnabled E (snd (wrapCallFrames E frames ordinal w)) = evalEnabled E w \<and>
    evalEnabled E (snd (wrapObject E v g p w)) = evalEnabled E w \<and>
    evalEnabled E (snd (is_releaseObjectGroup E g n w)) = evalEnabled E w \<and>
    evalEnabled E (snd (is_getProperties E object own accessors p w)) = evalEnabled E w"
proof (intro conjI impI)
  assume call: "makeEvalCall E e d f w = Val (r, w')"
  obtain result w1 where "makeCall E e f w = (result, w1)" by fastforce
  with call makeCall_flag [OF assms, of e f w] show "evalEnabled E w' = evalEnabled E w"
    by (auto simp: makeEvalCall_def bind_cxx_eq_Val split: option.splits)
qed (insert assms, simp_all add: wrapObject_def script_worlds callFunctionWithEvalEnabled_flag is_releaseObjectGroup_def Let_def keeps_eval_flag_def)

lemma eval_flag_restored_witness:
  "let E = \<lparr>engine_call = (\<lambda>c b. (Returned (Some JSONNull), b)), evalEnabled = (\<lambda>b. b), setEvalEnabled = (\<lambda>b w. b)\<rparr>
   in keeps_eval_flag E \<and> evalEnabled E (snd (wrapObject E 3 [] True False)) = False"
proof -
  let ?E = "\<lparr>engine_call = (\<lambda>c b. (Returned (Some JSONNull), b)), evalEnabled = (\<lambda>b. b), setEvalEnabled = (\<lambda>b w. b)\<rparr>"
  have "keeps_eval_flag ?E" by (simp add: keeps_eval_flag_def)
  with eval_flag_restored [OF this, of _ _ _ False] show ?thesis by (simp add: Let_def)
qed

section \<open>One script per context\<close>

definition manager_ok :: "injected_manager \<Rightarrow> bool" where
  "manager_ok m \<longleftrightarrow>
    hmap_ok (m_scriptStateToId m) \<and>
    (\<forall>s i. hget (m_scriptStateToId m) s = Some i \<longrightarrow> 0 < i \<and> i < m_nextInjectedScriptId m) \<and>
    (\<forall>s s' i. hget (m_scriptStateToId m) s = Some i \<longrightarrow> hget (m_scriptStateToId m) s' = Some i \<longrightarrow> s = s') \<and>
    (\<forall>i script. hget (m_idToInjectedScript m) i = Some script \<longrightarrow> (\<exists>s. hget (m_scriptStateToId m) s = Some i)) \<and>
    0 < m_nextInjectedScriptId m"

lemma manager_ok_id:
  assumes "manager_ok m" "injectedScriptIdFor s m = (i, m1)"
  shows "manager_ok m1" "hget (m_scriptStateToId m1) s = Some i"
    "t \<noteq> s \<Longrightarrow> hget (m_scriptStateToId m1) t = hget (m_scriptStateToId m) t"
    "m_idToInjectedScript m1 = m_idToInjectedScript m"
proof -
  have "manager_ok m1 \<and> hget (m_scriptStateToId m1) s = Some i \<and>
      (\<forall>t. t \<noteq> s \<longrightarrow> hget (m_scriptStateToId m1) t = hget (m_scriptStateToId m) t) \<and>
      m_idToInjectedScript m1 = m_idToInjectedScript m"
  proof (cases "hget (m_scriptStateToId m) s")
    case None
    hence eq: "i = m_nextInjectedScriptId m" "m1 = m\<lparr>m_nextInjectedScriptId := m_nextInjectedScriptId m + 1,
        m_scriptStateToId := hset s (m_nextInjectedScriptId m) (m_scriptStateToId m)\<rparr>"
      using assms(2) by (auto simp: injectedScriptIdFor_def)
    have "hget (m_scriptStateToId m) t \<noteq> Some (m_nextInjectedScriptId m)" for t
      using assms(1) by (auto simp: manager_ok_def)
    with assms(1) None have "manager_ok m1" unfolding eq manager_ok_def
      by (auto split: if_splits) (blast intro: less_imp_le, metis option.distinct(1))
    thus ?thesis by (simp add: eq)
  qed (use assms in \<open>auto simp: injectedScriptIdFor_def\<close>)
  thus "manager_ok m1" "hget (m_scriptStateToId m1) s = Some i"
    "t \<noteq> s \<Longrightarrow> hget (m_scriptStateToId m1) t = hget (m_scriptStateToId m) t"
    "m_idToInjectedScript m1 = m_idToInjectedScript m" by blast+
qed



end
