(* ===== verification/Promise_Tracker.thy ===== *)
theory Promise_Tracker
  imports JSON_Roundtrip
begin

text \<open>
  Captured call stacks (\<^verbatim>\<open>ScriptCallStack.cpp\<close>, \<^verbatim>\<open>ScriptCallFrame.cpp\<close>,
  \<^verbatim>\<open>ScriptAsyncCallStack.cpp\<close>) and the tracker of promises (\<^verbatim>\<open>PromiseTracker.cpp\<close>), all
  under \<^verbatim>\<open>Source/core/inspector\<close>.  The tracker is a state machine over the events of
  the front end, of V8 and of the garbage collector.
\<close>

section \<open>Call stacks\<close>

record ScriptCallFrame =
  m_functionName :: wstr
  m_scriptId :: wstr
  m_scriptName :: wstr
  m_lineNumber :: "32 word"
  m_column :: "32 word"

datatype ScriptCallStack = ScriptCallStack (m_frames: "ScriptCallFrame list") (m_asyncCallStack: "ScriptAsyncCallStack option")
and ScriptAsyncCallStack =
  ScriptAsyncCallStack (m_description: wstr) (m_callStack: ScriptCallStack) (m_asyncStackTrace: "ScriptAsyncCallStack option")

definition frame_buildInspectorObject :: "ScriptCallFrame \<Rightarrow> json_object" where
  "frame_buildInspectorObject f =
    setValue (lit ''columnNumber'') (number_json (sint (m_column f)))
      (setValue (lit ''lineNumber'') (number_json (sint (m_lineNumber f)))
      (setString (lit ''url'') (m_scriptName f)
      (setString (lit ''scriptId'') (m_scriptId f)
      (setString (lit ''functionName'') (m_functionName f) emptyObject))))"

definition buildInspectorArray :: "ScriptCallStack \<Rightarrow> json list" where
  "buildInspectorArray s = map (\<lambda>f. JSONObject (frame_buildInspectorObject f)) (m_frames s)"

fun async_buildInspectorObject :: "ScriptAsyncCallStack \<Rightarrow> json_object" where
  "async_buildInspectorObject (ScriptAsyncCallStack description callStack asyncStackTrace) =
    (let result = setString (lit ''description'') description
           (setArray (lit ''callFrames'') (buildInspectorArray callStack) emptyObject)
     in case asyncStackTrace of
          None \<Rightarrow> result
        | Some s \<Rightarrow> setObject (lit ''asyncStackTrace'') (async_buildInspectorObject s) result)"

section \<open>Promises and their ids\<close>

text \<open>
  A promise is a handle.  Both maps hold it weakly: a collected promise leaves
  them, and whenever an entry leaves \<^verbatim>\<open>m_idToPromise\<close> (collected, cleared, or
  replaced) the destructor of its callback data reports the id.
\<close>

datatype EventType = New | Update | Gc

record promise_tracker =
  m_circularSequentialId :: "32 word"
  m_isEnabled :: bool
  m_captureStacks :: bool
  m_promiseToId :: "(nat, int) hmap"
  m_idToPromise :: "(int, nat) hmap"

type_synonym promise_events = "(EventType \<times> json_object) list"

definition promise_details :: "int \<Rightarrow> json_object" where
  "promise_details i = setValue (lit ''id'') (number_json i) emptyObject"

definition gc_event :: "int \<Rightarrow> EventType \<times> json_object" where
  "gc_event i = (Gc, promise_details i)"

definition tracker_clear :: "promise_tracker \<Rightarrow> promise_events \<times> promise_tracker" where
  "tracker_clear t = (map gc_event (hkeys (m_idToPromise t)), t\<lparr>m_promiseToId := [], m_idToPromise := []\<rparr>)"

definition new_tracker :: promise_tracker where
  "new_tracker = \<lparr>m_circularSequentialId = 0, m_isEnabled = False, m_captureStacks = False, m_promiseToId = [], m_idToPromise = []\<rparr>"

definition tracker_setEnabled :: "bool \<Rightarrow> bool \<Rightarrow> promise_tracker \<Rightarrow> promise_events \<times> promise_tracker" where
  "tracker_setEnabled enabled captureStacks t =
    (let t = t\<lparr>m_isEnabled := enabled, m_captureStacks := captureStacks\<rparr>
     in if \<not> enabled then tracker_clear t else ([], t))"

definition circularSequentialId :: "promise_tracker \<Rightarrow> int \<times> promise_tracker" where
  "circularSequentialId t =
    (let n = m_circularSequentialId t + 1;
         n = (if sint n \<le> 0 then 1 else n)
     in (sint n, t\<lparr>m_circularSequentialId := n\<rparr>))"

definition promiseId :: "nat \<Rightarrow> promise_tracker \<Rightarrow> int \<times> bool \<times> promise_events \<times> promise_tracker" where
  "promiseId promise t =
    (case hget (m_promiseToId t) promise of
       Some i \<Rightarrow> (i, False, [], t)
     | None \<Rightarrow>
         (let (i, t) = circularSequentialId t;
              replaced = (if hcontains (m_idToPromise t) i then [gc_event i] else [])
          in (i, True, replaced,
              t\<lparr>m_promiseToId := hset promise i (m_promiseToId t), m_idToPromise := hset i promise (m_idToPromise t)\<rparr>)))"

definition status_name :: "int \<Rightarrow> wstr" where
  "status_name status = (if status = 0 then lit ''pending'' else if status = 1 then lit ''resolved'' else lit ''rejected'')"

text \<open>
  \<open>stack\<close> is the stack \<^verbatim>\<open>createScriptCallStack\<close> captured, if any, and \<open>now\<close> the time.
  An id for an unknown parent is taken without an event of its own.
\<close>

definition add_async :: "string \<Rightarrow> ScriptCallStack \<Rightarrow> json_object \<Rightarrow> json_object" where
  "add_async name stack ob =
    (case m_asyncCallStack stack of None \<Rightarrow> ob | Some s \<Rightarrow> setObject (lit name) (async_buildInspectorObject s) ob)"

definition describe_new :: "bool \<Rightarrow> double \<Rightarrow> ScriptCallStack option \<Rightarrow> json_object \<Rightarrow> json_object" where
  "describe_new captureStacks now stack ob =
    (let ob = setNumber (lit ''creationTime'') now ob
     in case stack of
          None \<Rightarrow> ob
        | Some s \<Rightarrow>
            (case m_frames s of
               [] \<Rightarrow> ob
             | f # fs \<Rightarrow>
                 (let ob = setObject (lit ''callFrame'') (frame_buildInspectorObject f) ob
                  in if captureStacks
                     then add_async ''asyncCreationStack'' s (setArray (lit ''creationStack'') (buildInspectorArray s) ob)
                     else ob)))"

definition describe_settled :: "bool \<Rightarrow> double \<Rightarrow> ScriptCallStack option \<Rightarrow> json_object \<Rightarrow> json_object" where
  "describe_settled captureStacks now stack ob =
    (let ob = setNumber (lit ''settlementTime'') now ob
     in if captureStacks
        then (case stack of
                None \<Rightarrow> ob
              | Some s \<Rightarrow>
                  (if m_frames s = [] then ob
                   else add_async ''asyncSettlementStack'' s (setArray (lit ''settlementStack'') (buildInspectorArray s) ob)))
        else ob)"

definition didReceiveV8PromiseEvent ::
  "nat \<Rightarrow> nat option \<Rightarrow> int \<Rightarrow> double \<Rightarrow> ScriptCallStack option \<Rightarrow> promise_tracker \<Rightarrow> promise_events \<times> promise_tracker" where
  "didReceiveV8PromiseEvent promise parentPromise status now stack t =
    (case promiseId promise t of (i, isNewPromise, evs, t) \<Rightarrow>
      let details = setString (lit ''status'') (status_name status) (promise_details i);
          eventType = (if isNewPromise then New else Update)
      in case parentPromise of
           Some parent \<Rightarrow>
             (case promiseId parent t of (parentId, _, evs', t) \<Rightarrow>
               (evs @ evs' @ [(eventType, setValue (lit ''parentId'') (number_json parentId) details)], t))
         | None \<Rightarrow>
             (let details =
                    (if status = 0 then (if isNewPromise then describe_new (m_captureStacks t) now stack details else details)
                     else describe_settled (m_captureStacks t) now stack details)
              in (evs @ [(eventType, details)], t)))"

definition promiseById :: "promise_tracker \<Rightarrow> int \<Rightarrow> nat option" where
  "promiseById t i = hget (m_idToPromise t) i"

text \<open>The weak callback for a collected promise.\<close>

definition promise_collected :: "nat \<Rightarrow> promise_tracker \<Rightarrow> promise_events \<times> promise_tracker" where
  "promise_collected promise t =
    (case hget (m_promiseToId t) promise of
       None \<Rightarrow> ([], t)
     | Some i \<Rightarrow>
         ([gc_event i], t\<lparr>m_promiseToId := hremove promise (m_promiseToId t), m_idToPromise := hremove i (m_idToPromise t)\<rparr>))"

section \<open>Ids and promises correspond\<close>

definition tracker_ok :: "promise_tracker \<Rightarrow> bool" where
  "tracker_ok t \<longleftrightarrow>
    (\<forall>p i. hget (m_promiseToId t) p = Some i \<longleftrightarrow> hget (m_idToPromise t) i = Some p) \<and>
    (\<forall>p i. hget (m_promiseToId t) p = Some i \<longrightarrow> 0 < i \<and> i \<le> sint (m_circularSequentialId t)) \<and>
    0 \<le> sint (m_circularSequentialId t)"

text \<open>
  What happens to a tracker, counting the promise events: a front end enables or
  disables it, V8 reports an event while it is enabled, a promise is collected.
\<close>

inductive tracker_reach :: "nat \<Rightarrow> promise_tracker \<Rightarrow> bool" where
  init: "tracker_reach 0 new_tracker"
| enable: "tracker_reach n t \<Longrightarrow> tracker_reach n (snd (tracker_setEnabled enabled captureStacks t))"
| event: "tracker_reach n t \<Longrightarrow> m_isEnabled t \<Longrightarrow>
    tracker_reach (Suc n) (snd (didReceiveV8PromiseEvent promise parent status now stack t))"
| collect: "tracker_reach n t \<Longrightarrow> tracker_reach n (snd (promise_collected promise t))"

lemma promiseId_ok:
  assumes "tracker_ok t" "sint (m_circularSequentialId t) < 2 ^ 31 - 1" "promiseId p t = (i, isNew, evs, t')"
  shows "tracker_ok t'" "hget (m_promiseToId t') p = Some i" "evs = []" "isNew \<longleftrightarrow> hget (m_promiseToId t) p = None"
    "sint (m_circularSequentialId t') \<le> sint (m_circularSequentialId t) + 1"
    "q \<noteq> p \<Longrightarrow> hget (m_promiseToId t') q = hget (m_promiseToId t) q"
    "m_captureStacks t' = m_captureStacks t" "m_isEnabled t' = m_isEnabled t"
proof -
  have "tracker_ok t' \<and> hget (m_promiseToId t') p = Some i \<and> evs = [] \<and> (isNew \<longleftrightarrow> hget (m_promiseToId t) p = None) \<and>
    sint (m_circularSequentialId t') \<le> sint (m_circularSequentialId t) + 1 \<and>
    (\<forall>q. q \<noteq> p \<longrightarrow> hget (m_promiseToId t') q = hget (m_promiseToId t) q) \<and>
    m_captureStacks t' = m_captureStacks t \<and> m_isEnabled t' = m_isEnabled t"
  proof (cases "hget (m_promiseToId t) p")
    case None
    let ?i = "sint (m_circularSequentialId t) + 1"
    have nonneg: "0 \<le> sint (m_circularSequentialId t)" using assms(1) by (simp add: tracker_ok_def)
    have free: "hget (m_promiseToId t) q \<noteq> Some ?i" for q
      using assms(1) unfolding tracker_ok_def by (metis less_add_one not_le)
    hence unused: "hget (m_idToPromise t) ?i = None" using assms(1) by (metis not_None_eq tracker_ok_def)
    have eq: "i = ?i" "isNew" "evs = []"
      "t' = t\<lparr>m_circularSequentialId := m_circularSequentialId t + 1,
              m_promiseToId := hset p ?i (m_promiseToId t), m_idToPromise := hset ?i p (m_idToPromise t)\<rparr>"
      using assms(3) None nonneg unused sint_succ [OF assms(2)]
      by (auto simp: promiseId_def circularSequentialId_def hcontains_def Let_def)
    have bij: "hget (m_promiseToId t) q = Some j \<longleftrightarrow> hget (m_idToPromise t) j = Some q"
      and range: "hget (m_promiseToId t) q = Some j \<Longrightarrow> 0 < j \<and> j \<le> sint (m_circularSequentialId t)" for q j
      using assms(1) unfolding tracker_ok_def by blast+
    have "tracker_ok t'"
      unfolding eq tracker_ok_def
    proof (intro conjI allI impI, goal_cases)
      case (1 q j)
      show ?case using bij [of q j] bij [of p j] free [of q] None unused by (auto simp del: not_None_eq)
    next
      case (2 q j)
      thus ?case using range [of q j] nonneg by (auto simp: sint_succ [OF assms(2)] split: if_splits)
    next
      case (3 q j)
      thus ?case using range [of q j] by (auto simp: sint_succ [OF assms(2)] split: if_splits)
    next
      case 4
      thus ?case using nonneg by (simp add: sint_succ [OF assms(2)])
    qed
    thus ?thesis using None sint_succ [OF assms(2)] by (simp add: eq)
  qed (use assms in \<open>auto simp: promiseId_def\<close>)
  thus "tracker_ok t'" "hget (m_promiseToId t') p = Some i" "evs = []" "isNew \<longleftrightarrow> hget (m_promiseToId t) p = None"
    "sint (m_circularSequentialId t') \<le> sint (m_circularSequentialId t) + 1"
    "q \<noteq> p \<Longrightarrow> hget (m_promiseToId t') q = hget (m_promiseToId t) q"
    "m_captureStacks t' = m_captureStacks t" "m_isEnabled t' = m_isEnabled t" by blast+
qed

lemma details_keep_id:
  "getValue (describe_new c now stack ob) (lit ''id'') = getValue ob (lit ''id'')"
  "getValue (describe_settled c now stack ob) (lit ''id'') = getValue ob (lit ''id'')"
  by (auto simp: describe_new_def describe_settled_def add_async_def json_setters lit_inj Let_def
      split: option.splits list.splits)

lemma promise_event_ok:
  assumes "tracker_ok t" "sint (m_circularSequentialId t) < 2 ^ 31 - 2"
    and "didReceiveV8PromiseEvent p parent status now stack t = (evs, t')"
  shows "tracker_ok t'" "sint (m_circularSequentialId t') \<le> sint (m_circularSequentialId t) + 2"
    "\<exists>i details. evs = [(if hget (m_promiseToId t) p = None then New else Update, details)] \<and>
       getValue details (lit ''id'') = Some (number_json i) \<and> promiseById t' i = Some p \<and>
       (hget (m_promiseToId t) p \<noteq> None \<longrightarrow> hget (m_promiseToId t) p = Some i)"
proof -
  obtain i isNew evs1 t1 where first: "promiseId p t = (i, isNew, evs1, t1)" by (metis prod_cases4)
  note one = promiseId_ok [OF assms(1) _ first]
  have kept: "hget (m_promiseToId t) p \<noteq> None \<longrightarrow> hget (m_promiseToId t) p = Some i"
    using first by (auto simp: promiseId_def)
  have "tracker_ok t' \<and> sint (m_circularSequentialId t') \<le> sint (m_circularSequentialId t) + 2 \<and>
    (\<exists>details. evs = [(if hget (m_promiseToId t) p = None then New else Update, details)] \<and>
       getValue details (lit ''id'') = Some (number_json i) \<and> hget (m_promiseToId t') p = Some i)"
  proof (cases parent)
    case None
    thus ?thesis using assms(2,3) first one
      by (auto simp: didReceiveV8PromiseEvent_def Let_def details_keep_id promise_details_def json_setters lit_inj)
  next
    case (Some q)
    obtain j isNew' evs2 t2 where second: "promiseId q t1 = (j, isNew', evs2, t2)" by (metis prod_cases4)
    have "tracker_ok t1" "sint (m_circularSequentialId t1) < 2 ^ 31 - 1" using one(1,5) assms(2) by simp_all
    note two = promiseId_ok [OF this second]
    have "hget (m_promiseToId t2) p = Some i"
      using two(2) two(6) [of p] one(2) assms(2) second by (cases "p = q") (auto simp: promiseId_def)
    thus ?thesis using assms(2,3) first second one two Some
      by (auto simp: didReceiveV8PromiseEvent_def Let_def promise_details_def json_setters lit_inj)
  qed
  with kept show "tracker_ok t'" "sint (m_circularSequentialId t') \<le> sint (m_circularSequentialId t) + 2"
    "\<exists>i details. evs = [(if hget (m_promiseToId t) p = None then New else Update, details)] \<and>
       getValue details (lit ''id'') = Some (number_json i) \<and> promiseById t' i = Some p \<and>
       (hget (m_promiseToId t) p \<noteq> None \<longrightarrow> hget (m_promiseToId t) p = Some i)"
    by (auto simp: promiseById_def tracker_ok_def)
qed

lemma tracker_clear_ok: "tracker_ok t \<Longrightarrow> tracker_ok (snd (tracker_clear t))"
  by (simp add: tracker_clear_def tracker_ok_def)

lemma promise_collected_ok:
  assumes "tracker_ok t"
  shows "tracker_ok (snd (promise_collected p t))"
proof (cases "hget (m_promiseToId t) p")
  case (Some i)
  hence eq: "snd (promise_collected p t) =
      t\<lparr>m_promiseToId := hremove p (m_promiseToId t), m_idToPromise := hremove i (m_idToPromise t)\<rparr>"
    by (simp add: promise_collected_def)
  have both: "(hget (m_promiseToId t) q = Some j \<and> q \<noteq> p) \<longleftrightarrow> (hget (m_idToPromise t) j = Some q \<and> j \<noteq> i)" for q j
    using assms Some unfolding tracker_ok_def by (metis option.inject)
  show ?thesis
    unfolding eq tracker_ok_def
  proof (intro conjI allI impI, goal_cases)
    case (1 q j)
    show ?case using both [of q j] by (cases "q = p"; cases "j = i") auto
  qed (use assms in \<open>auto simp: tracker_ok_def split: if_splits\<close>)
qed (use assms in \<open>simp add: promise_collected_def\<close>)

lemma tracker_reach_ok:
  "tracker_reach n t \<Longrightarrow> n < 2 ^ 30 - 1 \<Longrightarrow> tracker_ok t \<and> sint (m_circularSequentialId t) \<le> 2 * int n"
proof (induction rule: tracker_reach.induct)
  case init
  show ?case by (simp add: tracker_ok_def new_tracker_def)
next
  case (enable n t enabled captureStacks)
  have "tracker_ok (t\<lparr>m_isEnabled := enabled, m_captureStacks := captureStacks\<rparr>)"
    using enable unfolding tracker_ok_def by simp
  with enable tracker_clear_ok [OF this] show ?case
    by (cases enabled) (simp_all add: tracker_setEnabled_def tracker_clear_def Let_def)
next
  case (event n t promise parent status now stack)
  hence ok: "tracker_ok t" "sint (m_circularSequentialId t) < 2 ^ 31 - 2" "sint (m_circularSequentialId t) \<le> 2 * int n"
    by auto
  obtain evs t' where "didReceiveV8PromiseEvent promise parent status now stack t = (evs, t')" by fastforce
  with promise_event_ok(1,2) [OF ok(1,2) this] ok(3) show ?case by simp
next
  case (collect n t promise)
  thus ?case using promise_collected_ok [of t promise] by (auto simp: promise_collected_def split: option.splits)
qed



end
