(* ===== verification/Debugger_Script.thy ===== *)
theory Debugger_Script
  imports Injected_Script Promise_Tracker
begin

text \<open>
  The debugger script that runs inside V8 (bindings/core/v8/DebuggerScript.js) and
  the wrapper of its call frames (core/inspector/JavaScriptCallFrame.cpp): pausing
  on exceptions, breakpoints, the description of scripts, call frames and scopes.
  The natives of V8 are a parameter.
\<close>

section \<open>What V8 provides\<close>

text \<open>
  The natives of V8 that the debugger script calls, on a world of V8's own.  An
  execution state is a handle; without one (\<open>None\<close>) V8 makes one for the call.
\<close>

datatype ScopeType = ScopeGlobal | ScopeLocal | ScopeWith | ScopeClosure | ScopeCatch | ScopeBlock | ScopeScript

record scope_mirror =
  scope_type :: ScopeType
  scope_object :: v8_value
  scope_properties :: "(wstr \<times> v8_value) list"

record frame_mirror =
  fm_resolved :: bool
  fm_displayName :: "wstr option"
  fm_name :: wstr
  fm_inferredName :: wstr
  fm_script :: "(int \<times> wstr option) option"
  fm_location :: "(int \<times> int) option"
  fm_functionLocation :: "(int \<times> int) option"
  fm_isAtReturn :: bool
  fm_returnValue :: v8_value
  fm_receiver :: v8_value
  fm_scopes :: "scope_mirror list"
  fm_fastScopes :: "scope_mirror list"
  fm_stepInPositions :: "(int \<times> int) list option"

record v8_script =
  vs_id :: int
  vs_contextData :: "wstr option"
  vs_nameOrSourceURL :: "wstr option"
  vs_sourceURL :: "wstr option"
  vs_sourceMappingURL :: "wstr option"
  vs_source :: wstr
  vs_lineEnds :: "nat list"
  vs_lineOffset :: int
  vs_columnOffset :: int
  vs_isDebuggerScript :: bool

datatype StepAction = StepOutAction | StepNextAction | StepInAction | StepFrameAction

datatype live_edit = Edited "json option" | CompileFailure wstr wstr int int | EditThrew "wstr option"

record 'w v8_debug =
  dbg_scripts :: "'w \<Rightarrow> v8_script list"
  dbg_setScriptBreakPointById :: "wstr \<Rightarrow> int \<Rightarrow> int \<Rightarrow> wstr \<Rightarrow> bool \<Rightarrow> 'w \<Rightarrow> nat \<times> 'w"
  dbg_actualLocations :: "nat \<Rightarrow> 'w \<Rightarrow> (int \<times> int) list"
  dbg_removeBreakPoint :: "wstr \<Rightarrow> 'w \<Rightarrow> 'w"
  dbg_clearAllBreakPoints :: "'w \<Rightarrow> 'w"
  dbg_breakOnException :: "bool \<Rightarrow> 'w \<Rightarrow> 'w"
  dbg_breakOnUncaughtException :: "bool \<Rightarrow> 'w \<Rightarrow> 'w"
  dbg_breakPointsActive :: "bool \<Rightarrow> 'w \<Rightarrow> 'w"
  dbg_frames :: "nat option \<Rightarrow> 'w \<Rightarrow> frame_mirror list"
  dbg_prepareStep :: "nat \<Rightarrow> StepAction \<Rightarrow> 'w \<Rightarrow> 'w"
  dbg_clearStepping :: "'w \<Rightarrow> 'w"
  dbg_setScriptSource :: "v8_script \<Rightarrow> wstr \<Rightarrow> bool \<Rightarrow> 'w \<Rightarrow> live_edit \<times> 'w"
  js_ToNumber :: "wstr \<Rightarrow> rat option"
  dbg_setScopeVariable :: "frame_mirror \<Rightarrow> int \<Rightarrow> wstr \<Rightarrow> v8_value \<Rightarrow> 'w \<Rightarrow> bool \<times> 'w"

section \<open>Pausing on exceptions and breakpoints\<close>

text \<open>The script keeps the mode for pausing on exceptions beside the flags of V8.\<close>

definition DontPauseOnExceptions :: int where "DontPauseOnExceptions = 0"
definition PauseOnAllExceptions :: int where "PauseOnAllExceptions = 1"
definition PauseOnUncaughtExceptions :: int where "PauseOnUncaughtExceptions = 2"

definition script_setPauseOnExceptionsState :: "('w, 'z) v8_debug_scheme \<Rightarrow> int \<Rightarrow> int \<times> 'w \<Rightarrow> int \<times> 'w" where
  "script_setPauseOnExceptionsState D newState sw =
    (newState,
     dbg_breakOnUncaughtException D (newState = PauseOnUncaughtExceptions)
       (dbg_breakOnException D (newState = PauseOnAllExceptions) (snd sw)))"

definition script_pauseOnExceptionsState :: "int \<times> 'w \<Rightarrow> int" where
  "script_pauseOnExceptionsState sw = fst sw"

text \<open>Loading the script resets both.\<close>

definition load_script :: "('w, 'z) v8_debug_scheme \<Rightarrow> 'w \<Rightarrow> int \<times> 'w" where
  "load_script D w =
    (DontPauseOnExceptions, dbg_breakOnUncaughtException D False (dbg_breakOnException D False w))"

text \<open>
  A breakpoint without an actual location is reported as not set, but is not
  removed from V8.
\<close>

definition script_setBreakpoint ::
  "('w, 'z) v8_debug_scheme \<Rightarrow> wstr \<Rightarrow> int \<Rightarrow> int \<Rightarrow> wstr \<Rightarrow> bool \<Rightarrow> 'w \<Rightarrow> (wstr \<times> int \<times> int) option \<times> 'w" where
  "script_setBreakpoint D sourceID lineNumber columnNumber condition interstatementLocation w =
    (let (breakId, w) = dbg_setScriptBreakPointById D sourceID lineNumber columnNumber condition interstatementLocation w
     in case dbg_actualLocations D breakId w of
          [] \<Rightarrow> (None, w)
        | (line, column) # _ \<Rightarrow> (Some (numberToStringImpl_digits breakId, line, column), w))"

section \<open>Scripts\<close>

record formatted_script =
  fs_id :: int
  fs_name :: "wstr option"
  fs_sourceURL :: "wstr option"
  fs_sourceMappingURL :: "wstr option"
  fs_source :: wstr
  fs_startLine :: int
  fs_startColumn :: int
  fs_endLine :: int
  fs_endColumn :: int
  fs_isContentScript :: bool
  fs_isInternalScript :: bool

definition formatScript :: "v8_script \<Rightarrow> formatted_script" where
  "formatScript script =
    (let lineEnds = vs_lineEnds script;
         lineCount = length lineEnds;
         source = vs_source script;
         endLine = vs_lineOffset script + int lineCount - 1;
         (endLine, endColumn) =
           (if source \<noteq> [] \<and> last source = uc CHR 0x0A then (endLine + 1, 0)
            else if lineCount = 1 then (endLine, int (length source) + vs_columnOffset script)
            else (endLine, int (length source) - (int (lineEnds ! (lineCount - 2)) + 1)))
     in \<lparr>fs_id = vs_id script, fs_name = vs_nameOrSourceURL script, fs_sourceURL = vs_sourceURL script,
         fs_sourceMappingURL = vs_sourceMappingURL script, fs_source = source, fs_startLine = vs_lineOffset script,
         fs_startColumn = vs_columnOffset script, fs_endLine = endLine, fs_endColumn = endColumn,
         fs_isContentScript = (case vs_contextData script of None \<Rightarrow> False | Some context \<Rightarrow> context \<noteq> [] \<and> prefix (lit ''[injected,'') context),
         fs_isInternalScript = vs_isDebuggerScript script\<rparr>)"

definition script_selected :: "wstr \<Rightarrow> v8_script \<Rightarrow> bool" where
  "script_selected contextDataSubstring script \<longleftrightarrow>
    contextDataSubstring = [] \<or>
    (case vs_contextData script of None \<Rightarrow> False | Some context \<Rightarrow> context \<noteq> [] \<and> sublist contextDataSubstring context)"

definition getScripts :: "('w, 'z) v8_debug_scheme \<Rightarrow> wstr \<Rightarrow> 'w \<Rightarrow> formatted_script list" where
  "getScripts D contextDataSubstring w = map formatScript (filter (script_selected contextDataSubstring) (dbg_scripts D w))"

text \<open>The script is looked up by its id, which the front end passes as text: the
  loose equation of JavaScript converts the text to a number (\<open>None\<close>: not a number).\<close>

definition find_script :: "('w, 'z) v8_debug_scheme \<Rightarrow> wstr \<Rightarrow> 'w \<Rightarrow> v8_script option" where
  "find_script D scriptId w = List.find (\<lambda>script. js_ToNumber D scriptId = Some (of_int (vs_id script))) (dbg_scripts D w)"

definition liveEditScriptSource :: "('w, 'z) v8_debug_scheme \<Rightarrow> wstr \<Rightarrow> wstr \<Rightarrow> bool \<Rightarrow> 'w \<Rightarrow> live_edit \<times> 'w" where
  "liveEditScriptSource D scriptId newSource preview w =
    (case find_script D scriptId w of
       None \<Rightarrow> (EditThrew (Some (lit ''Script not found'')), w)
     | Some script \<Rightarrow> dbg_setScriptSource D script newSource preview w)"

section \<open>Call frames\<close>

datatype JSCallFrame =
  JSCallFrame (fr_mirror: frame_mirror) (fr_scopes: "scope_mirror list") (fr_caller: "JSCallFrame option")

definition AllScopes :: nat where "AllScopes = 0"
definition FastAsyncScopes :: nat where "FastAsyncScopes = 1"
definition NoScopes :: nat where "NoScopes = 2"

definition frameMirrorToJSCallFrame :: "frame_mirror \<Rightarrow> JSCallFrame option \<Rightarrow> nat \<Rightarrow> JSCallFrame" where
  "frameMirrorToJSCallFrame frameMirror callerFrame scopeDetailsLevel =
    JSCallFrame frameMirror
      (if scopeDetailsLevel = NoScopes then []
       else if scopeDetailsLevel = FastAsyncScopes then fm_fastScopes frameMirror
       else fm_scopes frameMirror)
      callerFrame"

primrec frames_down :: "nat \<Rightarrow> frame_mirror list \<Rightarrow> nat \<Rightarrow> JSCallFrame option \<Rightarrow> JSCallFrame option" where
  "frames_down scopeDetailsLevel frames 0 topFrame = topFrame"
| "frames_down scopeDetailsLevel frames (Suc i) topFrame =
    frames_down scopeDetailsLevel frames i (Some (frameMirrorToJSCallFrame (frames ! i) topFrame scopeDetailsLevel))"

definition script_currentCallFrame :: "('w, 'z) v8_debug_scheme \<Rightarrow> nat option \<Rightarrow> nat \<Rightarrow> 'w \<Rightarrow> JSCallFrame option" where
  "script_currentCallFrame D execState data w =
    (let maximumLimit = data div 4;
         scopeDetailsLevel = data mod 4;
         frames = dbg_frames D execState w;
         frameCount = (if maximumLimit \<noteq> 0 \<and> maximumLimit < length frames then maximumLimit else length frames)
     in frames_down scopeDetailsLevel frames frameCount None)"

definition currentCallFrameByIndex :: "('w, 'z) v8_debug_scheme \<Rightarrow> nat option \<Rightarrow> int \<Rightarrow> 'w \<Rightarrow> JSCallFrame option" where
  "currentCallFrameByIndex D execState index w =
    (let frames = dbg_frames D execState w
     in if index < 0 then None
        else if index \<ge> int (length frames) then None
        else Some (frameMirrorToJSCallFrame (frames ! nat index) None NoScopes))"

definition nonempty_or :: "wstr \<Rightarrow> wstr \<Rightarrow> wstr" where
  "nonempty_or a b = (if a \<noteq> [] then a else b)"

definition displayFunctionName :: "frame_mirror \<Rightarrow> wstr option" where
  "displayFunctionName m =
    (if \<not> fm_resolved m then None
     else Some (nonempty_or (case fm_displayName m of None \<Rightarrow> [] | Some displayName \<Rightarrow> displayName)
                  (nonempty_or (fm_name m) (fm_inferredName m))))"

definition ensureLocation :: "frame_mirror \<Rightarrow> int \<times> int" where
  "ensureLocation m =
    (case fm_script m of None \<Rightarrow> (0, 0)
     | Some _ \<Rightarrow> (case fm_location m of None \<Rightarrow> (0, 0) | Some location \<Rightarrow> location))"

definition js_sourceID :: "JSCallFrame \<Rightarrow> int option" where
  "js_sourceID f = map_option fst (fm_script (fr_mirror f))"

definition js_line :: "JSCallFrame \<Rightarrow> int" where
  "js_line f = fst (ensureLocation (fr_mirror f))"

definition js_column :: "JSCallFrame \<Rightarrow> int" where
  "js_column f = snd (ensureLocation (fr_mirror f))"

definition js_scriptName :: "JSCallFrame \<Rightarrow> wstr option" where
  "js_scriptName f = (case fm_script (fr_mirror f) of None \<Rightarrow> None | Some (_, name) \<Rightarrow> name)"

definition js_functionName :: "JSCallFrame \<Rightarrow> wstr option" where
  "js_functionName f = displayFunctionName (fr_mirror f)"

definition js_functionLine :: "JSCallFrame \<Rightarrow> int" where
  "js_functionLine f = (case fm_functionLocation (fr_mirror f) of None \<Rightarrow> 0 | Some (line, _) \<Rightarrow> line)"

definition js_functionColumn :: "JSCallFrame \<Rightarrow> int" where
  "js_functionColumn f = (case fm_functionLocation (fr_mirror f) of None \<Rightarrow> 0 | Some (_, column) \<Rightarrow> column)"

definition js_returnValue :: "JSCallFrame \<Rightarrow> v8_value option" where
  "js_returnValue f = (if fm_isAtReturn (fr_mirror f) then Some (fm_returnValue (fr_mirror f)) else None)"

text \<open>
  The wrapper in C++ gives zero for what is not a 32-bit integer, and the null
  string for undefined.
\<close>

definition callV8FunctionReturnInt :: "int option \<Rightarrow> int" where
  "callV8FunctionReturnInt result =
    (case result of None \<Rightarrow> 0 | Some n \<Rightarrow> if - (2 ^ 31) \<le> n \<and> n < 2 ^ 31 then n else 0)"

definition frame_sourceID :: "JSCallFrame \<Rightarrow> int" where
  "frame_sourceID f = callV8FunctionReturnInt (js_sourceID f)"

definition frame_line :: "JSCallFrame \<Rightarrow> int" where
  "frame_line f = callV8FunctionReturnInt (Some (js_line f))"

definition frame_column :: "JSCallFrame \<Rightarrow> int" where
  "frame_column f = callV8FunctionReturnInt (Some (js_column f))"

definition frame_scriptName :: "JSCallFrame \<Rightarrow> wstr option" where
  "frame_scriptName f = js_scriptName f"

definition frame_functionName :: "JSCallFrame \<Rightarrow> wstr option" where
  "frame_functionName f = js_functionName f"

definition frame_functionLine :: "JSCallFrame \<Rightarrow> int" where
  "frame_functionLine f = callV8FunctionReturnInt (Some (js_functionLine f))"

definition frame_functionColumn :: "JSCallFrame \<Rightarrow> int" where
  "frame_functionColumn f = callV8FunctionReturnInt (Some (js_functionColumn f))"

definition frame_isAtReturn :: "JSCallFrame \<Rightarrow> bool" where
  "frame_isAtReturn f = fm_isAtReturn (fr_mirror f)"

definition location_object :: "wstr \<Rightarrow> int \<Rightarrow> int \<Rightarrow> json_object" where
  "location_object scriptId line column =
    setValue (lit ''columnNumber'') (number_json column)
      (setValue (lit ''lineNumber'') (number_json line) (setString (lit ''scriptId'') scriptId emptyObject))"

definition int_text :: "int \<Rightarrow> wstr" where
  "int_text n = numberToStringSigned (word_of_int n)"

definition frame_stepInPositions :: "JSCallFrame \<Rightarrow> json option" where
  "frame_stepInPositions f =
    (case fm_stepInPositions (fr_mirror f) of
       None \<Rightarrow> None
     | Some positions \<Rightarrow>
         Some (JSONArray (case fm_script (fr_mirror f) of
                 None \<Rightarrow> []
               | Some (scriptId, _) \<Rightarrow>
                   map (\<lambda>(line, column). JSONObject (location_object (int_text scriptId) line column)) positions)))"

subsection \<open>Scopes\<close>

datatype scope_value = ScopeCopy "(wstr, v8_value) hmap" | ScopeSame v8_value

primrec copy_properties :: "(wstr \<times> v8_value) list \<Rightarrow> (wstr, v8_value) hmap \<Rightarrow> (wstr, v8_value) hmap" where
  "copy_properties [] result = result"
| "copy_properties (p # ps) result =
    (case p of (name, val) \<Rightarrow>
      copy_properties ps (if name \<noteq> [] \<and> hd name = uc CHR ''.'' then result else hset name val result))"

definition buildScopeObject :: "ScopeType \<Rightarrow> scope_mirror \<Rightarrow> scope_value option" where
  "buildScopeObject scopeType scopeObject =
    (if scopeType \<in> {ScopeLocal, ScopeClosure, ScopeCatch, ScopeBlock, ScopeScript} then
       (if scope_properties scopeObject = [] \<and> (scopeType = ScopeScript \<or> scopeType = ScopeBlock) then None
        else Some (ScopeCopy (copy_properties (scope_properties scopeObject) [])))
     else Some (ScopeSame (scope_object scopeObject)))"

text \<open>The chain is built with the types moved forward in place; \<open>j\<close> trails \<open>i\<close>.\<close>

function lazyScopeChain_loop ::
  "ScopeType list \<Rightarrow> scope_value list \<Rightarrow> scope_mirror list \<Rightarrow> nat \<Rightarrow> nat \<Rightarrow> ScopeType list \<times> scope_value list" where
  "lazyScopeChain_loop scopeTypes scopeChain scopeObjects i j =
    (if i < length scopeObjects then
       (case buildScopeObject (scopeTypes ! i) (scopeObjects ! i) of
          None \<Rightarrow> lazyScopeChain_loop scopeTypes scopeChain scopeObjects (Suc i) j
        | Some scopeObject \<Rightarrow>
            lazyScopeChain_loop (scopeTypes[j := scopeTypes ! i]) (scopeChain @ [scopeObject]) scopeObjects (Suc i) (Suc j))
     else (take (length scopeChain) scopeTypes, scopeChain))"
  by pat_completeness auto

termination by (relation "measure (\<lambda>(_, _, scopeObjects, i, _). length scopeObjects - i)") auto

declare lazyScopeChain_loop.simps [simp del]

definition lazyScopeChain :: "JSCallFrame \<Rightarrow> ScopeType list \<times> scope_value list" where
  "lazyScopeChain f = lazyScopeChain_loop (map scope_type (fr_scopes f)) [] (fr_scopes f) 0 0"

definition frame_scopeChain :: "JSCallFrame \<Rightarrow> scope_value list" where
  "frame_scopeChain f = snd (lazyScopeChain f)"

definition frame_scopeType :: "JSCallFrame \<Rightarrow> nat \<Rightarrow> ScopeType option" where
  "frame_scopeType f scopeIndex =
    (if scopeIndex < length (fst (lazyScopeChain f)) then Some (fst (lazyScopeChain f) ! scopeIndex) else None)"

definition frame_setVariableValue ::
  "('w, 'z) v8_debug_scheme \<Rightarrow> JSCallFrame \<Rightarrow> int \<Rightarrow> wstr \<Rightarrow> v8_value \<Rightarrow> 'w \<Rightarrow> bool \<times> 'w" where
  "frame_setVariableValue D f scopeNumber variableName newValue w =
    dbg_setScopeVariable D (fr_mirror f) scopeNumber variableName newValue w"

definition listed_scopes :: "scope_mirror list \<Rightarrow> (ScopeType \<times> scope_value) list" where
  "listed_scopes scopes =
    List.map_filter (\<lambda>scope. map_option (Pair (scope_type scope)) (buildScopeObject (scope_type scope) scope)) scopes"

definition getFunctionScopes :: "scope_mirror list \<Rightarrow> (ScopeType \<times> scope_value) list option" where
  "getFunctionScopes scopes =
    (if scopes = [] then None
     else Some (listed_scopes scopes))"

text \<open>The numbers under which V8 reports the breakpoints that were hit: that of the script breakpoint, if any.\<close>

definition getBreakpointNumbers :: "(nat option \<times> nat) list option \<Rightarrow> nat list" where
  "getBreakpointNumbers breakPointsHit =
    (case breakPointsHit of None \<Rightarrow> []
     | Some breakpoints \<Rightarrow>
         map (\<lambda>(scriptBreakPoint, number). case scriptBreakPoint of Some n \<Rightarrow> n | None \<Rightarrow> number) breakpoints)"

primrec frame_chain :: "JSCallFrame \<Rightarrow> frame_mirror list" where
  "frame_chain (JSCallFrame m scopes c) = m # (case map_option frame_chain c of None \<Rightarrow> [] | Some rest \<Rightarrow> rest)"


section \<open>The end of a script\<close>

text \<open>
  V8 records the position of every line feed, and the length of a source whose
  last line is not terminated.  The end of the script must be where reading the
  source from the start of the script leads to.
\<close>

definition line_feeds :: "wstr \<Rightarrow> nat list" where
  "line_feeds source = filter (\<lambda>i. source ! i = uc CHR 0x0A) [0..<length source]"

definition source_line_ends :: "wstr \<Rightarrow> nat list" where
  "source_line_ends source =
    (if source \<noteq> [] \<and> last source = uc CHR 0x0A then line_feeds source else line_feeds source @ [length source])"

definition advance :: "int \<times> int \<Rightarrow> uchar \<Rightarrow> int \<times> int" where
  "advance position c = (if c = uc CHR 0x0A then (fst position + 1, 0) else (fst position, snd position + 1))"

lemma line_feeds_snoc [simp]:
  "line_feeds (source @ [c]) = line_feeds source @ (if c = uc CHR 0x0A then [length source] else [])"
  by (auto simp: line_feeds_def nth_append simp del: uc_def intro: filter_cong)

lemma line_feeds_Nil [simp]: "line_feeds [] = []"
  by (simp add: line_feeds_def)

lemma advance_source:
  "foldl advance (line, column) source =
    (line + int (length (line_feeds source)),
     if line_feeds source = [] then column + int (length source)
     else int (length source) - (int (last (line_feeds source)) + 1))"
  by (induction source rule: rev_induct) (simp_all add: advance_def del: uc_def)

text \<open>
  The end line and the end column reported for a script are the position
  that reading its source from the start line and the start column leads to.
\<close>

lemma format_script_end:
  assumes "vs_lineEnds script = source_line_ends (vs_source script)"
  shows "(fs_endLine (formatScript script), fs_endColumn (formatScript script)) =
    foldl advance (fs_startLine (formatScript script), fs_startColumn (formatScript script)) (fs_source (formatScript script))"
proof (cases "vs_source script" rule: rev_cases)
  case Nil
  thus ?thesis using assms by (simp add: formatScript_def source_line_ends_def)
next
  case (snoc xs c)
  show ?thesis
  proof (cases "c = uc CHR 0x0A")
    case True
    thus ?thesis using assms snoc
      by (simp add: formatScript_def Let_def source_line_ends_def advance_source advance_def del: uc_def)
  next
    case False
    thus ?thesis using assms snoc
      by (cases "line_feeds xs" rule: rev_cases)
        (simp_all add: formatScript_def Let_def source_line_ends_def advance_source advance_def nth_append del: uc_def)
  qed
qed

lemma format_script_end_witness:
  "(let script = formatScript \<lparr>vs_id = 7, vs_contextData = Some (lit ''[worker]''), vs_nameOrSourceURL = None, vs_sourceURL = None,
       vs_sourceMappingURL = None, vs_source = [97, 10, 98, 99], vs_lineEnds = [1, 4], vs_lineOffset = 2, vs_columnOffset = 8,
       vs_isDebuggerScript = False\<rparr>
    in (fs_endLine script, fs_endColumn script) = (3, 2))"
  using format_script_end [of "\<lparr>vs_id = 7, vs_contextData = Some (lit ''[worker]''), vs_nameOrSourceURL = None, vs_sourceURL = None,
       vs_sourceMappingURL = None, vs_source = [97, 10, 98, 99], vs_lineEnds = [1, 4], vs_lineOffset = 2, vs_columnOffset = 8,
       vs_isDebuggerScript = False\<rparr>"]
  by (simp add: source_line_ends_def line_feeds_def upt_rec formatScript_def advance_def)

section \<open>The scope chain\<close>

lemma lazyScopeChain_invariant:
  assumes "length types = length scopes" "j \<le> i" "length chain = j" "i \<le> length scopes"
    "drop i types = map scope_type (drop i scopes)"
  shows "lazyScopeChain_loop types chain scopes i j =
    (take j types @ map fst (listed_scopes (drop i scopes)), chain @ map snd (listed_scopes (drop i scopes)))"
  using assms
proof (induction types chain scopes i j rule: lazyScopeChain_loop.induct)
  case (1 types chain scopes i j)
  show ?case
  proof (cases "i < length scopes")
    case False
    thus ?thesis using 1(3-) by (subst lazyScopeChain_loop.simps) (simp add: listed_scopes_def)
  next
    case True
    hence tl: "drop i scopes = scopes ! i # drop (Suc i) scopes" "drop i types = types ! i # drop (Suc i) types"
      using 1(3) by (simp_all add: Cons_nth_drop_Suc)
    hence ty: "types ! i = scope_type (scopes ! i)" "drop (Suc i) types = map scope_type (drop (Suc i) scopes)"
      using 1(7) by simp_all
    show ?thesis
    proof (cases "buildScopeObject (types ! i) (scopes ! i)")
      case None
      thus ?thesis using 1(1) [OF True None] 1(3-) True tl(1) ty
        by (subst lazyScopeChain_loop.simps) (simp add: listed_scopes_def)
    next
      case (Some ob)
      have "take (Suc j) (types[j := types ! i]) = take j types @ [types ! i]"
        using 1(3-) True by (simp add: take_Suc_conv_app_nth)
      thus ?thesis using 1(2) [OF True Some] 1(3-) True tl(1) ty Some
        by (subst lazyScopeChain_loop.simps) (simp add: listed_scopes_def)
    qed
  qed
qed

text \<open>
  C39: the scope chain of a call frame lists, in order, the scopes that are kept,
  each with its own type, although the types are moved in place; scopes without
  properties are dropped if they belong to a script or a block.
\<close>

theorem scope_chain_listed:
  "lazyScopeChain f = (map fst (listed_scopes (fr_scopes f)), map snd (listed_scopes (fr_scopes f)))"
  using lazyScopeChain_invariant [of "map scope_type (fr_scopes f)" "fr_scopes f" 0 0 "[]"]
  by (simp add: lazyScopeChain_def)

definition block_frame :: frame_mirror where
  "block_frame =
    \<lparr>fm_resolved = True, fm_displayName = None, fm_name = lit ''f'', fm_inferredName = [], fm_script = Some (1, Some (lit ''a.js'')),
     fm_location = Some (1, 0), fm_functionLocation = Some (0, 0), fm_isAtReturn = False, fm_returnValue = 0, fm_receiver = 0,
     fm_scopes = [\<lparr>scope_type = ScopeBlock, scope_object = 1, scope_properties = []\<rparr>,
                  \<lparr>scope_type = ScopeLocal, scope_object = 2, scope_properties = [(lit ''x'', 5)]\<rparr>],
     fm_fastScopes = [], fm_stepInPositions = None\<rparr>"

text \<open>
  The number of a scope in the listed chain is not the number by which a
  variable is set.  For a frame in an empty block, the scope listed first is the
  local scope, but setting a variable of the scope with number zero addresses the
  first scope of the frame, which is the block.
\<close>

theorem scope_number_mismatch:
  "lazyScopeChain (frameMirrorToJSCallFrame block_frame None AllScopes) = ([ScopeLocal], [ScopeCopy [(lit ''x'', 5)]]) \<and>
   scope_type (fm_scopes block_frame ! 0) = ScopeBlock \<and>
   frame_setVariableValue D (frameMirrorToJSCallFrame block_frame None AllScopes) 0 (lit ''x'') v w =
     dbg_setScopeVariable D block_frame 0 (lit ''x'') v w"
  by (simp add: lazyScopeChain_def lazyScopeChain_loop.simps frameMirrorToJSCallFrame_def block_frame_def AllScopes_def NoScopes_def FastAsyncScopes_def buildScopeObject_def frame_setVariableValue_def lit_def hset_def)

section \<open>The chain of call frames\<close>

lemma frames_down_frames:
  "n \<le> length frames \<Longrightarrow>
   (case frames_down level frames n caller of None \<Rightarrow> [] | Some f \<Rightarrow> frame_chain f) =
   take n frames @ (case caller of None \<Rightarrow> [] | Some f \<Rightarrow> frame_chain f)"
  by (induction n arbitrary: caller) (auto simp: frameMirrorToJSCallFrame_def take_Suc_conv_app_nth split: option.splits)

end
