(* ===== verification/V8_Debugger.thy ===== *)
theory V8_Debugger
  imports Debugger_Script "HOL-Library.Multiset"
begin

text \<open>
  The C++ side of the debugger (bindings/core/v8/V8Debugger.cpp): enabling it,
  breakpoints, the mode for pausing on exceptions, stepping, call frames, live
  editing and the queue of tasks, and the scripts it reports
  (core/inspector/ScriptDebugListener.cpp).
\<close>

section \<open>The isolate\<close>

text \<open>
  Beside the natives of the debugger script, the C++ side uses: whether V8 runs
  in a context and on top of which frames, the request for a break at the next
  statement, the event listener, the compilation of the debugger script, and the
  wrappers of call frames.  Script states are handles, a \<open>script_value\<close> carries
  the script state it belongs to.
\<close>

type_synonym script_value = "(nat \<times> v8_value) option"

record 'w isolate = "'w v8_debug" +
  iso_inContext :: "'w \<Rightarrow> bool"
  iso_hasUserFrames :: "'w \<Rightarrow> bool"
  iso_currentScriptState :: "'w \<Rightarrow> nat"
  iso_contextIsValid :: "nat \<Rightarrow> 'w \<Rightarrow> bool"
  iso_debugBreak :: "bool \<Rightarrow> 'w \<Rightarrow> 'w"
  iso_setDebugEventListener :: "bool \<Rightarrow> 'w \<Rightarrow> 'w"
  iso_compileDebuggerScript :: "'w \<Rightarrow> bool \<times> 'w"
  iso_wrapFrame :: "JSCallFrame \<Rightarrow> nat \<Rightarrow> 'w \<Rightarrow> v8_value \<times> 'w"
  iso_unwrapFrame :: "v8_value \<Rightarrow> 'w \<Rightarrow> JSCallFrame option"
  iso_recursionLevel :: "'w \<Rightarrow> nat"
  iso_engine :: "'w script_engine"
  iso_factory :: "'w script_factory"

record ScriptBreakpoint =
  sb_lineNumber :: int
  sb_columnNumber :: int
  sb_condition :: wstr

section \<open>The debugger\<close>

text \<open>
  \<open>m_debuggerScript\<close> holds the state of the compiled debugger script, that is the mode
  for pausing on exceptions.  Calling a method of the script when there is none
  goes through an empty handle and has no defined behaviour.
\<close>

record 'w v8_debugger =
  m_debuggerScript :: "int option"
  m_breakpointsActivated :: bool
  m_runningNestedMessageLoop :: bool
  d_pausedScriptState :: "nat option"
  m_executionState :: "nat option"
  m_taskQueue :: "nat list"
  d_quitMessageLoop :: bool
  d_world :: 'w

definition new_debugger :: "'w \<Rightarrow> 'w v8_debugger" where
  "new_debugger w =
    \<lparr>m_debuggerScript = None, m_breakpointsActivated = True, m_runningNestedMessageLoop = False, d_pausedScriptState = None,
     m_executionState = None, m_taskQueue = [], d_quitMessageLoop = False, d_world = w\<rparr>"

definition d_enabled :: "'w v8_debugger \<Rightarrow> bool" where
  "d_enabled d \<longleftrightarrow> m_debuggerScript d \<noteq> None"

definition d_isPaused :: "'w v8_debugger \<Rightarrow> bool" where
  "d_isPaused d \<longleftrightarrow> d_pausedScriptState d \<noteq> None"

definition with_script :: "'w v8_debugger \<Rightarrow> (int \<Rightarrow> 'a cxx) \<Rightarrow> 'a cxx" where
  "with_script d f = (case m_debuggerScript d of None \<Rightarrow> UB | Some s \<Rightarrow> f s)"

definition native :: "('w \<Rightarrow> 'w) \<Rightarrow> 'w v8_debugger \<Rightarrow> 'w v8_debugger" where
  "native f d = d\<lparr>d_world := f (d_world d)\<rparr>"

definition d_compileDebuggerScript :: "'w isolate \<Rightarrow> 'w v8_debugger \<Rightarrow> 'w v8_debugger" where
  "d_compileDebuggerScript V d =
    (if m_debuggerScript d \<noteq> None then d
     else let (compiled, w) = iso_compileDebuggerScript V (d_world d)
          in if compiled then (let (s, w) = load_script V w in d\<lparr>m_debuggerScript := Some s, d_world := w\<rparr>)
             else d\<lparr>d_world := w\<rparr>)"

definition d_enable :: "'w isolate \<Rightarrow> 'w v8_debugger \<Rightarrow> 'w v8_debugger" where
  "d_enable V d = d_compileDebuggerScript V (native (iso_setDebugEventListener V True) d)"

definition d_clearBreakpoints :: "'w isolate \<Rightarrow> 'w v8_debugger \<Rightarrow> 'w v8_debugger cxx" where
  "d_clearBreakpoints V d = with_script d (\<lambda>_. Val (native (dbg_clearAllBreakPoints V) d))"

definition d_disable :: "'w isolate \<Rightarrow> 'w v8_debugger \<Rightarrow> 'w v8_debugger cxx" where
  "d_disable V d =
    bind_cxx (d_clearBreakpoints V d) (\<lambda>d. Val (native (iso_setDebugEventListener V False) (d\<lparr>m_debuggerScript := None\<rparr>)))"

definition d_setBreakpoint ::
  "'w isolate \<Rightarrow> wstr \<Rightarrow> ScriptBreakpoint \<Rightarrow> bool \<Rightarrow> 'w v8_debugger \<Rightarrow> ((wstr \<times> int \<times> int) option \<times> 'w v8_debugger) cxx" where
  "d_setBreakpoint V sourceID scriptBreakpoint interstatementLocation d =
    with_script d (\<lambda>_.
      let (r, w) = script_setBreakpoint V sourceID (sb_lineNumber scriptBreakpoint) (sb_columnNumber scriptBreakpoint)
                     (sb_condition scriptBreakpoint) interstatementLocation (d_world d)
      in Val (r, d\<lparr>d_world := w\<rparr>))"

definition d_removeBreakpoint :: "'w isolate \<Rightarrow> wstr \<Rightarrow> 'w v8_debugger \<Rightarrow> 'w v8_debugger cxx" where
  "d_removeBreakpoint V breakpointId d = with_script d (\<lambda>_. Val (native (dbg_removeBreakPoint V breakpointId) d))"

definition d_setBreakpointsActivated :: "'w isolate \<Rightarrow> bool \<Rightarrow> 'w v8_debugger \<Rightarrow> 'w v8_debugger" where
  "d_setBreakpointsActivated V activated d =
    (if \<not> d_enabled d then d
     else (native (dbg_breakPointsActive V activated) d)\<lparr>m_breakpointsActivated := activated\<rparr>)"

definition d_pauseOnExceptionsState :: "'w v8_debugger \<Rightarrow> int cxx" where
  "d_pauseOnExceptionsState d = with_script d (\<lambda>s. Val (script_pauseOnExceptionsState (s, d_world d)))"

definition d_setPauseOnExceptionsState :: "'w isolate \<Rightarrow> int \<Rightarrow> 'w v8_debugger \<Rightarrow> 'w v8_debugger cxx" where
  "d_setPauseOnExceptionsState V pauseOnExceptionsState d =
    with_script d (\<lambda>s.
      let (s, w) = script_setPauseOnExceptionsState V pauseOnExceptionsState (s, d_world d)
      in Val (d\<lparr>m_debuggerScript := Some s, d_world := w\<rparr>))"

definition d_setPauseOnNextStatement :: "'w isolate \<Rightarrow> bool \<Rightarrow> 'w v8_debugger \<Rightarrow> 'w v8_debugger" where
  "d_setPauseOnNextStatement V pause d = native (iso_debugBreak V pause) d"

definition d_canBreakProgram :: "'w isolate \<Rightarrow> 'w v8_debugger \<Rightarrow> bool" where
  "d_canBreakProgram V d = (if \<not> m_breakpointsActivated d then False else iso_inContext V (d_world d))"

definition d_continueProgram :: "'w v8_debugger \<Rightarrow> 'w v8_debugger" where
  "d_continueProgram d =
    (let d = (if d_isPaused d then d\<lparr>d_quitMessageLoop := True\<rparr> else d)
     in d\<lparr>d_pausedScriptState := None, m_executionState := None\<rparr>)"

text \<open>The stepping commands pass the execution state, which must be there, to the script.\<close>

definition d_step :: "'w isolate \<Rightarrow> StepAction \<Rightarrow> 'w v8_debugger \<Rightarrow> 'w v8_debugger cxx" where
  "d_step V action d =
    with_script d (\<lambda>_.
      (case m_executionState d of
         None \<Rightarrow> UB
       | Some executionState \<Rightarrow> Val (native (dbg_prepareStep V executionState action) d)))"

definition d_stepIntoStatement :: "'w isolate \<Rightarrow> 'w v8_debugger \<Rightarrow> 'w v8_debugger cxx" where
  "d_stepIntoStatement V d = bind_cxx (d_step V StepInAction d) (\<lambda>d. Val (d_continueProgram d))"

definition d_stepOverStatement :: "'w isolate \<Rightarrow> 'w v8_debugger \<Rightarrow> 'w v8_debugger cxx" where
  "d_stepOverStatement V d = bind_cxx (d_step V StepNextAction d) (\<lambda>d. Val (d_continueProgram d))"

definition d_stepOutOfFunction :: "'w isolate \<Rightarrow> 'w v8_debugger \<Rightarrow> 'w v8_debugger cxx" where
  "d_stepOutOfFunction V d = bind_cxx (d_step V StepOutAction d) (\<lambda>d. Val (d_continueProgram d))"

definition d_clearStepping :: "'w isolate \<Rightarrow> 'w v8_debugger \<Rightarrow> 'w v8_debugger cxx" where
  "d_clearStepping V d = with_script d (\<lambda>_. Val (native (dbg_clearStepping V) d))"

subsection \<open>Call frames\<close>

definition wrapCallFrames_data :: "nat \<Rightarrow> nat \<Rightarrow> nat" where
  "wrapCallFrames_data maximumLimit scopeDetails = maximumLimit * 4 + scopeDetails"

definition d_wrapCallFrames :: "'w isolate \<Rightarrow> nat \<Rightarrow> nat \<Rightarrow> 'w v8_debugger \<Rightarrow> JSCallFrame option cxx" where
  "d_wrapCallFrames V maximumLimit scopeDetails d =
    with_script d (\<lambda>_.
      Val (script_currentCallFrame V (m_executionState d) (wrapCallFrames_data maximumLimit scopeDetails) (d_world d)))"

definition currentCallFramesInner :: "'w isolate \<Rightarrow> nat \<Rightarrow> 'w v8_debugger \<Rightarrow> (script_value \<times> 'w v8_debugger) cxx" where
  "currentCallFramesInner V scopeDetails d =
    (if \<not> iso_inContext V (d_world d) then Val (None, d)
     else if \<not> iso_hasUserFrames V (d_world d) then Val (None, d)
     else bind_cxx (d_wrapCallFrames V 0 scopeDetails d) (\<lambda>currentCallFrame.
       case currentCallFrame of
         None \<Rightarrow> Val (None, d)
       | Some frame \<Rightarrow>
           (let scriptState = (case d_pausedScriptState d of Some s \<Rightarrow> s | None \<Rightarrow> iso_currentScriptState V (d_world d));
                (wrapper, w) = iso_wrapFrame V frame scriptState (d_world d)
            in Val (Some (scriptState, wrapper), d\<lparr>d_world := w\<rparr>))))"

definition d_currentCallFrames :: "'w isolate \<Rightarrow> 'w v8_debugger \<Rightarrow> (script_value \<times> 'w v8_debugger) cxx" where
  "d_currentCallFrames V d = currentCallFramesInner V AllScopes d"

definition currentCallFramesForAsyncStack :: "'w isolate \<Rightarrow> 'w v8_debugger \<Rightarrow> (script_value \<times> 'w v8_debugger) cxx" where
  "currentCallFramesForAsyncStack V d = currentCallFramesInner V FastAsyncScopes d"

definition toJavaScriptCallFrameUnsafe :: "'w isolate \<Rightarrow> script_value \<Rightarrow> 'w v8_debugger \<Rightarrow> JSCallFrame option" where
  "toJavaScriptCallFrameUnsafe V val d =
    (case val of
       None \<Rightarrow> None
     | Some (scriptState, wrapper) \<Rightarrow>
         (if \<not> iso_contextIsValid V scriptState (d_world d) then None else iso_unwrapFrame V wrapper (d_world d)))"

definition callFrameNoScopes :: "'w isolate \<Rightarrow> int \<Rightarrow> 'w v8_debugger \<Rightarrow> JSCallFrame option cxx" where
  "callFrameNoScopes V index d =
    (if \<not> iso_inContext V (d_world d) then Val None
     else with_script d (\<lambda>_. Val (currentCallFrameByIndex V (m_executionState d) index (d_world d))))"

subsection \<open>Live editing\<close>

datatype set_source =
    SourceSet "json_object option" "script_value option"
  | SourceNotSet wstr "(wstr \<times> int \<times> int) option"

definition d_setScriptSource ::
  "'w isolate \<Rightarrow> wstr \<Rightarrow> wstr \<Rightarrow> bool \<Rightarrow> 'w v8_debugger \<Rightarrow> (set_source \<times> 'w v8_debugger) cxx" where
  "d_setScriptSource V sourceID newContent preview d =
    with_script d (\<lambda>_.
      let (v8result, w) = liveEditScriptSource V sourceID newContent preview (d_world d);
          d = d\<lparr>d_world := w\<rparr>
      in case v8result of
           EditThrew message \<Rightarrow>
             Val (SourceNotSet (case message of Some m \<Rightarrow> m | None \<Rightarrow> lit ''Unknown error.'') None, d)
         | CompileFailure error compileError line column \<Rightarrow>
             Val (SourceNotSet error (Some (compileError, line, column)), d)
         | Edited normalResult \<Rightarrow>
             (let result = Option.bind normalResult asObject
              in if \<not> preview \<and> d_isPaused d
                 then bind_cxx (d_currentCallFrames V d) (\<lambda>(frames, d). Val (SourceSet result (Some frames), d))
                 else Val (SourceSet result None, d)))"

subsection \<open>The queue of tasks\<close>

definition tryTake :: "nat list \<Rightarrow> nat option \<times> nat list" where
  "tryTake queue = (case queue of [] \<Rightarrow> (None, []) | task # rest \<Rightarrow> (Some task, rest))"

definition interruptAndRun :: "nat \<Rightarrow> 'w v8_debugger \<Rightarrow> 'w v8_debugger" where
  "interruptAndRun task d = d\<lparr>m_taskQueue := m_taskQueue d @ [task]\<rparr>"

text \<open>
  A pending task may queue further tasks.  \<open>None\<close> means that the tasks keep the queue busy forever; the tasks
  that ran are collected in order.
\<close>

partial_function (option) run_tasks ::
  "(nat \<Rightarrow> 'w v8_debugger \<Rightarrow> 'w v8_debugger) \<Rightarrow> 'w v8_debugger \<Rightarrow> nat list \<Rightarrow> ('w v8_debugger \<times> nat list) option" where
  "run_tasks run d finished =
    (case tryTake (m_taskQueue d) of
       (None, _) \<Rightarrow> Some (d, finished)
     | (Some task, rest) \<Rightarrow> run_tasks run (run task (d\<lparr>m_taskQueue := rest\<rparr>)) (finished @ [task]))"

definition runPendingTasks ::
  "(nat \<Rightarrow> 'w v8_debugger \<Rightarrow> 'w v8_debugger) \<Rightarrow> 'w v8_debugger \<Rightarrow> ('w v8_debugger \<times> nat list) option" where
  "runPendingTasks run d = (if \<not> d_enabled d then Some (d, []) else run_tasks run d [])"

lemma run_tasks_fifo:
  assumes "\<And>task d. \<exists>new. m_taskQueue (run task d) = m_taskQueue d @ new \<and> (\<forall>t \<in> set new. t < task)"
  shows "\<exists>d' later. run_tasks run d finished = Some (d', finished @ m_taskQueue d @ later) \<and> m_taskQueue d' = []"
proof (induction "mset (m_taskQueue d)" arbitrary: d finished rule: wf_induct_rule [OF wf_mult [OF wf_less_than]])
  case 1
  show ?case
  proof (cases "m_taskQueue d")
    case Nil
    thus ?thesis by (subst run_tasks.simps) (auto simp: tryTake_def)
  next
    case (Cons task rest)
    obtain new where new: "m_taskQueue (run task (d\<lparr>m_taskQueue := rest\<rparr>)) = rest @ new" "\<forall>t \<in> set new. t < task"
      using assms [of task "d\<lparr>m_taskQueue := rest\<rparr>"] by auto
    have "(mset rest + mset new, mset rest + {#task#}) \<in> mult less_than"
      using new(2) by (intro one_step_implies_mult) auto
    hence "(mset (rest @ new), mset (m_taskQueue d)) \<in> mult less_than"
      using Cons by (simp add: ac_simps)
    from 1 [of "run task (d\<lparr>m_taskQueue := rest\<rparr>)" "finished @ [task]"] this show ?thesis
      using Cons new(1) by (subst run_tasks.simps) (auto simp: tryTake_def)
  qed
qed


definition sample_task :: "nat \<Rightarrow> 'w v8_debugger \<Rightarrow> 'w v8_debugger" where
  "sample_task task d = (if task = 0 then d else interruptAndRun (task - 1) d)"


section \<open>Evaluating without pausing on exceptions\<close>

text \<open>
  The bracket that evaluating on a call frame and running a script put around the
  evaluation, on request.
\<close>

definition mute_exceptions :: "'w isolate \<Rightarrow> bool \<Rightarrow> 'w v8_debugger \<Rightarrow> (int \<times> 'w v8_debugger) cxx" where
  "mute_exceptions V doNotPause d =
    bind_cxx (d_pauseOnExceptionsState d) (\<lambda>previous.
    bind_cxx (if doNotPause \<and> previous \<noteq> DontPauseOnExceptions then d_setPauseOnExceptionsState V DontPauseOnExceptions d else Val d) (\<lambda>d.
      Val (previous, d)))"

definition unmute_exceptions :: "'w isolate \<Rightarrow> bool \<Rightarrow> int \<Rightarrow> 'w v8_debugger \<Rightarrow> 'w v8_debugger cxx" where
  "unmute_exceptions V doNotPause previous d =
    (if doNotPause
     then bind_cxx (d_pauseOnExceptionsState d) (\<lambda>current.
            if current \<noteq> previous then d_setPauseOnExceptionsState V previous d else Val d)
     else Val d)"

text \<open>What the agent relies on: a mode that was set can be read.\<close>

locale exception_mode =
  fixes ready :: "'s \<Rightarrow> bool" and mode :: "'s \<Rightarrow> int cxx" and set_mode :: "int \<Rightarrow> 's \<Rightarrow> 's cxx"
  assumes mode_defined: "ready s \<Longrightarrow> \<exists>m. mode s = Val m"
    and set_mode_law: "ready s \<Longrightarrow> \<exists>s'. set_mode m s = Val s' \<and> mode s' = Val m \<and> ready s'"
begin

lemma set_mode_Val: "ready s \<Longrightarrow> set_mode m s = Val s' \<Longrightarrow> mode s' = Val m \<and> ready s'"
  using set_mode_law [of s m] by auto

lemma restore_mode:
  assumes "ready s"
  shows "\<exists>s'. bind_cxx (mode s) (\<lambda>current. if current \<noteq> m then set_mode m s else Val s) = Val s' \<and> mode s' = Val m \<and> ready s'"
  using mode_defined [OF assms] set_mode_law [OF assms, of m] assms by auto

end

interpretation dm: exception_mode d_enabled d_pauseOnExceptionsState "d_setPauseOnExceptionsState V" for V :: "'w isolate"
  by unfold_locales
    (auto simp: d_enabled_def d_pauseOnExceptionsState_def d_setPauseOnExceptionsState_def with_script_def
      script_pauseOnExceptionsState_def script_setPauseOnExceptionsState_def)

lemma mute_exceptions_Val:
  assumes "d_enabled d"
  shows "\<exists>previous d'. mute_exceptions V b d = Val (previous, d') \<and> d_pauseOnExceptionsState d = Val previous \<and>
    d_enabled d' \<and> d_pauseOnExceptionsState d' = Val (if b then DontPauseOnExceptions else previous)"
  using dm.mode_defined [OF assms] dm.set_mode_law [OF assms, of V DontPauseOnExceptions] assms
  by (auto simp: mute_exceptions_def)

lemma unmute_exceptions_Val:
  assumes "d_enabled d"
  shows "\<exists>d'. unmute_exceptions V b previous d = Val d' \<and> d_enabled d' \<and>
    (d_pauseOnExceptionsState d' = (if b then Val previous else d_pauseOnExceptionsState d))"
  using dm.restore_mode [OF assms, where V = V and m = previous] assms by (auto simp: unmute_exceptions_def)

section \<open>Scripts\<close>

record Script =
  s_url :: "wstr option"
  s_sourceURL :: "wstr option"
  s_sourceMappingURL :: "wstr option"
  s_source :: wstr
  s_startLine :: int
  s_startColumn :: int
  s_endLine :: int
  s_endColumn :: int
  s_isContentScript :: bool
  s_isInternalScript :: bool
  s_isBlackboxedURL :: bool
  s_blackboxGeneration :: "32 word"

definition kBlackboxUnknown :: "32 word" where
  "kBlackboxUnknown = 0"

definition new_script :: Script where
  "new_script =
    \<lparr>s_url = None, s_sourceURL = None, s_sourceMappingURL = None, s_source = [], s_startLine = 0, s_startColumn = 0, s_endLine = 0,
     s_endColumn = 0, s_isContentScript = False, s_isInternalScript = False, s_isBlackboxedURL = False,
     s_blackboxGeneration = kBlackboxUnknown\<rparr>"

definition hasSourceURL :: "Script \<Rightarrow> bool" where
  "hasSourceURL s \<longleftrightarrow> nonnull (s_sourceURL s) \<noteq> []"

definition script_sourceURL :: "Script \<Rightarrow> wstr" where
  "script_sourceURL s = (if nonnull (s_sourceURL s) = [] then nonnull (s_url s) else nonnull (s_sourceURL s))"

definition getBlackboxedState :: "32 word \<Rightarrow> Script \<Rightarrow> bool option" where
  "getBlackboxedState blackboxGeneration s =
    (if s_blackboxGeneration s = kBlackboxUnknown \<or> s_blackboxGeneration s \<noteq> blackboxGeneration then None
     else Some (s_isBlackboxedURL s))"

definition setBlackboxedState :: "32 word \<Rightarrow> bool \<Rightarrow> Script \<Rightarrow> Script" where
  "setBlackboxedState blackboxGeneration isBlackboxed s =
    s\<lparr>s_isBlackboxedURL := isBlackboxed, s_blackboxGeneration := blackboxGeneration\<rparr>"

definition setURL :: "wstr option \<Rightarrow> Script \<Rightarrow> Script" where
  "setURL url s = s\<lparr>s_url := url, s_blackboxGeneration := kBlackboxUnknown\<rparr>"

definition setSourceURL :: "wstr option \<Rightarrow> Script \<Rightarrow> Script" where
  "setSourceURL sourceURL s = s\<lparr>s_sourceURL := sourceURL, s_blackboxGeneration := kBlackboxUnknown\<rparr>"

definition parsed_script :: "formatted_script \<Rightarrow> wstr \<times> Script" where
  "parsed_script object =
    (int_text (fs_id object),
     (setSourceURL (fs_sourceURL object) (setURL (fs_name object) new_script))
       \<lparr>s_sourceMappingURL := fs_sourceMappingURL object, s_source := fs_source object, s_startLine := fs_startLine object,
        s_startColumn := fs_startColumn object, s_endLine := fs_endLine object, s_endColumn := fs_endColumn object,
        s_isContentScript := fs_isContentScript object, s_isInternalScript := fs_isInternalScript object\<rparr>)"

section \<open>A small V8\<close>

text \<open>
  An instance of the parameters: it keeps the breakpoints it was given with their
  lines, finds a location for those in the first ten lines, and runs on a fixed
  stack of frames.
\<close>

record sample_world =
  sw_breakpoints :: "(nat \<times> int) list"
  sw_nextId :: nat
  sw_frames :: "frame_mirror list"
  sw_wrapped :: "JSCallFrame list"
  sw_steps :: "StepAction list"
  sw_pauseRequested :: bool

definition small_script :: v8_script where
  "small_script =
    \<lparr>vs_id = 1, vs_contextData = Some (lit ''[worker]''), vs_nameOrSourceURL = Some (lit ''a.js''), vs_sourceURL = None,
     vs_sourceMappingURL = None, vs_source = lit ''f()'', vs_lineEnds = [3], vs_lineOffset = 0, vs_columnOffset = 0,
     vs_isDebuggerScript = False\<rparr>"

definition sample_engine :: "sample_world script_engine" where
  "sample_engine = \<lparr>engine_call = \<lambda>c w. (Returned (Some JSONNull), w), evalEnabled = \<lambda>w. True, setEvalEnabled = \<lambda>b w. w\<rparr>"

definition sample_isolate :: "sample_world isolate" where
  "sample_isolate =
    \<lparr>dbg_scripts = \<lambda>w. [small_script],
     dbg_setScriptBreakPointById = \<lambda>s line c cond al w.
       (sw_nextId w, w\<lparr>sw_nextId := sw_nextId w + 1, sw_breakpoints := (sw_nextId w, line) # sw_breakpoints w\<rparr>),
     dbg_actualLocations = \<lambda>k w.
       case map_of (sw_breakpoints w) k of None \<Rightarrow> [] | Some line \<Rightarrow> (if line < 10 then [(line, 0)] else []),
     dbg_removeBreakPoint = \<lambda>s w. w\<lparr>sw_breakpoints := filter (\<lambda>(k, line). numberToStringImpl_digits k \<noteq> s) (sw_breakpoints w)\<rparr>,
     dbg_clearAllBreakPoints = \<lambda>w. w\<lparr>sw_breakpoints := []\<rparr>,
     dbg_breakOnException = \<lambda>b w. w, dbg_breakOnUncaughtException = \<lambda>b w. w, dbg_breakPointsActive = \<lambda>b w. w,
     dbg_frames = \<lambda>e w. sw_frames w,
     dbg_prepareStep = \<lambda>e action w. w\<lparr>sw_steps := sw_steps w @ [action]\<rparr>,
     dbg_clearStepping = \<lambda>w. w\<lparr>sw_steps := []\<rparr>,
     dbg_setScriptSource = \<lambda>s t p w. (Edited None, w),
     js_ToNumber = \<lambda>s. None,
     dbg_setScopeVariable = \<lambda>f n s v w. (True, w),
     iso_inContext = \<lambda>w. sw_frames w \<noteq> [], iso_hasUserFrames = \<lambda>w. sw_frames w \<noteq> [], iso_currentScriptState = \<lambda>w. 1,
     iso_contextIsValid = \<lambda>s w. True,
     iso_debugBreak = \<lambda>b w. w\<lparr>sw_pauseRequested := b\<rparr>,
     iso_setDebugEventListener = \<lambda>b w. w,
     iso_compileDebuggerScript = \<lambda>w. (True, w),
     iso_wrapFrame = \<lambda>f s w. (length (sw_wrapped w), w\<lparr>sw_wrapped := sw_wrapped w @ [f]\<rparr>),
     iso_unwrapFrame = \<lambda>v w. if v < length (sw_wrapped w) then Some (sw_wrapped w ! v) else None,
     iso_recursionLevel = \<lambda>w. 0,
     iso_engine = sample_engine,
     iso_factory = \<lambda>s i w. (False, w)\<rparr>"

definition sample_world0 :: sample_world where
  "sample_world0 = \<lparr>sw_breakpoints = [], sw_nextId = 1, sw_frames = [], sw_wrapped = [], sw_steps = [], sw_pauseRequested = False\<rparr>"

end
