(* ===== verification/Inspector_State.thy ===== *)
theory Inspector_State
  imports JSON_Roundtrip
begin

text \<open>
  The state the agents keep across a reconnection
  (\<^verbatim>\<open>Source/core/inspector/InspectorState.cpp\<close>): the typed accessors of one agent's
  properties, the composite state that prints all of them as a cookie, and the
  loading of a cookie.  An invariant links the two owners of every property object.
\<close>

section \<open>The state of one agent\<close>

text \<open>
  \<^verbatim>\<open>InspectorState\<close> reads its properties with a default for what is missing or has
  another type; \<^verbatim>\<open>getObject\<close> creates the missing object.
\<close>

definition state_getBoolean :: "json_object \<Rightarrow> wstr \<Rightarrow> bool" where
  "state_getBoolean properties propertyName =
    (case getValue properties propertyName of
       None \<Rightarrow> False
     | Some v \<Rightarrow> (case asBoolean v of Some b \<Rightarrow> b | None \<Rightarrow> False))"

definition state_getString :: "json_object \<Rightarrow> wstr \<Rightarrow> wstr option" where
  "state_getString properties propertyName =
    (case getValue properties propertyName of None \<Rightarrow> None | Some v \<Rightarrow> asString v)"

definition state_getLong :: "json_object \<Rightarrow> wstr \<Rightarrow> int \<Rightarrow> int" where
  "state_getLong properties propertyName defaultValue =
    (case getValue properties propertyName of
       None \<Rightarrow> defaultValue
     | Some v \<Rightarrow> (case asNumber_long v of Some n \<Rightarrow> n | None \<Rightarrow> defaultValue))"

definition state_getDouble :: "json_object \<Rightarrow> wstr \<Rightarrow> double \<Rightarrow> double" where
  "state_getDouble properties propertyName defaultValue =
    (case getValue properties propertyName of
       None \<Rightarrow> defaultValue
     | Some v \<Rightarrow> (case asNumber_double v of Some d \<Rightarrow> d | None \<Rightarrow> defaultValue))"

definition state_getObject :: "json_object \<Rightarrow> wstr \<Rightarrow> json_object option \<times> json_object" where
  "state_getObject properties propertyName =
    (let properties = (if getValue properties propertyName = None
                       then setObject propertyName emptyObject properties else properties)
     in (case getValue properties propertyName of None \<Rightarrow> None | Some v \<Rightarrow> asObject v, properties))"

definition state_setBoolean :: "wstr \<Rightarrow> bool \<Rightarrow> json_object \<Rightarrow> json_object" where
  "state_setBoolean propertyName b properties = setValue propertyName (JSONBoolean b) properties"

definition state_setString :: "wstr \<Rightarrow> wstr \<Rightarrow> json_object \<Rightarrow> json_object" where
  "state_setString propertyName s properties = setValue propertyName (JSONString s) properties"

text \<open>A \<^verbatim>\<open>long\<close> is stored as the double it is converted to; the longs the agents store are small.\<close>

definition state_setLong :: "wstr \<Rightarrow> int \<Rightarrow> json_object \<Rightarrow> json_object" where
  "state_setLong propertyName n properties = setValue propertyName (JSONNumber (DFin (of_int n))) properties"

definition state_setDouble :: "wstr \<Rightarrow> double \<Rightarrow> json_object \<Rightarrow> json_object" where
  "state_setDouble propertyName d properties = setValue propertyName (JSONNumber d) properties"

definition state_setObject :: "wstr \<Rightarrow> json_object \<Rightarrow> json_object \<Rightarrow> json_object" where
  "state_setObject propertyName ob properties = setValue propertyName (JSONObject ob) properties"

section \<open>The composite state\<close>

text \<open>
  The properties of an agent are an object that two owners share: its
  \<^verbatim>\<open>InspectorState\<close> changes it, and \<^verbatim>\<open>InspectorCompositeState\<close> prints it as a member
  of \<^verbatim>\<open>m_stateObject\<close>.  The shared objects live in a store; a member of
  \<^verbatim>\<open>m_stateObject\<close> is a reference into the store or a value no agent refers to.
  \<^verbatim>\<open>m_cookies\<close> records the cookies the client was given, the latest first.
\<close>

datatype state_entry = Shared nat | Plain json

record inspector_state =
  m_properties :: nat

record composite_state =
  m_client :: bool
  m_stateObject :: "(wstr, state_entry) hmap"
  m_isMuted :: bool
  m_inspectorStateMap :: "(wstr, inspector_state) hmap"
  m_store :: "json_object list"
  m_cookies :: "wstr list"

definition new_composite_state :: "bool \<Rightarrow> composite_state" where
  "new_composite_state client =
    \<lparr>m_client = client, m_stateObject = [], m_isMuted = False, m_inspectorStateMap = [], m_store = [], m_cookies = []\<rparr>"

definition entry_json :: "json_object list \<Rightarrow> state_entry \<Rightarrow> json" where
  "entry_json st e = (case e of Shared a \<Rightarrow> JSONObject (if a < length st then st ! a else emptyObject) | Plain v \<Rightarrow> v)"

text \<open>The object \<^verbatim>\<open>m_stateObject\<close> refers to, read through the store.\<close>

definition state_object :: "composite_state \<Rightarrow> json_object" where
  "state_object c =
    JSONObjectBase (map (\<lambda>(k, e). (k, entry_json (m_store c) e)) (m_stateObject c)) (hkeys (m_stateObject c))"

definition inspectorStateUpdated :: "platform \<Rightarrow> composite_state \<Rightarrow> composite_state cxx" where
  "inspectorStateUpdated P c =
    (if m_client c \<and> \<not> m_isMuted c
     then bind_cxx (toJSONString P (JSONObject (state_object c))) (\<lambda>cookie. Val (c\<lparr>m_cookies := cookie # m_cookies c\<rparr>))
     else Val c)"

definition mute :: "composite_state \<Rightarrow> composite_state" where
  "mute c = c\<lparr>m_isMuted := True\<rparr>"

definition unmute :: "composite_state \<Rightarrow> composite_state" where
  "unmute c = c\<lparr>m_isMuted := False\<rparr>"

definition createAgentState :: "wstr \<Rightarrow> composite_state \<Rightarrow> composite_state" where
  "createAgentState agentName c =
    (let stateProperties = length (m_store c)
     in c\<lparr>m_store := m_store c @ [emptyObject],
          m_stateObject := hset agentName (Shared stateProperties) (m_stateObject c),
          m_inspectorStateMap := hadd agentName \<lparr>m_properties = stateProperties\<rparr> (m_inspectorStateMap c)\<rparr>)"

text \<open>The properties an agent sees, and the update of them followed by \<^verbatim>\<open>updateCookie\<close>.\<close>

definition agent_properties :: "composite_state \<Rightarrow> wstr \<Rightarrow> json_object option" where
  "agent_properties c agentName =
    (case hget (m_inspectorStateMap c) agentName of
       None \<Rightarrow> None
     | Some s \<Rightarrow> (if m_properties s < length (m_store c) then Some (m_store c ! m_properties s) else None))"

definition update_properties :: "wstr \<Rightarrow> (json_object \<Rightarrow> json_object) \<Rightarrow> composite_state \<Rightarrow> composite_state cxx" where
  "update_properties agentName f c =
    (case hget (m_inspectorStateMap c) agentName of
       None \<Rightarrow> UB
     | Some s \<Rightarrow>
         (if m_properties s < length (m_store c)
          then Val (c\<lparr>m_store := (m_store c)[m_properties s := f (m_store c ! m_properties s)]\<rparr>)
          else UB))"

definition updateCookie :: "platform \<Rightarrow> composite_state \<Rightarrow> composite_state cxx" where
  "updateCookie P c = inspectorStateUpdated P c"

definition state_setValue :: "platform \<Rightarrow> wstr \<Rightarrow> wstr \<Rightarrow> json \<Rightarrow> composite_state \<Rightarrow> composite_state cxx" where
  "state_setValue P agentName propertyName v c =
    bind_cxx (update_properties agentName (setValue propertyName v) c) (updateCookie P)"

definition state_remove :: "platform \<Rightarrow> wstr \<Rightarrow> wstr \<Rightarrow> composite_state \<Rightarrow> composite_state cxx" where
  "state_remove P agentName propertyName c =
    bind_cxx (update_properties agentName (removeValue propertyName) c) (updateCookie P)"

definition setFromCookie :: "nat \<Rightarrow> inspector_state \<Rightarrow> inspector_state" where
  "setFromCookie properties s = s\<lparr>m_properties := properties\<rparr>"

text \<open>
  \<^verbatim>\<open>loadFromCookie\<close> replaces \<^verbatim>\<open>m_stateObject\<close> by what the cookie holds, if it is an
  object, and keeps the old one only if the cookie is not JSON; a JSON text that
  is not an object leaves an empty state.  Every agent is given its member of
  the new object, which is created when missing.
\<close>

definition load_agent :: "composite_state \<Rightarrow> wstr \<Rightarrow> composite_state" where
  "load_agent c agentName =
    (let found = (case hget (m_stateObject c) agentName of
                    None \<Rightarrow> None
                  | Some e \<Rightarrow> (case e of Shared a \<Rightarrow> Some (a, m_store c)
                                | Plain v \<Rightarrow> (case asObject v of None \<Rightarrow> None
                                             | Some ob \<Rightarrow> Some (length (m_store c), m_store c @ [ob]))));
         (a, st) = (case found of None \<Rightarrow> (length (m_store c), m_store c @ [emptyObject]) | Some p \<Rightarrow> p)
     in c\<lparr>m_store := st,
          m_stateObject := hset agentName (Shared a) (m_stateObject c),
          m_inspectorStateMap :=
            map (\<lambda>(k, s). (k, if k = agentName then setFromCookie a s else s)) (m_inspectorStateMap c)\<rparr>)"

definition loadFromCookie :: "platform \<Rightarrow> wstr \<Rightarrow> composite_state \<Rightarrow> composite_state cxx" where
  "loadFromCookie P inspectorCompositeStateCookie c =
    bind_cxx (parseJSON P inspectorCompositeStateCookie) (\<lambda>cookie.
      let stateObject = (case cookie of
                           None \<Rightarrow> m_stateObject c
                         | Some v \<Rightarrow> (case asObject v of
                                       None \<Rightarrow> []
                                     | Some ob \<Rightarrow> map (\<lambda>(k, w). (k, Plain w)) (m_data ob)));
          c = c\<lparr>m_stateObject := stateObject\<rparr>
      in Val (foldl load_agent c (hkeys (m_inspectorStateMap c))))"

section \<open>The agents and the cookie stay linked\<close>

definition linked :: "composite_state \<Rightarrow> wstr \<Rightarrow> bool" where
  "linked c k \<longleftrightarrow>
    (\<forall>s. hget (m_inspectorStateMap c) k = Some s \<longrightarrow>
      m_properties s < length (m_store c) \<and> hget (m_stateObject c) k = Some (Shared (m_properties s)))"

definition entries_ok :: "composite_state \<Rightarrow> bool" where
  "entries_ok c \<longleftrightarrow> hmap_ok (m_stateObject c) \<and> list_all object_ok (m_store c) \<and>
    (\<forall>k a. hget (m_stateObject c) k = Some (Shared a) \<longrightarrow> a < length (m_store c)) \<and>
    (\<forall>k v. hget (m_stateObject c) k = Some (Plain v) \<longrightarrow> json_ok v) \<and>
    (\<forall>k k' a. hget (m_stateObject c) k = Some (Shared a) \<longrightarrow> hget (m_stateObject c) k' = Some (Shared a) \<longrightarrow> k = k')"

definition composite_ok :: "composite_state \<Rightarrow> bool" where
  "composite_ok c \<longleftrightarrow> entries_ok c \<and> (\<forall>k. linked c k)"

lemma hget_map_values: "hget (map (\<lambda>(k, v). (k, f v)) m) k = map_option f (hget m k)"
  by (induction m) (auto simp: hget_def)

lemma hkeys_map_values [simp]: "hkeys (map (\<lambda>(k, v). (k, f k v)) m) = hkeys m"
  by (induction m) (auto simp: hkeys_def)

lemma hmap_ok_hkeys: "hmap_ok m \<longleftrightarrow> distinct (hkeys m)"
  by (simp add: hmap_ok_def hkeys_def)

lemma hcontains_hkeys: "hkeys m = hkeys m' \<Longrightarrow> hcontains m k \<longleftrightarrow> hcontains m' k"
  by (metis hcontains_def set_hkeys)

lemma getValue_state_object: "getValue (state_object c) k = map_option (entry_json (m_store c)) (hget (m_stateObject c) k)"
  by (simp add: getValue_def state_object_def hget_map_values)

lemma object_ok_nth: "list_all object_ok st \<Longrightarrow> a < length st \<Longrightarrow> object_ok (st ! a)"
  by (simp add: list_all_length)

lemma state_object_ok:
  assumes "entries_ok c"
  shows "object_ok (state_object c)"
  unfolding object_ok_iff
proof (intro conjI allI impI)
  show "object_shape (state_object c)"
    using assms by (simp add: object_shape_def state_object_def entries_ok_def hmap_ok_def) (simp add: hkeys_def)
  fix k v assume "getValue (state_object c) k = Some v"
  then obtain e where "hget (m_stateObject c) k = Some e" "v = entry_json (m_store c) e"
    by (auto simp: getValue_state_object)
  with assms show "json_ok v"
    by (cases e) (auto simp: entries_ok_def entry_json_def object_ok_nth)
qed

lemma agent_properties_linked:
  "linked c k \<Longrightarrow> hcontains (m_inspectorStateMap c) k \<Longrightarrow>
   agent_properties c k = Some ob \<longleftrightarrow> getValue (state_object c) k = Some (JSONObject ob)"
  by (auto simp: linked_def hcontains_def agent_properties_def getValue_state_object entry_json_def)

lemma agent_properties_contains: "agent_properties c k = Some ob \<Longrightarrow> hcontains (m_inspectorStateMap c) k"
  by (auto simp: agent_properties_def hcontains_def split: option.splits)

lemma new_composite_state_ok: "composite_ok (new_composite_state client)"
  by (simp add: composite_ok_def entries_ok_def linked_def new_composite_state_def)

lemma createAgentState_ok:
  assumes "composite_ok c" "\<not> hcontains (m_inspectorStateMap c) k"
  shows "composite_ok (createAgentState k c)"
    and "agent_properties (createAgentState k c) j = (if j = k then Some emptyObject else agent_properties c j)"
proof -
  have fresh: "hget (m_stateObject c) j \<noteq> Some (Shared (length (m_store c)))" for j
    using assms(1) by (auto simp: composite_ok_def entries_ok_def)
  have "entries_ok (createAgentState k c)"
    using assms(1) fresh unfolding composite_ok_def entries_ok_def
    by (auto simp: createAgentState_def Let_def less_Suc_eq split: if_splits)
  moreover have "linked (createAgentState k c) j" for j
    using assms by (auto simp: composite_ok_def linked_def createAgentState_def Let_def hcontains_def less_Suc_eq split: if_splits)
  ultimately show "composite_ok (createAgentState k c)" by (simp add: composite_ok_def)
  show "agent_properties (createAgentState k c) j = (if j = k then Some emptyObject else agent_properties c j)"
    using assms
    by (auto simp: agent_properties_def createAgentState_def Let_def hcontains_def composite_ok_def linked_def nth_append
        less_Suc_eq split: option.splits)
qed

lemma update_properties_ok:
  assumes "composite_ok c" "agent_properties c k = Some ob" "object_ok (f ob)"
  obtains c' where "update_properties k f c = Val c'" "composite_ok c'"
    "\<And>j. agent_properties c' j = (if j = k then Some (f ob) else agent_properties c j)"
    "m_client c' = m_client c" "m_isMuted c' = m_isMuted c" "m_cookies c' = m_cookies c"
proof -
  from assms(2) obtain s where s: "hget (m_inspectorStateMap c) k = Some s" "m_properties s < length (m_store c)"
    "m_store c ! m_properties s = ob"
    by (auto simp: agent_properties_def split: option.splits if_splits)
  let ?c = "c\<lparr>m_store := (m_store c)[m_properties s := f ob]\<rparr>"
  have "update_properties k f c = Val ?c" using s by (simp add: update_properties_def)
  moreover have "composite_ok ?c"
    using assms(1,3) s(2) by (auto simp: composite_ok_def entries_ok_def linked_def list_all_length nth_list_update)
  moreover have "agent_properties ?c j = (if j = k then Some (f ob) else agent_properties c j)" for j
  proof (cases "hget (m_inspectorStateMap c) j")
    case (Some t)
    have "m_properties t = m_properties s \<Longrightarrow> j = k"
      using assms(1) s(1) Some unfolding composite_ok_def entries_ok_def linked_def by metis
    thus ?thesis using s Some by (auto simp: agent_properties_def nth_list_update)
  qed (use s in \<open>auto simp: agent_properties_def\<close>)
  ultimately show ?thesis using that by simp
qed

lemma inspectorStateUpdated_ok:
  assumes "composite_ok c"
  obtains c' where "inspectorStateUpdated P c = Val c'" "composite_ok c'" "\<And>j. agent_properties c' j = agent_properties c j"
    "state_object c' = state_object c"
    "if m_client c \<and> \<not> m_isMuted c
     then \<exists>cookie. toJSONString P (JSONObject (state_object c)) = Val cookie \<and> m_cookies c' = cookie # m_cookies c
     else m_cookies c' = m_cookies c"
proof (cases "m_client c \<and> \<not> m_isMuted c")
  case True
  have "defined (writeJSON P (JSONObject (state_object c)))"
    using assms state_object_ok by (intro writeJSON_defined) (auto simp: composite_ok_def)
  then obtain cookie where "toJSONString P (JSONObject (state_object c)) = Val cookie"
    by (auto simp: defined_iff_Val toJSONString_def)
  with True assms show ?thesis
    by (intro that [of "c\<lparr>m_cookies := cookie # m_cookies c\<rparr>"])
      (auto simp: inspectorStateUpdated_def composite_ok_def entries_ok_def linked_def agent_properties_def state_object_def
        split: option.splits)
next
  case False
  with assms show ?thesis by (intro that [of c]) (auto simp: inspectorStateUpdated_def)
qed

text \<open>
  C33: when an agent sets one of its properties, it reads the new value
  afterwards, no other agent sees a change, the composite state stays well
  formed, and an unmuted client is given a cookie that holds the new value.
\<close>

theorem agent_set_property:
  assumes "composite_ok c" "agent_properties c a = Some properties" "json_ok v"
  shows "\<exists>c'. state_setValue P a name v c = Val c' \<and> composite_ok c' \<and>
    (\<forall>b. agent_properties c' b = (if b = a then Some (setValue name v properties) else agent_properties c b)) \<and>
    getObject (state_object c') a = Some (setValue name v properties) \<and>
    (if m_client c \<and> \<not> m_isMuted c
     then \<exists>cookie. toJSONString P (JSONObject (state_object c')) = Val cookie \<and> m_cookies c' = cookie # m_cookies c
     else m_cookies c' = m_cookies c)"
proof -
  have ok: "object_ok properties"
    using assms(1,2) by (auto simp: agent_properties_def composite_ok_def entries_ok_def object_ok_nth split: option.splits if_splits)
  obtain c1 where c1: "update_properties a (setValue name v) c = Val c1" "composite_ok c1"
    "\<And>j. agent_properties c1 j = (if j = a then Some (setValue name v properties) else agent_properties c j)"
    "m_client c1 = m_client c" "m_isMuted c1 = m_isMuted c" "m_cookies c1 = m_cookies c"
    using update_properties_ok [OF assms(1,2), of "setValue name v"] ok assms(3) by auto
  obtain c2 where c2: "inspectorStateUpdated P c1 = Val c2" "composite_ok c2" "\<And>j. agent_properties c2 j = agent_properties c1 j"
    "state_object c2 = state_object c1"
    "if m_client c1 \<and> \<not> m_isMuted c1
     then \<exists>cookie. toJSONString P (JSONObject (state_object c1)) = Val cookie \<and> m_cookies c2 = cookie # m_cookies c1
     else m_cookies c2 = m_cookies c1"
    using inspectorStateUpdated_ok [OF c1(2)] by blast
  have "agent_properties c2 a = Some (setValue name v properties)" using c1(3) c2(3) by simp
  moreover from this have "getValue (state_object c2) a = Some (JSONObject (setValue name v properties))"
    using c2(2) agent_properties_linked agent_properties_contains by (metis composite_ok_def)
  ultimately show ?thesis
    using c1 c2 by (auto simp: state_setValue_def updateCookie_def getObject_def)
qed

section \<open>Loading a cookie\<close>

lemma load_agent_frame [simp]:
  "hkeys (m_inspectorStateMap (load_agent c k)) = hkeys (m_inspectorStateMap c)"
  "m_client (load_agent c k) = m_client c" "m_isMuted (load_agent c k) = m_isMuted c" "m_cookies (load_agent c k) = m_cookies c"
  by (simp_all add: load_agent_def split: prod.splits)

definition object_or_empty :: "composite_state \<Rightarrow> wstr \<Rightarrow> json_object" where
  "object_or_empty c k = (case getObject (state_object c) k of None \<Rightarrow> emptyObject | Some ob \<Rightarrow> ob)"

text \<open>Loading one agent: its address in the store and what the store becomes.\<close>

lemma load_agent_cases:
  assumes "entries_ok c"
  obtains (shared) a where "hget (m_stateObject c) k = Some (Shared a)" "a < length (m_store c)"
      "load_agent c k = c\<lparr>m_stateObject := hset k (Shared a) (m_stateObject c),
         m_inspectorStateMap := map (\<lambda>(j, s). (j, if j = k then setFromCookie a s else s)) (m_inspectorStateMap c)\<rparr>"
      "m_store c ! a = object_or_empty c k"
  | (fresh) "load_agent c k = c\<lparr>m_store := m_store c @ [object_or_empty c k],
         m_stateObject := hset k (Shared (length (m_store c))) (m_stateObject c),
         m_inspectorStateMap :=
           map (\<lambda>(j, s). (j, if j = k then setFromCookie (length (m_store c)) s else s)) (m_inspectorStateMap c)\<rparr>"
      "object_ok (object_or_empty c k)"
proof (cases "hget (m_stateObject c) k")
  case None
  thus ?thesis using that(2) by (simp add: load_agent_def object_or_empty_def getObject_def getValue_state_object)
next
  case (Some e)
  show ?thesis
  proof (cases e)
    case (Shared a)
    moreover have "a < length (m_store c)" using Some Shared assms by (auto simp: entries_ok_def)
    ultimately show ?thesis
      using Some that(1) [of a]
      by (simp add: load_agent_def object_or_empty_def getObject_def getValue_state_object entry_json_def)
  next
    case (Plain v)
    have "json_ok v" using Some Plain assms by (auto simp: entries_ok_def)
    with Some Plain that(2) show ?thesis
      by (cases v) (simp_all add: load_agent_def object_or_empty_def getObject_def getValue_state_object entry_json_def json_as_defs)
  qed
qed

lemma hget_map_at:
  "hget (map (\<lambda>(j, s). (j, if j = k then f s else s)) m) j = map_option (\<lambda>s. if j = k then f s else s) (hget m j)"
  by (induction m) (auto simp: hget_def)

lemma load_agent_ok:
  assumes "entries_ok c"
  shows "entries_ok (load_agent c k) \<and> linked (load_agent c k) k \<and> (linked c j \<longrightarrow> linked (load_agent c k) j) \<and>
    getValue (state_object (load_agent c k)) j =
       (if j = k then Some (JSONObject (object_or_empty c k)) else getValue (state_object c) j)"
proof (rule load_agent_cases [OF assms, of k], goal_cases)
  case (1 a)
  note shared = 1
  have "entries_ok (load_agent c k)"
    using assms shared(1,2) unfolding shared(3) entries_ok_def by auto
  moreover have "linked (load_agent c k) k" "linked c j \<Longrightarrow> linked (load_agent c k) j"
    using shared(1,2) by (auto simp: shared(3) linked_def hget_map_at setFromCookie_def)
  ultimately show ?thesis
    using shared(2,4) by (simp add: getValue_state_object shared(3) entry_json_def)
next
  case 2
  note fresh = 2
  have "hget (m_stateObject c) i \<noteq> Some (Shared (length (m_store c)))" for i
    using assms by (auto simp: entries_ok_def)
  hence "entries_ok (load_agent c k)"
    using assms fresh(2) unfolding fresh(1) entries_ok_def by (auto simp: less_Suc_eq)
  moreover have "linked (load_agent c k) k" "linked c j \<Longrightarrow> linked (load_agent c k) j"
    by (auto simp: fresh(1) linked_def hget_map_at setFromCookie_def)
  moreover have "i \<noteq> k \<Longrightarrow> getValue (state_object (load_agent c k)) i = getValue (state_object c) i" for i
    using assms
    by (cases "hget (m_stateObject c) i")
      (auto simp: getValue_state_object fresh(1) entry_json_def entries_ok_def nth_append split: state_entry.splits)
  ultimately show ?thesis by (auto simp: getValue_state_object fresh(1) entry_json_def)
qed

lemma load_agents_ok:
  assumes "entries_ok c"
  shows "entries_ok (foldl load_agent c ks) \<and> (j \<in> set ks \<or> linked c j \<longrightarrow> linked (foldl load_agent c ks) j) \<and>
    hkeys (m_inspectorStateMap (foldl load_agent c ks)) = hkeys (m_inspectorStateMap c) \<and>
    getValue (state_object (foldl load_agent c ks)) j =
       (if j \<in> set ks then Some (JSONObject (object_or_empty c j)) else getValue (state_object c) j)"
  using assms
proof (induction ks arbitrary: c)
  case (Cons k ks)
  note ok = load_agent_ok [OF Cons.prems, of k j]
  have "object_or_empty (load_agent c k) j = object_or_empty c j"
    using ok by (cases "j = k") (auto simp: object_or_empty_def getObject_def)
  with ok Cons.IH [of "load_agent c k"] show ?case by (auto simp: load_agent_ok [OF Cons.prems])
qed simp

lemma loadFromCookie_object:
  assumes "composite_ok c" "parseJSON P cookie = Val (Some (JSONObject ob))" "object_ok ob"
  obtains c' where "loadFromCookie P cookie c = Val c'" "composite_ok c'"
    "\<And>k. agent_properties c' k =
       (if hcontains (m_inspectorStateMap c) k
        then Some (case getObject ob k of None \<Rightarrow> emptyObject | Some o' \<Rightarrow> o') else None)"
proof -
  let ?c0 = "c\<lparr>m_stateObject := map (\<lambda>(k, w). (k, Plain w)) (m_data ob)\<rparr>"
  let ?c1 = "foldl load_agent ?c0 (hkeys (m_inspectorStateMap c))"
  have shape: "object_shape ob" "\<And>k v. getValue ob k = Some v \<Longrightarrow> json_ok v"
    using assms(3) by (auto simp: object_ok_iff)
  have "hkeys (map (\<lambda>(k, w). (k, Plain w)) (m_data ob)) = hkeys (m_data ob)" by simp
  hence "hmap_ok (map (\<lambda>(k, w). (k, Plain w)) (m_data ob))"
    using object_shape_hmap_ok [OF shape(1)] by (simp only: hmap_ok_hkeys)
  hence ok: "entries_ok ?c0"
    using assms(1) shape by (auto simp: composite_ok_def entries_ok_def hget_map_values getValue_def)
  have "getValue (state_object ?c0) k = getValue ob k" for k
    by (simp add: getValue_state_object hget_map_values option.map_comp comp_def entry_json_def option.map_ident)
      (simp add: getValue_def)
  hence obj: "getObject (state_object ?c0) k = getObject ob k" for k
    by (simp add: getObject_def)
  have all: "linked ?c1 k" for k
  proof (cases "hcontains (m_inspectorStateMap c) k")
    case True
    thus ?thesis using load_agents_ok [OF ok, of "hkeys (m_inspectorStateMap c)" k] by (simp add: hcontains_def set_hkeys)
  next
    case False
    hence "linked ?c0 k" by (simp add: linked_def hcontains_def)
    thus ?thesis using load_agents_ok [OF ok] by blast
  qed
  have keys: "hcontains (m_inspectorStateMap ?c1) k = hcontains (m_inspectorStateMap c) k" for k
    using load_agents_ok [OF ok] by (intro hcontains_hkeys) simp
  have "agent_properties ?c1 k =
       (if hcontains (m_inspectorStateMap c) k
        then Some (case getObject ob k of None \<Rightarrow> emptyObject | Some o' \<Rightarrow> o') else None)" for k
  proof (cases "hcontains (m_inspectorStateMap c) k")
    case True
    hence "getValue (state_object ?c1) k = Some (JSONObject (object_or_empty ?c0 k))"
      using load_agents_ok [OF ok, of "hkeys (m_inspectorStateMap c)" k] by (simp add: hcontains_def set_hkeys)
    thus ?thesis using agent_properties_linked [OF all, of k] keys True by (simp add: object_or_empty_def obj)
  next
    case False
    thus ?thesis using keys agent_properties_contains by (metis not_None_eq)
  qed
  moreover have "loadFromCookie P cookie c = Val ?c1" using assms(2) by (simp add: loadFromCookie_def)
  moreover have "composite_ok ?c1" using all load_agents_ok [OF ok] unfolding composite_ok_def by blast
  ultimately show ?thesis using that by blast
qed

text \<open>The state the witnesses use: two agents without properties, and a client.\<close>

definition sample_state :: composite_state where
  "sample_state = createAgentState (lit ''debugger'') (createAgentState (lit ''runtime'') (new_composite_state True))"

lemma sample_state_ok: "composite_ok sample_state"
  unfolding sample_state_def
  by (intro createAgentState_ok(1) new_composite_state_ok)
    (simp_all add: createAgentState_def new_composite_state_def hadd_def hcontains_def hget_def Let_def lit_simps)


lemma sample_debugger: "agent_properties sample_state (lit ''debugger'') = Some emptyObject"
  by (simp add: sample_state_def agent_properties_def createAgentState_def new_composite_state_def hadd_def hget_def
      Let_def lit_simps)

theorem agent_set_property_witness:
  "\<exists>c'. state_setValue sample_platform (lit ''debugger'') (lit ''enabled'') (JSONBoolean True) sample_state = Val c' \<and>
    state_getBoolean (the (agent_properties c' (lit ''debugger''))) (lit ''enabled'')"
  using agent_set_property [OF sample_state_ok, of "lit ''debugger''" emptyObject "JSONBoolean True" sample_platform "lit ''enabled''"]
    sample_debugger
  by (auto simp: state_getBoolean_def)


end
