(* ===== verification/Content_Search.thy ===== *)
theory Content_Search
  imports JSON_Roundtrip
begin

text \<open>
  Searching script sources (\<^verbatim>\<open>Source/core/inspector/ContentSearchUtils.cpp\<close>): the
  search by lines, the quoting of a literal query for the regular expression
  engine, and the magic comments that name a script or its source map.
\<close>

section \<open>Searching by lines\<close>

definition regexSpecialCharacters :: wstr where
  "regexSpecialCharacters = lit ''[](){}+-*.,?'' @ [uc CHR 0x5C] @ lit ''^$|''"

definition createSearchRegexSource :: "wstr \<Rightarrow> wstr" where
  "createSearchRegexSource text =
    concat (map (\<lambda>c. if find_char regexSpecialCharacters c 0 \<noteq> None then [uc CHR 0x5C, c] else [c]) text)"

text \<open>
  A compiled regular expression is the engine's business: \<^verbatim>\<open>ScriptRegexp\<close> is given
  by its source and case sensitivity, and \<open>matches\<close> is the engine's verdict on a line.
\<close>

record ScriptRegexp =
  pattern_of :: wstr
  caseSensitive_of :: bool

definition createSearchRegex :: "wstr \<Rightarrow> bool \<Rightarrow> bool \<Rightarrow> ScriptRegexp" where
  "createSearchRegex query caseSensitive isRegex =
    \<lparr>pattern_of = (if isRegex then query else createSearchRegexSource query), caseSensitive_of = caseSensitive\<rparr>"

fun matches_by_lines :: "(wstr \<Rightarrow> bool) \<Rightarrow> wstr \<Rightarrow> nat \<Rightarrow> nat \<Rightarrow> nat list \<Rightarrow> (nat \<times> wstr) list" where
  "matches_by_lines p text start lineNumber [] = []"
| "matches_by_lines p text start lineNumber (lineEnd # endings) =
    (let line = substring text start (lineEnd - start);
         line = (if endsWith_char line 13 then substring line 0 (length line - 1) else line)
     in (if p line then [(lineNumber, line)] else []) @ matches_by_lines p text (lineEnd + 1) (lineNumber + 1) endings)"

definition getScriptRegexpMatchesByLines :: "(wstr \<Rightarrow> bool) \<Rightarrow> wstr \<Rightarrow> (nat \<times> wstr) list" where
  "getScriptRegexpMatchesByLines p text =
    (if text = [] then [] else matches_by_lines p text 0 0 (lineEndings text))"

definition buildObjectForSearchMatch :: "nat \<Rightarrow> wstr \<Rightarrow> json_object" where
  "buildObjectForSearchMatch lineNumber lineContent =
    setString (lit ''lineContent'') lineContent
      (setNumber (lit ''lineNumber'') (DFin (rat_of_nat lineNumber)) emptyObject)"

definition searchInTextByLines ::
  "(ScriptRegexp \<Rightarrow> wstr \<Rightarrow> bool) \<Rightarrow> wstr \<Rightarrow> wstr \<Rightarrow> bool \<Rightarrow> bool \<Rightarrow> json list" where
  "searchInTextByLines matches text query caseSensitive isRegex =
    (let regex = createSearchRegex query caseSensitive isRegex
     in map (\<lambda>(n, line). JSONObject (buildObjectForSearchMatch n line))
          (getScriptRegexpMatchesByLines (matches regex) text))"

section \<open>Magic comments\<close>

datatype MagicCommentType = JavaScriptMagicComment | CSSMagicComment

definition magic_prefix :: "wstr \<Rightarrow> nat \<Rightarrow> MagicCommentType \<Rightarrow> nat \<Rightarrow> bool" where
  "magic_prefix content nameLength commentType pos \<longleftrightarrow>
    content ! pos = uc CHR ''/'' \<and>
    \<not> ((content ! (pos + 1) \<noteq> uc CHR ''/'' \<or> commentType \<noteq> JavaScriptMagicComment) \<and>
       (content ! (pos + 1) \<noteq> uc CHR ''*'' \<or> commentType \<noteq> CSSMagicComment)) \<and>
    \<not> (content ! (pos + 2) \<noteq> uc CHR ''#'' \<and> content ! (pos + 2) \<noteq> uc CHR ''@'') \<and>
    \<not> (content ! (pos + 3) \<noteq> uc CHR '' '' \<and> content ! (pos + 3) \<noteq> 9) \<and>
    \<not> (pos + 4 + nameLength < length content \<and> content ! (pos + 4 + nameLength) \<noteq> uc CHR ''='')"

text \<open>The loop: the position of the comment, and of the end of a style comment.\<close>

function magic_loop :: "wstr \<Rightarrow> wstr \<Rightarrow> MagicCommentType \<Rightarrow> nat \<Rightarrow> (nat \<times> nat) option" where
  "magic_loop content name commentType start =
    (case StringImpl_reverseFind content name start of
       None \<Rightarrow> None
     | Some pos \<Rightarrow>
         (if pos < 4 then None
          else if \<not> magic_prefix content (length name) commentType (pos - 4) then magic_loop content name commentType (pos - 4)
          else if commentType = CSSMagicComment
          then (case StringImpl_find content (lit ''*/'') (pos + length name + 1) of
                  None \<Rightarrow> None
                | Some closingCommentPos \<Rightarrow> Some (pos - 4, closingCommentPos))
          else Some (pos - 4, 0)))"
  by pat_completeness auto

termination magic_loop
  by (relation "measure (\<lambda>(content, name, commentType, start). start)") (auto simp: StringImpl_reverseFind_Some)

declare magic_loop.simps [simp del]

definition findMagicComment :: "platform \<Rightarrow> wstr \<Rightarrow> wstr \<Rightarrow> MagicCommentType \<Rightarrow> wstr option \<times> bool" where
  "findMagicComment P content name commentType =
    (case magic_loop content name commentType (length content) of
       None \<Rightarrow> (None, False)
     | Some (pos, closingCommentPos) \<Rightarrow>
         let deprecated = (content ! (pos + 2) = uc CHR ''@'');
             urlPos = pos + 4 + length name + 1;
             match = (if commentType = CSSMagicComment then substring content urlPos (closingCommentPos - urlPos)
                      else substring_from content urlPos);
             match = (case StringImpl_find match [10] 0 of None \<Rightarrow> match | Some newLine \<Rightarrow> substring match 0 newLine);
             match = stripWhiteSpace P match;
             disallowedChars = [uc CHR 0x22, uc CHR 0x27, uc CHR '' '', 9]
         in if list_ex (\<lambda>c. find_char disallowedChars c 0 \<noteq> None) match then (Some [], deprecated)
            else (Some match, deprecated))"

definition findSourceURL :: "platform \<Rightarrow> wstr \<Rightarrow> MagicCommentType \<Rightarrow> wstr option \<times> bool" where
  "findSourceURL P content commentType = findMagicComment P content (lit ''sourceURL'') commentType"

definition findSourceMapURL :: "platform \<Rightarrow> wstr \<Rightarrow> MagicCommentType \<Rightarrow> wstr option \<times> bool" where
  "findSourceMapURL P content commentType = findMagicComment P content (lit ''sourceMappingURL'') commentType"

section \<open>Escaping keeps the text\<close>

text \<open>What a regular expression without operators denotes: a backslash stands for the character after it.\<close>

fun unescape :: "wstr \<Rightarrow> wstr option" where
  "unescape [] = Some []"
| "unescape (c # s) =
    (if c = uc CHR 0x5C then (case s of [] \<Rightarrow> None | d # t \<Rightarrow> map_option (Cons d) (unescape t))
     else if c \<in> set regexSpecialCharacters then None
     else map_option (Cons c) (unescape s))"

lemma find_char_mem: "find_char s c 0 \<noteq> None \<longleftrightarrow> c \<in> set s"
  using find_char_None [of s c 0] by (auto simp: in_set_conv_nth)


section \<open>The lines of a text\<close>

fun split_lines :: "wstr \<Rightarrow> wstr list" where
  "split_lines [] = [[]]"
| "split_lines (c # s) =
    (if c = 10 then [] # split_lines s else (case split_lines s of [] \<Rightarrow> [[c]] | l # ls \<Rightarrow> (c # l) # ls))"

definition strip_cr :: "wstr \<Rightarrow> wstr" where
  "strip_cr l = (if l \<noteq> [] \<and> last l = 13 then butlast l else l)"

lemma strip_cr_eq: "(if endsWith_char l 13 then substring l 0 (length l - 1) else l) = strip_cr l"
  by (cases l rule: rev_cases) (auto simp: strip_cr_def endsWith_char_def substring_def)

lemma find_map_option: "List.find p (map f xs) = map_option f (List.find (\<lambda>x. p (f x)) xs)"
  by (induction xs) auto

lemma find_char_drop: "i \<le> length s \<Longrightarrow> find_char s c i = map_option ((+) i) (find_char (drop i s) c 0)"
  using find_shift [of i "\<lambda>k. s ! k = c" 0 "length s - i"] by (simp add: find_char_def)

lemma find_char_Nil: "find_char [] c 0 = None"
  by (simp add: find_char_None)

lemma find_char_Cons: "find_char (x # s) c 0 = (if x = c then Some 0 else map_option Suc (find_char s c 0))"
proof -
  have "[0..<length (x # s)] = 0 # map Suc [0..<length s]" by (simp add: map_Suc_upt upt_conv_Cons del: upt_Suc)
  thus ?thesis unfolding find_char_def by (simp only: find_map_option List.find.simps) simp
qed

lemma split_lines_find:
  "split_lines s = (case find_char s 10 0 of None \<Rightarrow> [s] | Some j \<Rightarrow> take j s # split_lines (drop (Suc j) s))"
proof (induction s)
  case (Cons c s)
  show ?case
  proof (cases "find_char s 10 0")
    case None
    with Cons have "split_lines s = [s]" by simp
    thus ?thesis using None by (simp add: find_char_Cons)
  next
    case (Some j)
    with Cons have "split_lines s = take j s # split_lines (drop (Suc j) s)" by simp
    thus ?thesis using Some by (simp add: find_char_Cons)
  qed
qed (simp add: find_char_Nil)

lemma uc_newline: "uc CHR ''\<newline>'' = 10"
  by simp

lemma matches_by_lines_eq:
  "start \<le> length t \<Longrightarrow>
   matches_by_lines p t start n (lineEndings_loop t start) =
     filter (\<lambda>(i, l). p l) (enumerate n (map strip_cr (split_lines (drop start t))))"
proof (induction t start arbitrary: n rule: lineEndings_loop.induct)
  case (1 t start)
  show ?case
  proof (cases "find_char t 10 start")
    case None
    hence "find_char (drop start t) 10 0 = None" using "1.prems" find_char_drop [of start t 10] by (cases "find_char (drop start t) 10 0") auto
    hence "split_lines (drop start t) = [drop start t]" by (subst split_lines_find) simp
    moreover have "lineEndings_loop t start = [length t]"
      using None by (subst lineEndings_loop.simps) simp
    moreover have "substring t start (length t - start) = drop start t" by (auto simp: substring_def Let_def)
    ultimately show ?thesis
      by (simp only: matches_by_lines.simps Let_def strip_cr_eq list.map enumerate_simps filter.simps prod.case append_Nil2)
  next
    case (Some j)
    hence j: "start \<le> j" "j < length t" using find_char_Some by auto
    hence "find_char (drop start t) 10 0 = Some (j - start)"
      using find_char_drop [of start t 10] Some "1.prems" by (cases "find_char (drop start t) 10 0") auto
    hence "split_lines (drop start t) = take (j - start) (drop start t) # split_lines (drop (Suc j) t)"
      using j by (subst split_lines_find) simp
    moreover have "lineEndings_loop t start = j # lineEndings_loop t (j + 1)"
      using Some j by (subst lineEndings_loop.simps) simp
    moreover have "substring t start (j - start) = take (j - start) (drop start t)"
      using j by (auto simp: substring_def Let_def)
    moreover have "matches_by_lines p t (j + 1) (Suc n) (lineEndings_loop t (j + 1)) =
        filter (\<lambda>(i, l). p l) (enumerate (Suc n) (map strip_cr (split_lines (drop (Suc j) t))))"
      using "1.IH" [of j "Suc n"] Some j by (simp only: uc_newline) simp
    ultimately show ?thesis
      by (simp only: matches_by_lines.simps Let_def strip_cr_eq list.map enumerate_simps filter.simps prod.case
          Suc_eq_plus1 [symmetric]) simp
  qed
qed

text \<open>
  C35: a search by lines is the filter of the numbered lines of the text: the
  line separators are line feeds, a carriage return before one is not part of
  the line, and an empty text has no line at all.
\<close>

theorem search_by_lines:
  "getScriptRegexpMatchesByLines p t =
    (if t = [] then [] else filter (\<lambda>(i, l). p l) (enumerate 0 (map strip_cr (split_lines t))))"
  using matches_by_lines_eq [of 0 t p 0] by (simp only: getScriptRegexpMatchesByLines_def lineEndings_def drop_0 le0)

section \<open>The last magic comment is found\<close>

definition magic_at :: "wstr \<Rightarrow> wstr \<Rightarrow> nat \<Rightarrow> bool" where
  "magic_at content name p \<longleftrightarrow>
    equal_at content name (p + 4) \<and> magic_prefix content (length name) JavaScriptMagicComment p"

text \<open>
  The loop steps four characters back from an occurrence that is not a comment.
  It skips no occurrence if the first letter of the name is not among the three
  that follow, as is the case for both names.
\<close>

definition head_unique :: "wstr \<Rightarrow> bool" where
  "head_unique name \<longleftrightarrow> 4 \<le> length name \<and> name ! 0 \<noteq> name ! 1 \<and> name ! 0 \<noteq> name ! 2 \<and> name ! 0 \<noteq> name ! 3"

lemma equal_at_nth: "equal_at s m i \<Longrightarrow> k < length m \<Longrightarrow> s ! (i + k) = m ! k"
  unfolding equal_at_def by (metis length_take min_less_iff_conj nth_drop nth_take linorder_not_less nat_le_linear drop_all length_drop list.size(3) not_less0 take_Nil)

lemma equal_at_apart:
  assumes "head_unique name" "equal_at s name i" "equal_at s name j" "i < j"
  shows "i + 4 \<le> j"
proof (rule ccontr)
  assume "\<not> i + 4 \<le> j"
  then obtain k where k: "j = i + k" "0 < k" "k < 4" using assms(4) by (metis add_less_cancel_left less_imp_add_positive not_le)
  have "s ! (i + k) = name ! k" "s ! (j + 0) = name ! 0"
    using equal_at_nth [OF assms(2), of k] equal_at_nth [OF assms(3), of 0] assms(1) k by (force simp: head_unique_def)+
  hence "name ! 0 = name ! k" using k(1) by simp
  moreover have "k = 1 \<or> k = 2 \<or> k = 3" using k by auto
  ultimately show False using assms(1) by (auto simp: head_unique_def)
qed

lemma equal_at_bound: "head_unique name \<Longrightarrow> equal_at s name p \<Longrightarrow> p + 4 \<le> length s"
  using equal_at_Cons_length [of s "hd name" "tl name" p] by (cases name) (auto simp: head_unique_def)

lemma magic_loop_greatest:
  assumes "head_unique name"
  shows "magic_loop content name JavaScriptMagicComment start =
    map_option (\<lambda>p. (p, 0))
      (List.find (\<lambda>p. p + 4 \<le> start \<and> magic_at content name p) (rev [0..<Suc (length content)]))"
    (is "?lhs start = map_option _ (List.find (?Q start) _)")
proof (induction start rule: less_induct)
  case (less start)
  note bound = equal_at_bound [OF assms, of content]
  show ?case
  proof (cases "StringImpl_reverseFind content name start")
    case None
    hence "\<not> ?Q start p" for p
      using bound [of "p + 4"] by (auto simp: StringImpl_reverseFind_None magic_at_def)
    hence "List.find (?Q start) (rev [0..<Suc (length content)]) = None" by (simp add: find_None_iff del: upt_Suc)
    thus ?thesis using None by (simp add: magic_loop.simps del: upt_Suc)
  next
    case (Some pos)
    hence pos: "pos \<le> start" "equal_at content name pos" "pos \<le> length content"
      by (auto simp: StringImpl_reverseFind_Some)
    have last: "q \<le> pos" if "q \<le> start" "equal_at content name q" for q
      using Some that bound [OF that(2)] by (metis StringImpl_reverseFind_Some add_leD1 not_less)
    consider "pos < 4" | "4 \<le> pos" "magic_prefix content (length name) JavaScriptMagicComment (pos - 4)"
      | "4 \<le> pos" "\<not> magic_prefix content (length name) JavaScriptMagicComment (pos - 4)" by linarith
    thus ?thesis
    proof cases
      case 1
      hence "\<not> ?Q start p" for p using last [of "p + 4"] by (auto simp: magic_at_def)
      hence "List.find (?Q start) (rev [0..<Suc (length content)]) = None" by (simp add: find_None_iff del: upt_Suc)
      thus ?thesis using Some 1 by (simp add: magic_loop.simps del: upt_Suc)
    next
      case 2
      have "List.find (?Q start) (rev [0..<Suc (length content)]) = Some (pos - 4)"
        unfolding find_rev_upt_Some using 2 pos last by (fastforce simp: magic_at_def)
      thus ?thesis using Some 2 by (simp add: magic_loop.simps del: upt_Suc)
    next
      case 3
      have "?Q start p \<longleftrightarrow> ?Q (pos - 4) p" for p
      proof
        assume Q: "?Q start p"
        hence "p + 4 \<le> pos" using last by (simp add: magic_at_def)
        moreover have "p + 4 \<noteq> pos" using Q 3 by (auto simp: magic_at_def)
        ultimately have "p + 4 + 4 \<le> pos"
          using Q pos(2) by (intro equal_at_apart [OF assms, of content]) (auto simp: magic_at_def)
        thus "?Q (pos - 4) p" using Q by simp
      qed (use pos(1) in auto)
      thus ?thesis using Some 3 less [of "pos - 4"] pos(1) by (simp add: magic_loop.simps del: upt_Suc)
    qed
  qed
qed

text \<open>The url of a comment, cut at the end of the line; one that contains a quote or a blank is refused.\<close>

definition magic_url :: "platform \<Rightarrow> wstr \<Rightarrow> wstr" where
  "magic_url P s =
    (let url = stripWhiteSpace P (takeWhile (\<lambda>c. c \<noteq> 10) s)
     in if list_ex (\<lambda>c. c = 34 \<or> c = 39 \<or> c = 32 \<or> c = 9) url then [] else url)"

lemma find_newline: "(case StringImpl_find s [10] 0 of None \<Rightarrow> s | Some i \<Rightarrow> substring s 0 i) = takeWhile (\<lambda>c. c \<noteq> 10) s"
proof -
  have "(case find_char s 10 0 of None \<Rightarrow> s | Some i \<Rightarrow> take i s) = takeWhile (\<lambda>c. c \<noteq> 10) s"
    by (induction s) (auto simp: find_char_Nil find_char_Cons split: option.splits)
  moreover have "find_char s 10 0 = Some i \<Longrightarrow> substring s 0 i = take i s" for i
    using find_char_Some [of s 10 0 i] by (auto simp: substring_def)
  ultimately show ?thesis by (auto simp: StringImpl_find_def split: option.splits)
qed

lemma findMagicComment_eq:
  assumes "head_unique name" "length content < 2 ^ 32"
  shows "findMagicComment P content name JavaScriptMagicComment =
    (case List.find (magic_at content name) (rev [0..<Suc (length content)]) of
       None \<Rightarrow> (None, False)
     | Some p \<Rightarrow> (Some (magic_url P (drop (p + 4 + length name + 1) content)), content ! (p + 2) = uc CHR ''@''))"
proof -
  have "List.find (\<lambda>p. p + 4 \<le> length content \<and> magic_at content name p) (rev [0..<Suc (length content)]) =
      List.find (magic_at content name) (rev [0..<Suc (length content)])"
    using equal_at_bound [OF assms(1), of content] by (intro find_cong_set) (fastforce simp: magic_at_def)
  moreover have "substring_from content k = drop k content" for k
    using assms(2) by (auto simp: substring_def Let_def)
  ultimately show ?thesis
    unfolding findMagicComment_def magic_loop_greatest [OF assms(1)]
    by (cases "List.find (magic_at content name) (rev [0..<Suc (length content)])")
      (simp_all add: find_newline magic_url_def find_char_mem Let_def del: upt_Suc not_None_eq)
qed

lemma names_head_unique: "head_unique (lit ''sourceURL'')" "head_unique (lit ''sourceMappingURL'')"
  by (simp_all add: head_unique_def lit_simps)

text \<open>
  C36: the source url of a script is that of the last magic comment in it, and
  there is none exactly if no such comment exists: the search from the end does
  terminate, skips no comment on its way, and reports the deprecated form.
\<close>

theorem findSourceURL_last:
  assumes "length content < 2 ^ 32"
  shows "findSourceURL P content JavaScriptMagicComment =
    (case List.find (magic_at content (lit ''sourceURL'')) (rev [0..<Suc (length content)]) of
       None \<Rightarrow> (None, False)
     | Some p \<Rightarrow> (Some (magic_url P (drop (p + 14) content)), content ! (p + 2) = uc CHR ''@''))"
proof -
  have "p + 4 + length (lit ''sourceURL'') + 1 = p + 14" for p by (simp add: lit_simps)
  thus ?thesis unfolding findSourceURL_def findMagicComment_eq [OF names_head_unique(1) assms, of P] by (simp only:)
qed

definition sample_script :: wstr where
  "sample_script = lit ''//# sourceURL=a'' @ [10] @ lit ''//@ sourceURL= b.js''"

theorem findSourceURL_last_witness:
  "findSourceURL sample_platform sample_script JavaScriptMagicComment = (Some (lit ''b.js''), True)"
proof -
  have len: "length sample_script = 35" by (simp add: sample_script_def lit_simps)
  have "List.find (magic_at sample_script (lit ''sourceURL'')) (rev [0..<Suc 35]) = Some 16"
    by code_simp
  moreover have "magic_url sample_platform (drop (16 + 14) sample_script) = lit ''b.js''"
    by (simp add: sample_script_def magic_url_def lit_simps stripWhiteSpace_def stripMatchedCharacters_def
        isSpaceOrNewline_def isASCIISpace_def sample_platform_def)
  ultimately show ?thesis
    using findSourceURL_last [of sample_script sample_platform] unfolding len
    by (simp add: sample_script_def lit_simps del: upt_Suc)
qed

end
