(* ===== verification/Debugger_State.thy ===== *)
theory Debugger_State
  imports V8_Debugger Inspector_State Content_Search
begin

text \<open>
  The state of the debugger agent (core/inspector/InspectorDebuggerAgent.h), the
  events it sends to the front end, and what it uses of its surroundings.
\<close>

section \<open>The state of the agent\<close>

datatype BreakpointSource = UserBreakpointSource | DebugCommandBreakpointSource | MonitorCommandBreakpointSource

datatype DebuggerStep = NoStep | StepInto | StepOver | StepOut

datatype Reason =
    ReasonXHR | ReasonDOM | ReasonEventListener | ReasonException | ReasonAssert | ReasonCSPViolation
  | ReasonDebugCommand | ReasonPromiseRejection | ReasonAsyncOperation | ReasonOther

record AsyncCallStack =
  acs_description :: wstr
  acs_callFrames :: script_value

type_synonym AsyncCallChain = "AsyncCallStack list"

record script_event =
  se_scriptId :: wstr
  se_url :: wstr
  se_startLine :: int
  se_startColumn :: int
  se_endLine :: int
  se_endColumn :: int
  se_isContentScript :: bool
  se_isInternalScript :: bool
  se_sourceMapURL :: "wstr option"
  se_hasSourceURL :: bool

text \<open>What the agent sends to the front end.\<close>

datatype debugger_event =
    ScriptParsed script_event
  | ScriptFailedToParse script_event
  | BreakpointResolved wstr json_object
  | Paused "json list" Reason "json_object option" "wstr list" "json_object option"
  | Resumed
  | GlobalObjectCleared
  | PromiseUpdated EventType json_object
  | AsyncOperationStarted json_object
  | AsyncOperationCompleted int

text \<open>
  The members of \<^verbatim>\<open>InspectorDebuggerAgent\<close>, with the properties of its
  \<^verbatim>\<open>InspectorState\<close>, the debugger it drives, whether it listens to it, the maps of the
  \<^verbatim>\<open>V8AsyncCallTracker\<close> it owns, and the events it has sent.  The agent of a worker
  has neither a \<^verbatim>\<open>Listener\<close> nor listeners for asynchronous calls: nothing in
  the program registers one.
\<close>

record 'w debugger_agent =
  a_state :: json_object
  a_frontend :: bool
  a_events :: "debugger_event list"
  a_debugger :: "'w v8_debugger"
  a_listening :: bool
  m_injectedScriptManager :: injected_manager
  a_pausedScriptState :: "nat option"
  m_currentCallStack :: script_value
  m_scripts :: "(wstr, Script) hmap"
  m_breakpointIdToDebuggerBreakpointIds :: "(wstr, wstr list) hmap"
  m_serverBreakpoints :: "(wstr, wstr \<times> BreakpointSource) hmap"
  m_continueToLocationBreakpointId :: wstr
  m_breakReason :: Reason
  m_breakAuxData :: "json_object option"
  m_scheduledDebuggerStep :: DebuggerStep
  m_skipNextDebuggerStepOut :: bool
  m_javaScriptPauseScheduled :: bool
  m_steppingFromFramework :: bool
  m_pausingOnNativeEvent :: bool
  m_pausingOnAsyncOperation :: bool
  m_skippedStepFrameCount :: int
  m_recursionLevelForStepOut :: int
  m_recursionLevelForStepFrame :: int
  m_skipAllPauses :: bool
  m_skipContentScripts :: bool
  m_cachedSkipStackRegExp :: "wstr option"
  m_cachedSkipStackGeneration :: "32 word"
  m_promiseTracker :: promise_tracker
  m_editedScripts :: "(wstr, wstr) hmap"
  m_asyncOperations :: "(int, AsyncCallChain option) hmap"
  m_lastAsyncOperationId :: "32 word"
  m_asyncOperationNotifications :: "int list"
  m_asyncOperationBreakpoints :: "int list"
  m_pausingAsyncOperations :: "int list"
  m_maxAsyncCallStackDepth :: nat
  m_currentAsyncCallChain :: "AsyncCallChain option"
  m_nestedAsyncCallCount :: nat
  m_currentAsyncOperationId :: int
  m_pendingTraceAsyncOperationCompleted :: bool
  m_startingStepIntoAsync :: bool
  m_compiledScripts :: "(wstr, v8_value) hmap"
  m_contextAsyncOperationMap :: "(nat, (wstr, int) hmap) hmap"

text \<open>
  What the agent uses of its surroundings: the platform of the JSON library, the
  isolate, and the regular expressions of V8 (their validity, and the position of
  a match or \<open>-1\<close>).
\<close>

record 'w environment =
  env_platform :: platform
  env_isolate :: "'w isolate"
  env_regexp_valid :: "wstr \<Rightarrow> bool"
  env_regexp_match :: "wstr \<Rightarrow> wstr \<Rightarrow> int"
  env_search_match :: "ScriptRegexp \<Rightarrow> wstr \<Rightarrow> bool"

definition unknownAsyncOperationId :: int where
  "unknownAsyncOperationId = 0"

definition new_agent :: "'w v8_debugger \<Rightarrow> 'w debugger_agent" where
  "new_agent d =
    \<lparr>a_state = emptyObject, a_frontend = False, a_events = [], a_debugger = d, a_listening = False,
     m_injectedScriptManager = createForWorker, a_pausedScriptState = None, m_currentCallStack = None, m_scripts = [],
     m_breakpointIdToDebuggerBreakpointIds = [], m_serverBreakpoints = [], m_continueToLocationBreakpointId = [],
     m_breakReason = ReasonOther, m_breakAuxData = None, m_scheduledDebuggerStep = NoStep, m_skipNextDebuggerStepOut = False,
     m_javaScriptPauseScheduled = False, m_steppingFromFramework = False, m_pausingOnNativeEvent = False,
     m_pausingOnAsyncOperation = False, m_skippedStepFrameCount = 0, m_recursionLevelForStepOut = 0,
     m_recursionLevelForStepFrame = 0, m_skipAllPauses = False, m_skipContentScripts = False, m_cachedSkipStackRegExp = None,
     m_cachedSkipStackGeneration = 0, m_promiseTracker = new_tracker, m_editedScripts = [], m_asyncOperations = [],
     m_lastAsyncOperationId = 0, m_asyncOperationNotifications = [], m_asyncOperationBreakpoints = [],
     m_pausingAsyncOperations = [], m_maxAsyncCallStackDepth = 0, m_currentAsyncCallChain = None, m_nestedAsyncCallCount = 0,
     m_currentAsyncOperationId = unknownAsyncOperationId, m_pendingTraceAsyncOperationCompleted = False,
     m_startingStepIntoAsync = False, m_compiledScripts = [], m_contextAsyncOperationMap = []\<rparr>"

text \<open>Sending through a front end that is not there dereferences null.\<close>

definition send :: "debugger_event \<Rightarrow> 'w debugger_agent \<Rightarrow> 'w debugger_agent cxx" where
  "send event a = (if a_frontend a then Val (a\<lparr>a_events := a_events a @ [event]\<rparr>) else UB)"

definition on_debugger :: "('w v8_debugger \<Rightarrow> 'w v8_debugger cxx) \<Rightarrow> 'w debugger_agent \<Rightarrow> 'w debugger_agent cxx" where
  "on_debugger f a = bind_cxx (f (a_debugger a)) (\<lambda>d. Val (a\<lparr>a_debugger := d\<rparr>))"

definition pause_on_next :: "'w isolate \<Rightarrow> bool \<Rightarrow> 'w debugger_agent \<Rightarrow> 'w debugger_agent" where
  "pause_on_next V pause a = a\<lparr>a_debugger := d_setPauseOnNextStatement V pause (a_debugger a)\<rparr>"

definition a_isPaused :: "'w debugger_agent \<Rightarrow> bool" where
  "a_isPaused a = d_isPaused (a_debugger a)"

definition clearStepIntoAsync :: "'w debugger_agent \<Rightarrow> 'w debugger_agent" where
  "clearStepIntoAsync a =
    a\<lparr>m_startingStepIntoAsync := False, m_pausingOnAsyncOperation := False, m_pausingAsyncOperations := []\<rparr>"

definition clearBreakDetails :: "'w debugger_agent \<Rightarrow> 'w debugger_agent" where
  "clearBreakDetails a = a\<lparr>m_breakReason := ReasonOther, m_breakAuxData := None\<rparr>"

end
