(* ===== verification/Async_Calls.thy ===== *)
theory Async_Calls
  imports Debugger_State
begin

text \<open>
  Asynchronous call stacks: chains of call stacks (core/inspector/AsyncCallChain.cpp),
  the operations of the debugger agent that track asynchronous tasks
  (core/inspector/InspectorDebuggerAgent.cpp), and the tracker that feeds them
  with the events of V8 (core/inspector/V8AsyncCallTracker.cpp).
\<close>

section \<open>Chains of asynchronous call stacks\<close>

primrec append_stacks :: "AsyncCallChain \<Rightarrow> AsyncCallChain \<Rightarrow> nat \<Rightarrow> AsyncCallChain" where
  "append_stacks stacks [] maxLength = stacks"
| "append_stacks stacks (s # other) maxLength =
    (if length stacks < maxLength then append_stacks (stacks @ [s]) other maxLength else stacks)"

definition AsyncCallChain_create :: "AsyncCallStack option \<Rightarrow> AsyncCallChain option \<Rightarrow> nat \<Rightarrow> AsyncCallChain" where
  "AsyncCallChain_create stack prevChain asyncCallChainMaxLength =
    (let stacks = (case stack of None \<Rightarrow> [] | Some s \<Rightarrow> [s])
     in case prevChain of None \<Rightarrow> stacks | Some other \<Rightarrow> append_stacks stacks other asyncCallChainMaxLength)"

definition toScriptCallFrame :: "JSCallFrame \<Rightarrow> ScriptCallFrame" where
  "toScriptCallFrame f =
    \<lparr>m_functionName = nonnull (frame_functionName f), m_scriptId = int_text (frame_sourceID f),
     m_scriptName = nonnull (frame_scriptName f), m_lineNumber = word_of_int (frame_line f + 1),
     m_column = word_of_int (frame_column f + 1)\<rparr>"

fun callers :: "JSCallFrame \<Rightarrow> JSCallFrame list" where
  "callers (JSCallFrame m scopes c) = JSCallFrame m scopes c # (case c of None \<Rightarrow> [] | Some f \<Rightarrow> callers f)"

definition frame_toScriptCallStack :: "JSCallFrame \<Rightarrow> ScriptCallStack" where
  "frame_toScriptCallStack callFrame = ScriptCallStack (map toScriptCallFrame (callers callFrame)) None"

definition toScriptCallStack :: "'w isolate \<Rightarrow> 'w v8_debugger \<Rightarrow> script_value \<Rightarrow> ScriptCallStack option" where
  "toScriptCallStack V d callFrames = map_option frame_toScriptCallStack (toJavaScriptCallFrameUnsafe V callFrames d)"

section \<open>Operations\<close>

definition trackingAsyncCalls :: "'w debugger_agent \<Rightarrow> bool" where
  "trackingAsyncCalls a \<longleftrightarrow> m_maxAsyncCallStackDepth a \<noteq> 0"

text \<open>
  The search for the next id goes on as long as the id is in use.  If it does not
  end, the execution has no defined behaviour either, since the loop has no
  effects.
\<close>

definition next_id :: "32 word \<Rightarrow> 32 word" where
  "next_id n = (let n = n + 1 in if sint n \<le> 0 then 1 else n)"

partial_function (option) free_operation_id :: "(int, AsyncCallChain option) hmap \<Rightarrow> 32 word \<Rightarrow> 32 word option" where
  "free_operation_id operations n =
    (let n = next_id n in if hcontains operations (sint n) then free_operation_id operations n else Some n)"

text \<open>The stacks of a chain that can still be read, up to the first that cannot.\<close>

fun readable_stacks :: "'w isolate \<Rightarrow> 'w v8_debugger \<Rightarrow> AsyncCallChain \<Rightarrow> (wstr \<times> ScriptCallStack) list" where
  "readable_stacks V d [] = []"
| "readable_stacks V d (callStack # callStacks) =
    (case toScriptCallStack V d (acs_callFrames callStack) of
       None \<Rightarrow> []
     | Some scriptCallStack \<Rightarrow> (acs_description callStack, scriptCallStack) # readable_stacks V d callStacks)"

fun async_stack_trace :: "(wstr \<times> ScriptCallStack) list \<Rightarrow> json_object option" where
  "async_stack_trace [] = None"
| "async_stack_trace ((description, scriptCallStack) # rest) =
    (let trace = setString (lit ''description'') description
           (setArray (lit ''callFrames'') (buildInspectorArray scriptCallStack) emptyObject)
     in Some (case async_stack_trace rest of
                None \<Rightarrow> trace
              | Some inner \<Rightarrow> setObject (lit ''asyncStackTrace'') inner trace))"

definition async_operation :: "int \<Rightarrow> (wstr \<times> ScriptCallStack) list \<Rightarrow> json_object option" where
  "async_operation operationId stacks =
    (case stacks of
       [] \<Rightarrow> None
     | (description, scriptCallStack) # rest \<Rightarrow>
         (let operation = setArray (lit ''stackTrace'') (buildInspectorArray scriptCallStack)
                (setString (lit ''description'') description
                (setValue (lit ''id'') (number_json operationId) emptyObject))
          in Some (case async_stack_trace rest of
                     None \<Rightarrow> operation
                   | Some inner \<Rightarrow> setObject (lit ''asyncStackTrace'') inner operation)))"

fun flush_notifications ::
  "'w isolate \<Rightarrow> int list \<Rightarrow> 'w debugger_agent \<Rightarrow> 'w debugger_agent cxx" where
  "flush_notifications V [] a = Val a"
| "flush_notifications V (operationId # rest) a =
    (case Option.bind (hget (m_asyncOperations a) operationId) id of
       None \<Rightarrow> UB
     | Some callStacks \<Rightarrow>
         bind_cxx (case async_operation operationId (readable_stacks V (a_debugger a) callStacks) of
                     None \<Rightarrow> Val a
                   | Some operation \<Rightarrow> send (AsyncOperationStarted operation) a)
           (flush_notifications V rest))"

definition flushAsyncOperationEvents :: "'w isolate \<Rightarrow> 'w debugger_agent \<Rightarrow> 'w debugger_agent cxx" where
  "flushAsyncOperationEvents V a =
    (if \<not> a_frontend a then Val a
     else bind_cxx (flush_notifications V (m_asyncOperationNotifications a) a) (\<lambda>a.
            Val (a\<lparr>m_asyncOperationNotifications := []\<rparr>)))"

definition add_to_set :: "int \<Rightarrow> int list \<Rightarrow> int list" where
  "add_to_set x xs = (if x \<in> set xs then xs else xs @ [x])"

definition new_chain :: "wstr \<Rightarrow> script_value \<Rightarrow> 'w debugger_agent \<Rightarrow> AsyncCallChain option" where
  "new_chain description callFrames a =
    (if callFrames = None
     then (if m_currentAsyncCallChain a \<noteq> None
           then Some (AsyncCallChain_create None (m_currentAsyncCallChain a) (m_maxAsyncCallStackDepth a)) else None)
     else Some (AsyncCallChain_create (Some \<lparr>acs_description = description, acs_callFrames = callFrames\<rparr>)
                  (m_currentAsyncCallChain a) (m_maxAsyncCallStackDepth a)))"

definition register_operation :: "32 word \<Rightarrow> AsyncCallChain option \<Rightarrow> 'w debugger_agent \<Rightarrow> 'w debugger_agent" where
  "register_operation n chain a =
    a\<lparr>m_lastAsyncOperationId := n, m_asyncOperations := hset (sint n) chain (m_asyncOperations a),
      m_asyncOperationNotifications :=
        (if chain \<noteq> None then add_to_set (sint n) (m_asyncOperationNotifications a) else m_asyncOperationNotifications a)\<rparr>"

definition pause_in_operation :: "int \<Rightarrow> 'w debugger_agent \<Rightarrow> 'w debugger_agent" where
  "pause_in_operation operationId a =
    a\<lparr>m_pausingAsyncOperations := add_to_set operationId (m_pausingAsyncOperations a)\<rparr>"

definition step_into_operation :: "'w isolate \<Rightarrow> int \<Rightarrow> 'w debugger_agent \<Rightarrow> 'w debugger_agent cxx" where
  "step_into_operation V operationId a =
    (if m_startingStepIntoAsync a then
       on_debugger (d_clearStepping V)
         ((pause_in_operation operationId a)\<lparr>m_startingStepIntoAsync := False, m_scheduledDebuggerStep := NoStep\<rparr>)
     else if m_pausingOnAsyncOperation a then Val (pause_in_operation operationId a)
     else Val a)"

definition traceAsyncOperationStarting ::
  "'w isolate \<Rightarrow> wstr \<Rightarrow> 'w debugger_agent \<Rightarrow> (int \<times> 'w debugger_agent) cxx" where
  "traceAsyncOperationStarting V description a =
    bind_cxx (currentCallFramesForAsyncStack V (a_debugger a)) (\<lambda>(callFrames, d).
      case free_operation_id (m_asyncOperations a) (m_lastAsyncOperationId a) of
        None \<Rightarrow> UB
      | Some n \<Rightarrow>
          bind_cxx (step_into_operation V (sint n) (register_operation n (new_chain description callFrames a) (a\<lparr>a_debugger := d\<rparr>))) (\<lambda>a.
          bind_cxx (if a_pausedScriptState a \<noteq> None then flushAsyncOperationEvents V a else Val a) (\<lambda>a.
            Val (sint n, a))))"

definition remove_operation :: "int \<Rightarrow> 'w debugger_agent \<Rightarrow> 'w debugger_agent" where
  "remove_operation operationId a =
    a\<lparr>m_pendingTraceAsyncOperationCompleted := (m_currentAsyncOperationId a \<noteq> operationId \<and> m_pendingTraceAsyncOperationCompleted a),
      m_asyncOperations := hremove operationId (m_asyncOperations a),
      m_asyncOperationBreakpoints := removeAll operationId (m_asyncOperationBreakpoints a),
      m_pausingAsyncOperations := removeAll operationId (m_pausingAsyncOperations a),
      m_asyncOperationNotifications := removeAll operationId (m_asyncOperationNotifications a)\<rparr>"

definition revoke_step_into_async :: "'w debugger_agent \<Rightarrow> 'w debugger_agent" where
  "revoke_step_into_async a =
    (if m_startingStepIntoAsync a \<and> \<not> m_pausingOnAsyncOperation a \<and> m_pausingAsyncOperations a = []
     then clearStepIntoAsync a else a)"

definition notify_completed :: "bool \<Rightarrow> int \<Rightarrow> 'w debugger_agent \<Rightarrow> 'w debugger_agent" where
  "notify_completed shouldNotify operationId a =
    (if a_frontend a \<and> shouldNotify then a\<lparr>a_events := a_events a @ [AsyncOperationCompleted operationId]\<rparr> else a)"

definition traceAsyncOperationCompleted :: "int \<Rightarrow> 'w debugger_agent \<Rightarrow> 'w debugger_agent" where
  "traceAsyncOperationCompleted operationId a =
    (if operationId > 0 then
       (if m_currentAsyncOperationId a = operationId \<and> \<not> m_pendingTraceAsyncOperationCompleted a
        then a\<lparr>m_pendingTraceAsyncOperationCompleted := True\<rparr>
        else notify_completed (operationId \<notin> set (m_asyncOperationNotifications a)) operationId
               (revoke_step_into_async (remove_operation operationId a)))
     else revoke_step_into_async a)"

definition clearCurrentAsyncOperation :: "'w debugger_agent \<Rightarrow> 'w debugger_agent" where
  "clearCurrentAsyncOperation a =
    (let a = (if m_pendingTraceAsyncOperationCompleted a \<and> m_currentAsyncOperationId a \<noteq> unknownAsyncOperationId
              then traceAsyncOperationCompleted (m_currentAsyncOperationId a) a else a)
     in a\<lparr>m_currentAsyncOperationId := unknownAsyncOperationId, m_pendingTraceAsyncOperationCompleted := False,
          m_nestedAsyncCallCount := 0, m_currentAsyncCallChain := None\<rparr>)"

definition stop_pausing_on_operation :: "'w isolate \<Rightarrow> 'w debugger_agent \<Rightarrow> 'w debugger_agent" where
  "stop_pausing_on_operation V a =
    (if \<not> m_pausingOnAsyncOperation a then a
     else revoke_step_into_async (pause_on_next V False (a\<lparr>m_pausingOnAsyncOperation := False, m_scheduledDebuggerStep := NoStep\<rparr>)))"

definition traceAsyncCallbackCompleted :: "'w isolate \<Rightarrow> 'w debugger_agent \<Rightarrow> 'w debugger_agent" where
  "traceAsyncCallbackCompleted V a =
    (if m_nestedAsyncCallCount a = 0 then a
     else if m_nestedAsyncCallCount a - 1 \<noteq> 0 then a\<lparr>m_nestedAsyncCallCount := m_nestedAsyncCallCount a - 1\<rparr>
     else stop_pausing_on_operation V (clearCurrentAsyncOperation (a\<lparr>m_nestedAsyncCallCount := m_nestedAsyncCallCount a - 1\<rparr>)))"

definition enter_callback :: "int \<Rightarrow> AsyncCallChain \<Rightarrow> 'w debugger_agent \<Rightarrow> 'w debugger_agent" where
  "enter_callback operationId chain a =
    a\<lparr>m_currentAsyncCallChain := Some chain, m_currentAsyncOperationId := operationId,
      m_pendingTraceAsyncOperationCompleted := False, m_nestedAsyncCallCount := 1\<rparr>"

definition pause_on_operation :: "'w isolate \<Rightarrow> int \<Rightarrow> 'w debugger_agent \<Rightarrow> 'w debugger_agent" where
  "pause_on_operation V operationId a =
    (if operationId \<in> set (m_pausingAsyncOperations a) \<or> operationId \<in> set (m_asyncOperationBreakpoints a)
     then pause_on_next V True
            (a\<lparr>m_pausingOnAsyncOperation := True, m_scheduledDebuggerStep := StepInto, m_skippedStepFrameCount := 0,
               m_recursionLevelForStepFrame := 0\<rparr>)
     else a)"

definition nest_callback :: "'w debugger_agent \<Rightarrow> 'w debugger_agent" where
  "nest_callback a =
    (if m_currentAsyncCallChain a \<noteq> None then a\<lparr>m_nestedAsyncCallCount := m_nestedAsyncCallCount a + 1\<rparr> else a)"

definition traceAsyncCallbackStarting :: "'w isolate \<Rightarrow> int \<Rightarrow> 'w debugger_agent \<Rightarrow> 'w debugger_agent" where
  "traceAsyncCallbackStarting V operationId a =
    (case (if operationId > 0 then Option.bind (hget (m_asyncOperations a) operationId) id else None) of
       Some chain \<Rightarrow>
         (if iso_recursionLevel V (d_world (a_debugger a)) = 0
          then pause_on_operation V operationId
                 (enter_callback operationId chain
                   (if m_currentAsyncCallChain a \<noteq> None
                    then traceAsyncCallbackCompleted V (a\<lparr>m_nestedAsyncCallCount := 1\<rparr>) else a))
          else nest_callback a)
     | None \<Rightarrow> nest_callback a)"

definition resetAsyncCallTracker :: "'w debugger_agent \<Rightarrow> 'w debugger_agent" where
  "resetAsyncCallTracker a =
    (clearStepIntoAsync (clearCurrentAsyncOperation a))
      \<lparr>m_asyncOperations := [], m_asyncOperationNotifications := [], m_asyncOperationBreakpoints := []\<rparr>"

definition internalSetAsyncCallStackDepth :: "int \<Rightarrow> 'w debugger_agent \<Rightarrow> 'w debugger_agent" where
  "internalSetAsyncCallStackDepth depth a =
    (if depth \<le> 0 then resetAsyncCallTracker (a\<lparr>m_maxAsyncCallStackDepth := 0\<rparr>)
     else a\<lparr>m_maxAsyncCallStackDepth := nat depth\<rparr>)"

definition setAsyncOperationBreakpoint :: "int \<Rightarrow> 'w debugger_agent \<Rightarrow> wstr option \<times> 'w debugger_agent" where
  "setAsyncOperationBreakpoint operationId a =
    (if \<not> trackingAsyncCalls a then (Some (lit ''Can only perform operation while tracking async call stacks.''), a)
     else if operationId \<le> 0 then (Some (lit ''Wrong async operation id.''), a)
     else if \<not> hcontains (m_asyncOperations a) operationId then (Some (lit ''Unknown async operation id.''), a)
     else (None, a\<lparr>m_asyncOperationBreakpoints := add_to_set operationId (m_asyncOperationBreakpoints a)\<rparr>))"

definition removeAsyncOperationBreakpoint :: "int \<Rightarrow> 'w debugger_agent \<Rightarrow> wstr option \<times> 'w debugger_agent" where
  "removeAsyncOperationBreakpoint operationId a =
    (if \<not> trackingAsyncCalls a then (Some (lit ''Can only perform operation while tracking async call stacks.''), a)
     else if operationId \<le> 0 then (Some (lit ''Wrong async operation id.''), a)
     else (None, a\<lparr>m_asyncOperationBreakpoints := removeAll operationId (m_asyncOperationBreakpoints a)\<rparr>))"

section \<open>The tracker of tasks\<close>

definition makeV8AsyncTaskUniqueId :: "wstr \<Rightarrow> int \<Rightarrow> wstr" where
  "makeV8AsyncTaskUniqueId eventName i = eventName @ lit '' -> '' @ int_text i"

definition didEnqueueV8AsyncTask :: "'w isolate \<Rightarrow> nat \<Rightarrow> wstr \<Rightarrow> int \<Rightarrow> 'w debugger_agent \<Rightarrow> 'w debugger_agent cxx" where
  "didEnqueueV8AsyncTask V state eventName i a =
    bind_cxx (traceAsyncOperationStarting V eventName a) (\<lambda>(operationId, a).
      if operationId = 0 then Val a
      else
        (let operations = (case hget (m_contextAsyncOperationMap a) state of None \<Rightarrow> [] | Some m \<Rightarrow> m)
         in Val (a\<lparr>m_contextAsyncOperationMap :=
              hset state (hset (makeV8AsyncTaskUniqueId eventName i) operationId operations) (m_contextAsyncOperationMap a)\<rparr>)))"

definition willHandleV8AsyncTask :: "'w isolate \<Rightarrow> nat \<Rightarrow> wstr \<Rightarrow> int \<Rightarrow> 'w debugger_agent \<Rightarrow> 'w debugger_agent" where
  "willHandleV8AsyncTask V state eventName i a =
    (case hget (m_contextAsyncOperationMap a) state of
       Some operations \<Rightarrow>
         (let taskId = makeV8AsyncTaskUniqueId eventName i;
              operationId = (case hget operations taskId of None \<Rightarrow> 0 | Some n \<Rightarrow> n);
              a = traceAsyncCallbackStarting V operationId a;
              a = a\<lparr>m_contextAsyncOperationMap := hset state (hremove taskId operations) (m_contextAsyncOperationMap a)\<rparr>
          in if operationId \<noteq> 0 then traceAsyncOperationCompleted operationId a else a)
     | None \<Rightarrow> traceAsyncCallbackStarting V unknownAsyncOperationId a)"

definition willDisposeScriptState :: "nat \<Rightarrow> 'w debugger_agent \<Rightarrow> 'w debugger_agent" where
  "willDisposeScriptState state a = a\<lparr>m_contextAsyncOperationMap := hremove state (m_contextAsyncOperationMap a)\<rparr>"

definition didReceiveV8AsyncTaskEvent ::
  "'w isolate \<Rightarrow> nat \<Rightarrow> wstr \<Rightarrow> wstr \<Rightarrow> int \<Rightarrow> 'w debugger_agent \<Rightarrow> 'w debugger_agent cxx" where
  "didReceiveV8AsyncTaskEvent V state eventType eventName i a =
    (if eventType = lit ''enqueue'' then didEnqueueV8AsyncTask V state eventName i a
     else if eventType = lit ''willHandle'' then Val (willHandleV8AsyncTask V state eventName i a)
     else if eventType = lit ''didHandle'' then Val (traceAsyncCallbackCompleted V a)
     else Val a)"

text \<open>Disposing of the map of a context completes its operations.\<close>

definition resetAsyncOperations :: "'w debugger_agent \<Rightarrow> 'w debugger_agent" where
  "resetAsyncOperations a =
    (fold (\<lambda>(state, operations). fold (\<lambda>(taskId, operationId). traceAsyncOperationCompleted operationId) operations)
       (m_contextAsyncOperationMap a) a)\<lparr>m_contextAsyncOperationMap := []\<rparr>"

section \<open>Fresh operation ids\<close>

lemma sint_bounds: "- (2 ^ 31) \<le> sint (w :: 32 word)" "sint (w :: 32 word) < 2 ^ 31"
  using sint_greater_eq [of w] sint_lt [of w] by simp_all

lemma next_id_sint: "sint (next_id n) = (if 0 \<le> sint n \<and> sint n < 2 ^ 31 - 1 then sint n + 1 else 1)"
proof (cases "sint n < 2 ^ 31 - 1")
  case True
  thus ?thesis using sint_succ [OF True] by (simp add: next_id_def)
next
  case False
  hence "sint n = 2 ^ 31 - 1" using sint_bounds(2) [of n] by linarith
  hence "uint n = 2 ^ 31 - 1" using sint_word32 [of n] uint_lt2p [of n] by (simp split: if_splits)
  hence "n = word_of_int (2 ^ 31 - 1)" by (metis word_of_int_uint)
  thus ?thesis by (simp add: next_id_def)
qed

lemma free_operation_id_step:
  "free_operation_id operations n =
    (if hcontains operations (sint (next_id n)) then free_operation_id operations (next_id n) else Some (next_id n))"
  by (subst free_operation_id.simps) (simp add: Let_def)

definition id_distance :: "int \<Rightarrow> 32 word \<Rightarrow> nat" where
  "id_distance free n =
    nat (if sint n < 0 then free else if sint n < free then free - sint n else 2 ^ 31 + free - sint n)"

lemma id_distance_next:
  assumes "0 < free" "free < 2 ^ 31" "sint (next_id n) \<noteq> free"
  shows "id_distance free (next_id n) < id_distance free n"
  using assms sint_bounds [of n] unfolding id_distance_def next_id_sint by (auto split: if_splits)

lemma free_operation_id_terminates:
  assumes "0 < free" "free < 2 ^ 31" "\<not> hcontains operations free"
  shows "\<exists>m. free_operation_id operations n = Some m \<and> \<not> hcontains operations (sint m) \<and> 0 < sint m"
proof (induction "id_distance free n" arbitrary: n rule: less_induct)
  case less
  show ?case
  proof (cases "hcontains operations (sint (next_id n))")
    case True
    hence "sint (next_id n) \<noteq> free" using assms(3) by auto
    from less [OF id_distance_next [OF assms(1,2) this]] show ?thesis using True by (simp add: free_operation_id_step [of _ n])
  next
    case False
    thus ?thesis by (simp add: free_operation_id_step [of _ n] next_id_sint)
  qed
qed

lemma free_operation_id_result:
  "free_operation_id operations n = Some m \<Longrightarrow> \<not> hcontains operations (sint m) \<and> 0 < sint m"
proof (induction rule: free_operation_id.raw_induct [rotated 1, consumes 1])
  case (1 f operations n m)
  thus ?case by (auto simp: Let_def next_id_sint split: if_splits)
qed

lemma exists_free_id:
  fixes operations :: "(int, 'b) hmap"
  assumes "length operations < 2 ^ 31 - 1"
  shows "\<exists>free. 0 < free \<and> free < 2 ^ 31 \<and> \<not> hcontains operations free"
proof (rule ccontr)
  assume "\<not> ?thesis"
  hence "{1 ..< 2 ^ 31} \<subseteq> fst ` set operations"
    by (auto simp: hcontains_def hget_def map_of_eq_None_iff)
  hence "card {1 ..< 2 ^ 31 :: int} \<le> card (fst ` set operations)" by (intro card_mono) auto
  also have "\<dots> \<le> length operations" by (metis card_length length_map set_map)
  finally show False using assms by simp
qed

text \<open>
  C25: the search for an operation id comes to an end as long as some id is not
  in use, wraps around after the largest id, and gives a positive id that is not
  in use.
\<close>

theorem operation_id_fresh:
  assumes "length operations < 2 ^ 31 - 1"
  shows "\<exists>n. free_operation_id operations last_id = Some n \<and> \<not> hcontains operations (sint n) \<and> 0 < sint n"
  using exists_free_id [OF assms] free_operation_id_terminates by blast

theorem operation_id_fresh_witness:
  "\<exists>n. free_operation_id [(1, None), (2, None)] 0x7FFFFFFF = Some n \<and>
     \<not> hcontains [(1, None :: AsyncCallChain option), (2, None)] (sint n) \<and> 0 < sint n"
  using operation_id_fresh [of "[(1, None), (2, None)]" "0x7FFFFFFF"] by simp

section \<open>Chains\<close>

lemma append_stacks_take: "append_stacks stacks other n = stacks @ take (n - length stacks) other"
  by (induction other arbitrary: stacks) (auto simp: take_Cons' Suc_diff_Suc diff_Suc split: nat.splits)

lemma create_nonempty: "stack \<noteq> None \<or> (\<exists>other. prev = Some other \<and> other \<noteq> [] \<and> n \<noteq> 0) \<Longrightarrow> AsyncCallChain_create stack prev n \<noteq> []"
  by (auto simp: AsyncCallChain_create_def append_stacks_take split: option.splits)

text \<open>
  The chain of a new operation is the stack captured for it followed by the
  chain of the operation it was started from, cut off at the configured depth.
\<close>

theorem chain_cut_off:
  assumes "0 < n"
  shows "AsyncCallChain_create (Some s) (Some other) n = take n (s # other) \<and>
    AsyncCallChain_create None (Some other) n = take n other \<and> AsyncCallChain_create (Some s) None n = [s]"
  using assms by (simp add: AsyncCallChain_create_def append_stacks_take take_Cons' )

theorem chain_cut_off_witness:
  "let s = \<lparr>acs_description = lit ''a'', acs_callFrames = None\<rparr>; t = \<lparr>acs_description = lit ''b'', acs_callFrames = None\<rparr>
   in AsyncCallChain_create (Some s) (Some [t, t, t]) 2 = [s, t]"
  using chain_cut_off [of 2 "\<lparr>acs_description = lit ''a'', acs_callFrames = None\<rparr>"
      "[\<lparr>acs_description = lit ''b'', acs_callFrames = None\<rparr>, \<lparr>acs_description = lit ''b'', acs_callFrames = None\<rparr>,
        \<lparr>acs_description = lit ''b'', acs_callFrames = None\<rparr>]"] by simp

section \<open>The invariant of the operations\<close>

lemma hremove_Nil [simp]: "hremove k [] = []"
  by (simp add: hremove_def)

definition completes :: "int \<Rightarrow> 'w debugger_agent \<Rightarrow> bool" where
  "completes n a \<longleftrightarrow> 0 < n \<and> (m_currentAsyncOperationId a = n \<longrightarrow> m_pendingTraceAsyncOperationCompleted a)"

lemmas completed_defs = traceAsyncOperationCompleted_def remove_operation_def revoke_step_into_async_def
  notify_completed_def clearStepIntoAsync_def

lemma completed_operations [simp]:
  "m_asyncOperations (traceAsyncOperationCompleted n a) =
    (if completes n a then hremove n (m_asyncOperations a) else m_asyncOperations a)"
  "m_asyncOperationNotifications (traceAsyncOperationCompleted n a) =
    (if completes n a then removeAll n (m_asyncOperationNotifications a) else m_asyncOperationNotifications a)"
  "m_asyncOperationBreakpoints (traceAsyncOperationCompleted n a) =
    (if completes n a then removeAll n (m_asyncOperationBreakpoints a) else m_asyncOperationBreakpoints a)"
  by (simp_all add: completed_defs completes_def)

lemma completed_pausing:
  "set (m_pausingAsyncOperations (traceAsyncOperationCompleted n a)) \<subseteq>
    (if completes n a then set (m_pausingAsyncOperations a) - {n} else set (m_pausingAsyncOperations a))"
  by (simp add: completed_defs completes_def)

lemma completed_frame [simp]:
  "m_currentAsyncCallChain (traceAsyncOperationCompleted n a) = m_currentAsyncCallChain a"
  "m_nestedAsyncCallCount (traceAsyncOperationCompleted n a) = m_nestedAsyncCallCount a"
  "m_currentAsyncOperationId (traceAsyncOperationCompleted n a) = m_currentAsyncOperationId a"
  "m_maxAsyncCallStackDepth (traceAsyncOperationCompleted n a) = m_maxAsyncCallStackDepth a"
  "m_lastAsyncOperationId (traceAsyncOperationCompleted n a) = m_lastAsyncOperationId a"
  "a_frontend (traceAsyncOperationCompleted n a) = a_frontend a"
  "a_debugger (traceAsyncOperationCompleted n a) = a_debugger a"
  "m_contextAsyncOperationMap (traceAsyncOperationCompleted n a) = m_contextAsyncOperationMap a"
  "a_pausedScriptState (traceAsyncOperationCompleted n a) = a_pausedScriptState a"
  by (simp_all add: completed_defs)

text \<open>The part of the invariant that does not speak of the current operation.\<close>

definition operations_ok :: "'w debugger_agent \<Rightarrow> bool" where
  "operations_ok a \<longleftrightarrow>
    (\<forall>n. hcontains (m_asyncOperations a) n \<longrightarrow> 0 < n) \<and>
    distinct (m_asyncOperationNotifications a) \<and>
    (\<forall>n \<in> set (m_asyncOperationNotifications a). \<exists>c. hget (m_asyncOperations a) n = Some (Some c)) \<and>
    (\<forall>n \<in> set (m_asyncOperationBreakpoints a). hcontains (m_asyncOperations a) n) \<and>
    (\<forall>n \<in> set (m_pausingAsyncOperations a). hcontains (m_asyncOperations a) n) \<and>
    (\<forall>n c. hget (m_asyncOperations a) n = Some (Some c) \<longrightarrow> c \<noteq> []) \<and>
    (m_maxAsyncCallStackDepth a = 0 \<longrightarrow> m_asyncOperations a = [])"

definition current_ok :: "'w debugger_agent \<Rightarrow> bool" where
  "current_ok a \<longleftrightarrow>
    m_currentAsyncCallChain a \<noteq> Some [] \<and>
    (m_nestedAsyncCallCount a = 0 \<longleftrightarrow> m_currentAsyncCallChain a = None) \<and>
    (m_currentAsyncCallChain a = None \<longrightarrow> m_currentAsyncOperationId a = unknownAsyncOperationId) \<and>
    (m_maxAsyncCallStackDepth a = 0 \<longrightarrow> m_currentAsyncCallChain a = None)"

lemma operations_ok_completed: "operations_ok a \<Longrightarrow> operations_ok (traceAsyncOperationCompleted n a)"
  using completed_pausing [of n a]
  by (auto simp: operations_ok_def distinct_removeAll split: if_splits)


lemma operations_ok_cong:
  assumes "operations_ok a" "m_asyncOperations b = m_asyncOperations a"
    "m_asyncOperationNotifications b = m_asyncOperationNotifications a"
    "set (m_asyncOperationBreakpoints b) \<subseteq> set (m_asyncOperationBreakpoints a)"
    "set (m_pausingAsyncOperations b) \<subseteq> set (m_pausingAsyncOperations a)"
    "m_maxAsyncCallStackDepth b = m_maxAsyncCallStackDepth a"
  shows "operations_ok b"
  using assms unfolding operations_ok_def by auto

lemma operations_ok_clearCurrent: "operations_ok a \<Longrightarrow> operations_ok (clearCurrentAsyncOperation a)"
  unfolding clearCurrentAsyncOperation_def Let_def
  by (rule operations_ok_cong [of "if m_pendingTraceAsyncOperationCompleted a \<and> m_currentAsyncOperationId a \<noteq> unknownAsyncOperationId
              then traceAsyncOperationCompleted (m_currentAsyncOperationId a) a else a"])
    (simp_all add: operations_ok_completed)

lemma current_ok_clearCurrent [simp]: "current_ok (clearCurrentAsyncOperation a)"
  by (simp add: clearCurrentAsyncOperation_def current_ok_def Let_def)

lemma operations_ok_frame [simp]:
  "operations_ok (a\<lparr>a_debugger := d\<rparr>) = operations_ok a"
  "operations_ok (a\<lparr>a_frontend := b\<rparr>) = operations_ok a"
  "operations_ok (a\<lparr>m_scheduledDebuggerStep := s\<rparr>) = operations_ok a"
  "operations_ok (a\<lparr>m_startingStepIntoAsync := b\<rparr>) = operations_ok a"
  "operations_ok (a\<lparr>m_pausingOnAsyncOperation := b\<rparr>) = operations_ok a"
  "operations_ok (a\<lparr>m_skippedStepFrameCount := k\<rparr>) = operations_ok a"
  "operations_ok (a\<lparr>m_recursionLevelForStepFrame := k\<rparr>) = operations_ok a"
  "operations_ok (a\<lparr>m_nestedAsyncCallCount := n\<rparr>) = operations_ok a"
  "operations_ok (a\<lparr>m_contextAsyncOperationMap := m\<rparr>) = operations_ok a"
  by (simp_all add: operations_ok_def)

lemma current_ok_frame [simp]:
  "current_ok (a\<lparr>a_debugger := d\<rparr>) = current_ok a"
  "current_ok (a\<lparr>a_frontend := b\<rparr>) = current_ok a"
  "current_ok (a\<lparr>m_scheduledDebuggerStep := s\<rparr>) = current_ok a"
  "current_ok (a\<lparr>m_startingStepIntoAsync := b\<rparr>) = current_ok a"
  "current_ok (a\<lparr>m_pausingOnAsyncOperation := b\<rparr>) = current_ok a"
  "current_ok (a\<lparr>m_skippedStepFrameCount := k\<rparr>) = current_ok a"
  "current_ok (a\<lparr>m_recursionLevelForStepFrame := k\<rparr>) = current_ok a"
  "current_ok (a\<lparr>m_contextAsyncOperationMap := m\<rparr>) = current_ok a"
  by (simp_all add: current_ok_def)

definition async_ok :: "'w debugger_agent \<Rightarrow> bool" where
  "async_ok a \<longleftrightarrow> operations_ok a \<and> current_ok a"

lemma async_ok_new: "async_ok (new_agent d)"
  by (simp add: async_ok_def operations_ok_def current_ok_def new_agent_def)

definition announcements :: "'w isolate \<Rightarrow> 'w debugger_agent \<Rightarrow> int list \<Rightarrow> debugger_event list" where
  "announcements V a ns =
    List.map_filter (\<lambda>n. map_option AsyncOperationStarted
      (async_operation n (readable_stacks V (a_debugger a) (the (the (hget (m_asyncOperations a) n)))))) ns"

lemma flush_notifications_Val:
  assumes "\<forall>n \<in> set ns. \<exists>c. hget (m_asyncOperations a) n = Some (Some c)" "a_frontend a"
  shows "flush_notifications V ns a = Val (a\<lparr>a_events := a_events a @ announcements V a ns\<rparr>)"
  using assms
proof (induction ns arbitrary: a)
  case Nil
  thus ?case by (simp add: announcements_def)
next
  case (Cons n ns)
  then obtain c where c: "hget (m_asyncOperations a) n = Some (Some c)" by auto
  show ?case
  proof (cases "async_operation n (readable_stacks V (a_debugger a) c)")
    case None
    thus ?thesis using Cons c by (simp add: announcements_def)
  next
    case (Some op)
    let ?a = "a\<lparr>a_events := a_events a @ [AsyncOperationStarted op]\<rparr>"
    have "flush_notifications V ns ?a = Val (?a\<lparr>a_events := a_events ?a @ announcements V ?a ns\<rparr>)"
      using Cons.prems by (intro Cons.IH) simp_all
    moreover have "announcements V ?a ns = announcements V a ns" by (simp add: announcements_def)
    ultimately show ?thesis using Some c Cons.prems by (simp add: send_def announcements_def)
  qed
qed

lemma flush_Val:
  assumes "operations_ok a" "a_frontend a"
  shows "flushAsyncOperationEvents V a = Val (a\<lparr>a_events := a_events a @ announcements V a (m_asyncOperationNotifications a),
    m_asyncOperationNotifications := []\<rparr>)"
  using assms flush_notifications_Val [of "m_asyncOperationNotifications a" a V]
  by (simp add: flushAsyncOperationEvents_def operations_ok_def)

lemma async_ok_flush:
  assumes "async_ok a"
  shows "\<exists>a'. flushAsyncOperationEvents V a = Val a' \<and> async_ok a'"
proof (cases "a_frontend a")
  case True
  thus ?thesis using assms flush_Val [of a V]
    by (auto simp: async_ok_def operations_ok_def current_ok_def)
qed (use assms in \<open>simp add: flushAsyncOperationEvents_def\<close>)

lemma set_add_to_set [simp]: "set (add_to_set x xs) = insert x (set xs)"
  by (auto simp: add_to_set_def)

lemma distinct_add_to_set [simp]: "distinct (add_to_set x xs) \<longleftrightarrow> distinct xs"
  by (auto simp: add_to_set_def)

lemma operations_ok_register:
  assumes "operations_ok a" "0 < sint n" "chain \<noteq> Some []" "m_maxAsyncCallStackDepth a \<noteq> 0"
    "\<not> hcontains (m_asyncOperations a) (sint n)"
  shows "operations_ok (register_operation n chain a)"
  using assms unfolding operations_ok_def register_operation_def hcontains_def by auto

lemma operations_ok_pause_in:
  "operations_ok a \<Longrightarrow> hcontains (m_asyncOperations a) n \<Longrightarrow> operations_ok (pause_in_operation n a)"
  unfolding operations_ok_def pause_in_operation_def by auto

lemma current_ok_cong:
  assumes "current_ok a" "m_currentAsyncCallChain b = m_currentAsyncCallChain a" "m_nestedAsyncCallCount b = m_nestedAsyncCallCount a"
    "m_currentAsyncOperationId b = m_currentAsyncOperationId a" "m_maxAsyncCallStackDepth b = m_maxAsyncCallStackDepth a"
  shows "current_ok b"
  using assms unfolding current_ok_def by simp

lemma step_into_operation_ok:
  assumes "async_ok a" "hcontains (m_asyncOperations a) n" "step_into_operation V n a = Val a'"
  shows "async_ok a'"
proof -
  have p: "operations_ok (pause_in_operation n a)" "current_ok (pause_in_operation n a)"
    using assms(1,2) operations_ok_pause_in [of a n] current_ok_cong [of a "pause_in_operation n a"]
    by (simp_all add: async_ok_def pause_in_operation_def)
  show ?thesis
  proof (cases "m_startingStepIntoAsync a")
    case True
    then obtain d where "a' = (pause_in_operation n a)\<lparr>m_startingStepIntoAsync := False, m_scheduledDebuggerStep := NoStep, a_debugger := d\<rparr>"
      using assms(3) by (auto simp: step_into_operation_def on_debugger_def bind_cxx_eq_Val)
    thus ?thesis using p by (simp add: async_ok_def)
  next
    case False
    thus ?thesis using assms p by (auto simp: step_into_operation_def async_ok_def split: if_splits)
  qed
qed

lemma new_chain_nonempty: "current_ok a \<Longrightarrow> new_chain description callFrames a \<noteq> Some []"
  using create_nonempty unfolding new_chain_def current_ok_def by (auto split: if_splits)


lemma register_frame [simp]:
  "current_ok (register_operation n chain a) = current_ok a"
  "hcontains (m_asyncOperations (register_operation n chain a)) (sint n)"
  by (simp_all add: register_operation_def current_ok_def)

lemma starting_ok:
  assumes "async_ok a" "trackingAsyncCalls a" "traceAsyncOperationStarting V description a = Val (n, a')"
  shows "async_ok a'"
proof -
  obtain callFrames d where d: "currentCallFramesForAsyncStack V (a_debugger a) = Val (callFrames, d)"
    using assms(3) by (auto simp: traceAsyncOperationStarting_def bind_cxx_eq_Val)
  obtain k where k: "free_operation_id (m_asyncOperations a) (m_lastAsyncOperationId a) = Some k"
    using assms(3) d by (auto simp: traceAsyncOperationStarting_def split: option.splits)
  let ?b = "register_operation k (new_chain description callFrames a) (a\<lparr>a_debugger := d\<rparr>)"
  obtain c where c: "step_into_operation V (sint k) ?b = Val c"
    and fl: "(if a_pausedScriptState c \<noteq> None then flushAsyncOperationEvents V c else Val c) = Val a'"
    using assms(3) d k by (auto simp: traceAsyncOperationStarting_def bind_cxx_eq_Val)
  have "\<not> hcontains (m_asyncOperations a) (sint k)" "0 < sint k"
    using free_operation_id_result [OF k] by auto
  hence "async_ok ?b"
    using assms(1,2) new_chain_nonempty [of a description callFrames]
      operations_ok_register [of "a\<lparr>a_debugger := d\<rparr>" k "new_chain description callFrames a"]
    by (simp add: async_ok_def trackingAsyncCalls_def)
  hence "async_ok c" using step_into_operation_ok [OF _ _ c] by simp
  thus ?thesis using fl async_ok_flush [of c V] by (auto split: if_splits)
qed

lemma pause_on_next_ok [simp]:
  "operations_ok (pause_on_next V b a) = operations_ok a"
  "current_ok (pause_on_next V b a) = current_ok a"
  by (simp_all add: pause_on_next_def)

lemma revoke_ok:
  "operations_ok a \<Longrightarrow> operations_ok (revoke_step_into_async a)"
  "current_ok (revoke_step_into_async a) = current_ok a"
  by (auto simp: revoke_step_into_async_def clearStepIntoAsync_def operations_ok_def current_ok_def)

lemma stop_pausing_ok:
  "operations_ok a \<Longrightarrow> operations_ok (stop_pausing_on_operation V a)"
  "current_ok (stop_pausing_on_operation V a) = current_ok a"
  by (simp_all add: stop_pausing_on_operation_def revoke_ok)

lemma callback_completed_operations:
  "operations_ok a \<Longrightarrow> operations_ok (traceAsyncCallbackCompleted V a)"
  by (simp add: traceAsyncCallbackCompleted_def stop_pausing_ok operations_ok_clearCurrent)

lemma callback_completed_ok:
  assumes "async_ok a"
  shows "async_ok (traceAsyncCallbackCompleted V a)"
proof -
  have "current_ok (a\<lparr>m_nestedAsyncCallCount := m_nestedAsyncCallCount a - 1\<rparr>)" if "1 < m_nestedAsyncCallCount a"
    using that assms by (auto simp: async_ok_def current_ok_def)
  hence "current_ok (traceAsyncCallbackCompleted V a)"
    using assms by (simp add: async_ok_def traceAsyncCallbackCompleted_def stop_pausing_ok)
  thus ?thesis using assms callback_completed_operations [of a V] by (simp add: async_ok_def)
qed

lemma enter_callback_ok:
  assumes "operations_ok a" "hget (m_asyncOperations b) n = Some (Some chain)" "operations_ok b" "m_maxAsyncCallStackDepth a \<noteq> 0"
  shows "async_ok (enter_callback n chain a)"
  using assms by (auto simp: async_ok_def enter_callback_def operations_ok_def current_ok_def)

lemma pause_on_operation_ok: "async_ok a \<Longrightarrow> async_ok (pause_on_operation V n a)"
  by (simp add: async_ok_def pause_on_operation_def)

lemma nest_callback_ok: "async_ok a \<Longrightarrow> async_ok (nest_callback a)"
  by (auto simp: async_ok_def nest_callback_def current_ok_def)

lemma depth_frame [simp]:
  "m_maxAsyncCallStackDepth (revoke_step_into_async a) = m_maxAsyncCallStackDepth a"
  "m_maxAsyncCallStackDepth (stop_pausing_on_operation V a) = m_maxAsyncCallStackDepth a"
  "m_maxAsyncCallStackDepth (clearCurrentAsyncOperation a) = m_maxAsyncCallStackDepth a"
  "m_maxAsyncCallStackDepth (traceAsyncCallbackCompleted V a) = m_maxAsyncCallStackDepth a"
  by (simp_all add: revoke_step_into_async_def clearStepIntoAsync_def stop_pausing_on_operation_def pause_on_next_def
      clearCurrentAsyncOperation_def traceAsyncCallbackCompleted_def)

lemma callback_starting_ok:
  assumes "async_ok a"
  shows "async_ok (traceAsyncCallbackStarting V n a)"
proof (cases "if n > 0 then Option.bind (hget (m_asyncOperations a) n) id else None")
  case None
  thus ?thesis using nest_callback_ok [OF assms] by (simp add: traceAsyncCallbackStarting_def)
next
  case (Some chain)
  hence chain: "hget (m_asyncOperations a) n = Some (Some chain)" by (auto simp: bind_eq_Some_conv split: if_splits)
  hence depth: "m_maxAsyncCallStackDepth a \<noteq> 0" using assms by (auto simp: async_ok_def operations_ok_def)
  let ?b = "if m_currentAsyncCallChain a \<noteq> None then traceAsyncCallbackCompleted V (a\<lparr>m_nestedAsyncCallCount := 1\<rparr>) else a"
  have "operations_ok ?b" "m_maxAsyncCallStackDepth ?b \<noteq> 0"
    using assms callback_completed_operations [of "a\<lparr>m_nestedAsyncCallCount := 1\<rparr>" V] depth by (simp_all add: async_ok_def)
  hence "async_ok (enter_callback n chain ?b)"
    using chain assms enter_callback_ok [of ?b a n chain] by (simp add: async_ok_def)
  hence "async_ok (pause_on_operation V n (enter_callback n chain ?b))" by (rule pause_on_operation_ok)
  thus ?thesis using nest_callback_ok [OF assms] unfolding traceAsyncCallbackStarting_def Some option.case by (simp only: split: if_split) simp
qed

lemma cleared_current [simp]:
  "m_currentAsyncCallChain (clearCurrentAsyncOperation a) = None"
  "m_nestedAsyncCallCount (clearCurrentAsyncOperation a) = 0"
  "m_currentAsyncOperationId (clearCurrentAsyncOperation a) = unknownAsyncOperationId"
  by (simp_all add: clearCurrentAsyncOperation_def Let_def)

lemma reset_ok: "async_ok (resetAsyncCallTracker a)"
  by (simp add: resetAsyncCallTracker_def clearStepIntoAsync_def async_ok_def operations_ok_def current_ok_def)

lemma depth_ok:
  assumes "async_ok a"
  shows "async_ok (internalSetAsyncCallStackDepth depth a)"
proof (cases "depth \<le> 0")
  case True
  thus ?thesis by (simp add: internalSetAsyncCallStackDepth_def reset_ok)
next
  case False
  thus ?thesis using assms by (simp add: internalSetAsyncCallStackDepth_def async_ok_def operations_ok_def current_ok_def)
qed


lemma async_ok_completed: "async_ok a \<Longrightarrow> async_ok (traceAsyncOperationCompleted n a)"
  using current_ok_cong [of a "traceAsyncOperationCompleted n a"] by (simp add: async_ok_def operations_ok_completed)

lemma task_event_ok:
  assumes "async_ok a" "trackingAsyncCalls a" "didReceiveV8AsyncTaskEvent V state eventType eventName i a = Val a'"
  shows "async_ok a'"
proof -
  have map: "async_ok (b\<lparr>m_contextAsyncOperationMap := m\<rparr>) = async_ok b" for b :: "'a debugger_agent" and m
    by (simp add: async_ok_def)
  have "async_ok a'" if "didEnqueueV8AsyncTask V state eventName i a = Val a'"
    using that starting_ok [OF assms(1,2)]
    by (auto simp: didEnqueueV8AsyncTask_def bind_cxx_eq_Val map Let_def split: if_splits)
  moreover have "async_ok (willHandleV8AsyncTask V state eventName i a)"
    using callback_starting_ok [OF assms(1)]
    by (auto simp: willHandleV8AsyncTask_def Let_def map intro!: async_ok_completed split: option.splits)
  ultimately show ?thesis using assms callback_completed_ok [OF assms(1)]
    by (auto simp: didReceiveV8AsyncTaskEvent_def split: if_splits)
qed

section \<open>Reachable states\<close>

text \<open>
  The agent moves by task events while calls are tracked, commands of the front
  end, completions, and changes outside of the asynchronous operations.
\<close>

definition same_operations :: "'w debugger_agent \<Rightarrow> 'w debugger_agent \<Rightarrow> bool" where
  "same_operations a b \<longleftrightarrow>
    m_asyncOperations b = m_asyncOperations a \<and> m_asyncOperationNotifications b = m_asyncOperationNotifications a \<and>
    m_asyncOperationBreakpoints b = m_asyncOperationBreakpoints a \<and>
    (m_pausingAsyncOperations b = m_pausingAsyncOperations a \<or> m_pausingAsyncOperations b = []) \<and>
    m_maxAsyncCallStackDepth b = m_maxAsyncCallStackDepth a \<and> m_currentAsyncCallChain b = m_currentAsyncCallChain a \<and>
    m_nestedAsyncCallCount b = m_nestedAsyncCallCount a \<and> m_currentAsyncOperationId b = m_currentAsyncOperationId a"

inductive async_reach :: "'w isolate \<Rightarrow> 'w debugger_agent \<Rightarrow> bool" for V where
  ar_start: "async_reach V (new_agent d)"
| ar_event: "async_reach V a \<Longrightarrow> trackingAsyncCalls a \<Longrightarrow>
    didReceiveV8AsyncTaskEvent V state eventType eventName i a = Val a' \<Longrightarrow> async_reach V a'"
| ar_depth: "async_reach V a \<Longrightarrow> async_reach V (internalSetAsyncCallStackDepth depth a)"
| ar_reset: "async_reach V a \<Longrightarrow> async_reach V (resetAsyncCallTracker a)"
| ar_completed: "async_reach V a \<Longrightarrow> async_reach V (traceAsyncOperationCompleted n a)"
| ar_break: "async_reach V a \<Longrightarrow> async_reach V (snd (setAsyncOperationBreakpoint n a))"
| ar_unbreak: "async_reach V a \<Longrightarrow> async_reach V (snd (removeAsyncOperationBreakpoint n a))"
| ar_flush: "async_reach V a \<Longrightarrow> flushAsyncOperationEvents V a = Val a' \<Longrightarrow> async_reach V a'"
| ar_other: "async_reach V a \<Longrightarrow> same_operations a b \<Longrightarrow> async_reach V b"

lemma async_reach_ok: "async_reach V a \<Longrightarrow> async_ok a"
proof (induction rule: async_reach.induct)
  case (ar_start d)
  show ?case by (rule async_ok_new)
next
  case (ar_event a state eventType eventName i a')
  thus ?case by (blast intro: task_event_ok)
next
  case (ar_break a n)
  thus ?case by (auto simp: setAsyncOperationBreakpoint_def async_ok_def operations_ok_def current_ok_def)
next
  case (ar_unbreak a n)
  thus ?case by (auto simp: removeAsyncOperationBreakpoint_def async_ok_def operations_ok_def current_ok_def)
next
  case (ar_flush a a')
  thus ?case using async_ok_flush [of a V] by auto
next
  case (ar_other a b)
  thus ?case using operations_ok_cong [of a b] current_ok_cong [of a b] by (auto simp: async_ok_def same_operations_def)
qed (simp_all add: depth_ok reset_ok async_ok_completed)



section \<open>The life of a task\<close>

lemma flush_frame:
  assumes "operations_ok a" "flushAsyncOperationEvents V a = Val a'"
  shows "m_asyncOperations a' = m_asyncOperations a" "m_currentAsyncCallChain a' = m_currentAsyncCallChain a"
    "m_contextAsyncOperationMap a' = m_contextAsyncOperationMap a"
    "m_pendingTraceAsyncOperationCompleted a' = m_pendingTraceAsyncOperationCompleted a"
  using assms flush_Val [of a V]
  by (cases "a_frontend a"; simp add: flushAsyncOperationEvents_def)+

lemma step_into_frame:
  assumes "step_into_operation V n a = Val a'"
  shows "m_asyncOperations a' = m_asyncOperations a" "m_currentAsyncCallChain a' = m_currentAsyncCallChain a"
    "m_contextAsyncOperationMap a' = m_contextAsyncOperationMap a"
  using assms
  by (auto simp: step_into_operation_def on_debugger_def pause_in_operation_def bind_cxx_eq_Val split: if_splits)

lemma starting_result:
  assumes "async_ok a" "trackingAsyncCalls a" "currentCallFramesForAsyncStack V (a_debugger a) = Val (callFrames, d)"
    "traceAsyncOperationStarting V description a = Val (n, a')"
  shows "m_asyncOperations a' = hset n (new_chain description callFrames a) (m_asyncOperations a)" "0 < n"
    "m_currentAsyncCallChain a' = m_currentAsyncCallChain a" "m_contextAsyncOperationMap a' = m_contextAsyncOperationMap a"
proof -
  obtain k where k: "free_operation_id (m_asyncOperations a) (m_lastAsyncOperationId a) = Some k"
    using assms(3,4) by (auto simp: traceAsyncOperationStarting_def split: option.splits)
  let ?b = "register_operation k (new_chain description callFrames a) (a\<lparr>a_debugger := d\<rparr>)"
  obtain c where c: "step_into_operation V (sint k) ?b = Val c" "n = sint k"
    and fl: "(if a_pausedScriptState c \<noteq> None then flushAsyncOperationEvents V c else Val c) = Val a'"
    using assms(3,4) k by (auto simp: traceAsyncOperationStarting_def bind_cxx_eq_Val)
  have k': "\<not> hcontains (m_asyncOperations a) (sint k)" "0 < sint k"
    using free_operation_id_result [OF k] by auto
  hence "async_ok ?b"
    using assms(1,2) new_chain_nonempty [of a description callFrames]
      operations_ok_register [of "a\<lparr>a_debugger := d\<rparr>" k "new_chain description callFrames a"]
    by (simp add: async_ok_def trackingAsyncCalls_def)
  hence "operations_ok c" using step_into_operation_ok [OF _ _ c(1)] by (simp add: async_ok_def)
  hence "m_asyncOperations a' = m_asyncOperations c" "m_currentAsyncCallChain a' = m_currentAsyncCallChain c"
    "m_contextAsyncOperationMap a' = m_contextAsyncOperationMap c"
    using fl flush_frame [of c V a'] by (auto split: if_splits)
  thus "m_asyncOperations a' = hset n (new_chain description callFrames a) (m_asyncOperations a)" "0 < n"
    "m_currentAsyncCallChain a' = m_currentAsyncCallChain a" "m_contextAsyncOperationMap a' = m_contextAsyncOperationMap a"
    using step_into_frame [OF c(1)] c(2) k'(2) by (simp_all add: register_operation_def)
qed


lemma enqueue_result:
  assumes "async_ok a" "trackingAsyncCalls a" "currentCallFramesForAsyncStack V (a_debugger a) = Val (callFrames, d)"
    "didEnqueueV8AsyncTask V state name i a = Val b"
  obtains n operations where "0 < n" "hget (m_asyncOperations b) n = Some (new_chain name callFrames a)"
    "hget (m_contextAsyncOperationMap b) state = Some operations" "hget operations (makeV8AsyncTaskUniqueId name i) = Some n"
    "m_currentAsyncCallChain b = m_currentAsyncCallChain a"
proof -
  obtain n a' where n: "traceAsyncOperationStarting V name a = Val (n, a')"
    using assms(4) by (auto simp: didEnqueueV8AsyncTask_def bind_cxx_eq_Val)
  note r = starting_result [OF assms(1-3) n]
  show ?thesis
    using assms(4) n r
    by (intro that [of n "hset (makeV8AsyncTaskUniqueId name i) n
          (case hget (m_contextAsyncOperationMap a) state of None \<Rightarrow> [] | Some m \<Rightarrow> m)"])
      (auto simp: didEnqueueV8AsyncTask_def Let_def)
qed

lemma pause_on_operation_frame [simp]:
  "m_asyncOperations (pause_on_operation V n a) = m_asyncOperations a"
  "m_currentAsyncCallChain (pause_on_operation V n a) = m_currentAsyncCallChain a"
  "m_currentAsyncOperationId (pause_on_operation V n a) = m_currentAsyncOperationId a"
  "m_nestedAsyncCallCount (pause_on_operation V n a) = m_nestedAsyncCallCount a"
  "m_pendingTraceAsyncOperationCompleted (pause_on_operation V n a) = m_pendingTraceAsyncOperationCompleted a"
  by (simp_all add: pause_on_operation_def pause_on_next_def)

lemma willHandle_result:
  assumes "hget (m_contextAsyncOperationMap b) state = Some operations" "hget operations (makeV8AsyncTaskUniqueId name i) = Some n"
    "0 < n" "hget (m_asyncOperations b) n = Some (Some chain)" "m_currentAsyncCallChain b = None"
    "iso_recursionLevel V (d_world (a_debugger b)) = 0"
  shows "m_currentAsyncCallChain (willHandleV8AsyncTask V state name i b) = Some chain"
    "m_currentAsyncOperationId (willHandleV8AsyncTask V state name i b) = n"
    "m_nestedAsyncCallCount (willHandleV8AsyncTask V state name i b) = 1"
    "m_pendingTraceAsyncOperationCompleted (willHandleV8AsyncTask V state name i b)"
  using assms
  by (simp_all add: willHandleV8AsyncTask_def traceAsyncCallbackStarting_def enter_callback_def traceAsyncOperationCompleted_def Let_def)

lemma didHandle_result:
  assumes "m_nestedAsyncCallCount c = 1" "m_pendingTraceAsyncOperationCompleted c" "m_currentAsyncOperationId c = n" "0 < n"
  shows "m_currentAsyncCallChain (traceAsyncCallbackCompleted V c) = None"
    "\<not> hcontains (m_asyncOperations (traceAsyncCallbackCompleted V c)) n"
  using assms
  by (simp_all add: traceAsyncCallbackCompleted_def stop_pausing_on_operation_def revoke_step_into_async_def clearStepIntoAsync_def
      pause_on_next_def clearCurrentAsyncOperation_def completes_def unknownAsyncOperationId_def)

text \<open>
  C24: a task that was queued outside of any callback runs with the call stack
  that queued it as its asynchronous chain, and once it has run, the operation
  and the chain are gone.
\<close>

theorem async_task_lifecycle:
  assumes "async_reach V a" "trackingAsyncCalls a" "m_currentAsyncCallChain a = None"
    "currentCallFramesForAsyncStack V (a_debugger a) = Val (Some frames, d)"
    "didReceiveV8AsyncTaskEvent V state (lit ''enqueue'') name i a = Val b"
    "iso_recursionLevel V (d_world (a_debugger b)) = 0"
  shows "\<exists>c e n. didReceiveV8AsyncTaskEvent V state (lit ''willHandle'') name i b = Val c \<and>
    m_currentAsyncCallChain c = Some [\<lparr>acs_description = name, acs_callFrames = Some frames\<rparr>] \<and>
    m_currentAsyncOperationId c = n \<and> hcontains (m_asyncOperations b) n \<and>
    didReceiveV8AsyncTaskEvent V state (lit ''didHandle'') name i c = Val e \<and>
    m_currentAsyncCallChain e = None \<and> \<not> hcontains (m_asyncOperations e) n"
proof -
  let ?chain = "[\<lparr>acs_description = name, acs_callFrames = Some frames\<rparr>]"
  have enq: "didEnqueueV8AsyncTask V state name i a = Val b"
    using assms(5) by (simp add: didReceiveV8AsyncTaskEvent_def)
  have "new_chain name (Some frames) a = Some ?chain"
    using assms(3) by (simp add: new_chain_def AsyncCallChain_create_def)
  with enqueue_result [OF async_reach_ok [OF assms(1)] assms(2,4) enq] obtain n operations where
    n: "0 < n" "hget (m_asyncOperations b) n = Some (Some ?chain)" "hget (m_contextAsyncOperationMap b) state = Some operations"
      "hget operations (makeV8AsyncTaskUniqueId name i) = Some n" "m_currentAsyncCallChain b = None"
    using assms(3) by metis
  note w = willHandle_result [OF n(3,4,1,2,5) assms(6)]
  note e = didHandle_result [OF w(3,4,2) n(1), of V]
  show ?thesis using w e n(2) by (auto simp: didReceiveV8AsyncTaskEvent_def hcontains_def)
qed


definition tracking_agent :: "sample_world debugger_agent" where
  "tracking_agent =
    internalSetAsyncCallStackDepth 4
      (new_agent ((new_debugger (sample_world0\<lparr>sw_frames := [block_frame]\<rparr>))\<lparr>m_debuggerScript := Some 0\<rparr>))"

lemma tracking_agent_facts:
  "async_reach sample_isolate tracking_agent" "trackingAsyncCalls tracking_agent" "m_currentAsyncCallChain tracking_agent = None"
  by (simp_all add: tracking_agent_def ar_depth ar_start)
    (simp_all add: internalSetAsyncCallStackDepth_def trackingAsyncCalls_def new_agent_def)

theorem async_task_lifecycle_witness:
  "let b = the_val (didReceiveV8AsyncTaskEvent sample_isolate 1 (lit ''enqueue'') (lit ''then'') 7 tracking_agent)
   in \<exists>c e n. didReceiveV8AsyncTaskEvent sample_isolate 1 (lit ''willHandle'') (lit ''then'') 7 b = Val c \<and>
    m_currentAsyncCallChain c = Some [\<lparr>acs_description = lit ''then'', acs_callFrames = Some (1, 0)\<rparr>] \<and>
    m_currentAsyncOperationId c = n \<and> hcontains (m_asyncOperations b) n \<and>
    didReceiveV8AsyncTaskEvent sample_isolate 1 (lit ''didHandle'') (lit ''then'') 7 c = Val e \<and>
    m_currentAsyncCallChain e = None \<and> \<not> hcontains (m_asyncOperations e) n"
proof -
  obtain d where frames: "currentCallFramesForAsyncStack sample_isolate (a_debugger tracking_agent) = Val (Some (1, 0), d)"
    by (simp add: currentCallFramesForAsyncStack_def currentCallFramesInner_def sample_isolate_def tracking_agent_def
        internalSetAsyncCallStackDepth_def new_agent_def new_debugger_def sample_world0_def d_wrapCallFrames_def with_script_def
        script_currentCallFrame_def wrapCallFrames_data_def FastAsyncScopes_def)
  have "free_operation_id [] 0 = Some 1" by (simp add: free_operation_id_step next_id_def)
  then obtain b where b: "didReceiveV8AsyncTaskEvent sample_isolate 1 (lit ''enqueue'') (lit ''then'') 7 tracking_agent = Val b"
    using frames
    by (simp add: didReceiveV8AsyncTaskEvent_def didEnqueueV8AsyncTask_def traceAsyncOperationStarting_def tracking_agent_def
        internalSetAsyncCallStackDepth_def new_agent_def step_into_operation_def register_operation_def Let_def)
  show ?thesis
    using async_task_lifecycle [OF tracking_agent_facts frames b] b by (simp add: sample_isolate_def)
qed

definition idle_agent :: "sample_world debugger_agent" where
  "idle_agent =
    internalSetAsyncCallStackDepth 4
      ((new_agent ((new_debugger sample_world0)\<lparr>m_debuggerScript := Some 0\<rparr>))\<lparr>a_frontend := True\<rparr>)"

text \<open>
  An operation that was started outside of any call frame is completed
  without having been announced: the front end receives the completion of an
  operation it was never told of.
\<close>

theorem completed_without_announcement:
  "\<exists>b c. didReceiveV8AsyncTaskEvent sample_isolate 1 (lit ''enqueue'') (lit ''then'') 7 idle_agent = Val b \<and> a_events b = [] \<and>
    didReceiveV8AsyncTaskEvent sample_isolate 1 (lit ''willHandle'') (lit ''then'') 7 b = Val c \<and>
    a_events c = [AsyncOperationCompleted 1]"
proof -
  have "free_operation_id [] 0 = Some 1" by (simp add: free_operation_id_step next_id_def)
  moreover have "currentCallFramesForAsyncStack sample_isolate (a_debugger idle_agent) = Val (None, a_debugger idle_agent)"
    by (simp add: currentCallFramesForAsyncStack_def currentCallFramesInner_def sample_isolate_def idle_agent_def
        internalSetAsyncCallStackDepth_def new_agent_def new_debugger_def sample_world0_def)
  ultimately show ?thesis
    by (simp add: didReceiveV8AsyncTaskEvent_def didEnqueueV8AsyncTask_def traceAsyncOperationStarting_def idle_agent_def
        internalSetAsyncCallStackDepth_def new_agent_def step_into_operation_def register_operation_def new_chain_def
        willHandleV8AsyncTask_def traceAsyncCallbackStarting_def nest_callback_def completed_defs unknownAsyncOperationId_def Let_def)
qed

end
