(* ===== verification/Debugger_Breakpoints.thy ===== *)
theory Debugger_Breakpoints
  imports Async_Calls
begin

text \<open>
  The breakpoints, the scripts and the blackboxing of the debugger agent
  (core/inspector/InspectorDebuggerAgent.cpp): setting and removing breakpoints by
  location and by URL, reporting parsed scripts and resolving the stored
  breakpoints in them, and the cached verdict on frames that are skipped.
\<close>

section \<open>Properties that survive the agent\<close>

definition key_debuggerEnabled :: wstr where "key_debuggerEnabled = lit ''debuggerEnabled''"
definition key_javaScriptBreakpoints :: wstr where "key_javaScriptBreakpoints = lit ''javaScriptBreakopints''"
definition key_pauseOnExceptionsState :: wstr where "key_pauseOnExceptionsState = lit ''pauseOnExceptionsState''"
definition key_asyncCallStackDepth :: wstr where "key_asyncCallStackDepth = lit ''asyncCallStackDepth''"
definition key_promiseTrackerEnabled :: wstr where "key_promiseTrackerEnabled = lit ''promiseTrackerEnabled''"
definition key_promiseTrackerCaptureStacks :: wstr where "key_promiseTrackerCaptureStacks = lit ''promiseTrackerCaptureStacks''"
definition key_skipStackPattern :: wstr where "key_skipStackPattern = lit ''skipStackPattern''"
definition key_skipContentScripts :: wstr where "key_skipContentScripts = lit ''skipContentScripts''"
definition key_skipAllPauses :: wstr where "key_skipAllPauses = lit ''skipAllPauses''"

lemmas key_defs = key_debuggerEnabled_def key_javaScriptBreakpoints_def key_pauseOnExceptionsState_def
  key_asyncCallStackDepth_def key_promiseTrackerEnabled_def key_promiseTrackerCaptureStacks_def
  key_skipStackPattern_def key_skipContentScripts_def key_skipAllPauses_def

lemma cookie_key_neq:
  "key_skipContentScripts \<noteq> key_javaScriptBreakpoints" "key_skipStackPattern \<noteq> key_javaScriptBreakpoints"
  "key_debuggerEnabled \<noteq> key_javaScriptBreakpoints"
  by (simp_all add: key_defs lit_def)

definition a_enabled :: "'w debugger_agent \<Rightarrow> bool" where
  "a_enabled a = state_getBoolean (a_state a) key_debuggerEnabled"

definition checkEnabled :: "'w debugger_agent \<Rightarrow> wstr option" where
  "checkEnabled a = (if a_enabled a then None else Some (lit ''Debugger agent is not enabled''))"

section \<open>Breakpoints\<close>

definition breakpointIdSuffix :: "BreakpointSource \<Rightarrow> wstr" where
  "breakpointIdSuffix source =
    (case source of
       UserBreakpointSource \<Rightarrow> []
     | DebugCommandBreakpointSource \<Rightarrow> lit '':debug''
     | MonitorCommandBreakpointSource \<Rightarrow> lit '':monitor'')"

definition generateBreakpointId :: "wstr \<Rightarrow> int \<Rightarrow> int \<Rightarrow> BreakpointSource \<Rightarrow> wstr" where
  "generateBreakpointId scriptId lineNumber columnNumber source =
    scriptId @ lit '':'' @ int_text lineNumber @ lit '':'' @ int_text columnNumber @ breakpointIdSuffix source"

definition buildObjectForBreakpointCookie :: "wstr \<Rightarrow> int \<Rightarrow> int \<Rightarrow> wstr \<Rightarrow> bool \<Rightarrow> json_object" where
  "buildObjectForBreakpointCookie url lineNumber columnNumber condition isRegex =
    setBoolean (lit ''isRegex'') isRegex
      (setString (lit ''condition'') condition
      (setValue (lit ''columnNumber'') (number_json columnNumber)
      (setValue (lit ''lineNumber'') (number_json lineNumber)
      (setString (lit ''url'') url emptyObject))))"

definition matches :: "'w environment \<Rightarrow> wstr \<Rightarrow> wstr \<Rightarrow> bool \<Rightarrow> bool" where
  "matches E url pattern isRegex = (if isRegex then env_regexp_match E pattern url \<noteq> - 1 else url = pattern)"

definition add_server_breakpoint :: "wstr \<Rightarrow> wstr \<Rightarrow> BreakpointSource \<Rightarrow> 'w debugger_agent \<Rightarrow> 'w debugger_agent" where
  "add_server_breakpoint debuggerBreakpointId breakpointId source a =
    a\<lparr>m_serverBreakpoints := hset debuggerBreakpointId (breakpointId, source) (m_serverBreakpoints a),
      m_breakpointIdToDebuggerBreakpointIds :=
        (case hget (m_breakpointIdToDebuggerBreakpointIds a) breakpointId of
           None \<Rightarrow> hset breakpointId [debuggerBreakpointId] (m_breakpointIdToDebuggerBreakpointIds a)
         | Some ids \<Rightarrow> hset breakpointId (ids @ [debuggerBreakpointId]) (m_breakpointIdToDebuggerBreakpointIds a))\<rparr>"

definition resolveBreakpoint ::
  "'w environment \<Rightarrow> wstr \<Rightarrow> wstr \<Rightarrow> ScriptBreakpoint \<Rightarrow> BreakpointSource \<Rightarrow> 'w debugger_agent \<Rightarrow> (json_object option \<times> 'w debugger_agent) cxx" where
  "resolveBreakpoint E breakpointId scriptId breakpoint source a =
    (case hget (m_scripts a) scriptId of
       None \<Rightarrow> Val (None, a)
     | Some script \<Rightarrow>
         (if sb_lineNumber breakpoint < s_startLine script \<or> s_endLine script < sb_lineNumber breakpoint then Val (None, a)
          else bind_cxx (d_setBreakpoint (env_isolate E) scriptId breakpoint False (a_debugger a)) (\<lambda>(r, d).
            case r of
              None \<Rightarrow> Val (None, a\<lparr>a_debugger := d\<rparr>)
            | Some (debuggerBreakpointId, actualLineNumber, actualColumnNumber) \<Rightarrow>
                (if debuggerBreakpointId = [] then Val (None, a\<lparr>a_debugger := d\<rparr>)
                 else Val (Some (location_object scriptId actualLineNumber actualColumnNumber),
                           add_server_breakpoint debuggerBreakpointId breakpointId source (a\<lparr>a_debugger := d\<rparr>))))))"

text \<open>The scripts whose URL matches, in the order of the map.\<close>

fun resolve_in_scripts ::
  "'w environment \<Rightarrow> wstr \<Rightarrow> ScriptBreakpoint \<Rightarrow> wstr \<Rightarrow> bool \<Rightarrow> (wstr \<times> Script) list \<Rightarrow> 'w debugger_agent \<Rightarrow> (json list \<times> 'w debugger_agent) cxx" where
  "resolve_in_scripts E breakpointId breakpoint url isRegex [] a = Val ([], a)"
| "resolve_in_scripts E breakpointId breakpoint url isRegex ((scriptId, script) # scripts) a =
    (if \<not> matches E (script_sourceURL script) url isRegex
     then resolve_in_scripts E breakpointId breakpoint url isRegex scripts a
     else bind_cxx (resolveBreakpoint E breakpointId scriptId breakpoint UserBreakpointSource a) (\<lambda>(location, a).
          bind_cxx (resolve_in_scripts E breakpointId breakpoint url isRegex scripts a) (\<lambda>(locations, a).
            Val ((case location of None \<Rightarrow> [] | Some l \<Rightarrow> [JSONObject l]) @ locations, a))))"

definition url_breakpoint_id :: "wstr \<Rightarrow> bool \<Rightarrow> int \<Rightarrow> int \<Rightarrow> wstr" where
  "url_breakpoint_id url isRegex lineNumber columnNumber =
    (if isRegex then lit ''/'' @ url @ lit ''/'' else url) @ lit '':'' @ int_text lineNumber @ lit '':'' @ int_text columnNumber"

text \<open>Reading the cookies creates the property if it is missing; a property of another type is a null pointer.\<close>

definition with_cookies ::
  "'w debugger_agent \<Rightarrow> (json_object \<Rightarrow> 'w debugger_agent \<Rightarrow> 'b cxx) \<Rightarrow> 'b cxx" where
  "with_cookies a f =
    (case state_getObject (a_state a) key_javaScriptBreakpoints of
       (None, _) \<Rightarrow> UB
     | (Some cookies, properties) \<Rightarrow> f cookies (a\<lparr>a_state := properties\<rparr>))"

definition set_cookies :: "json_object \<Rightarrow> 'w debugger_agent \<Rightarrow> 'w debugger_agent" where
  "set_cookies cookies a = a\<lparr>a_state := state_setObject key_javaScriptBreakpoints cookies (a_state a)\<rparr>"

definition setBreakpointByUrl ::
  "'w environment \<Rightarrow> int \<Rightarrow> wstr option \<Rightarrow> wstr option \<Rightarrow> int option \<Rightarrow> wstr option \<Rightarrow> 'w debugger_agent \<Rightarrow>
   ((wstr + wstr \<times> json list) \<times> 'w debugger_agent) cxx" where
  "setBreakpointByUrl E lineNumber optionalURL optionalURLRegex optionalColumnNumber optionalCondition a =
    (if (optionalURL = None) = (optionalURLRegex = None) then Val (Inl (lit ''Either url or urlRegex must be specified.''), a)
     else
       (let url = (case optionalURL of Some u \<Rightarrow> u | None \<Rightarrow> the optionalURLRegex);
            isRegex = (optionalURLRegex \<noteq> None);
            columnNumber = (case optionalColumnNumber of None \<Rightarrow> 0 | Some c \<Rightarrow> c);
            condition = (case optionalCondition of None \<Rightarrow> [] | Some c \<Rightarrow> c);
            breakpointId = url_breakpoint_id url isRegex lineNumber columnNumber
        in if columnNumber < 0 then Val (Inl (lit ''Incorrect column number''), a)
           else with_cookies a (\<lambda>cookies a.
             if getValue cookies breakpointId \<noteq> None then Val (Inl (lit ''Breakpoint at specified location already exists.''), a)
             else bind_cxx
               (resolve_in_scripts E breakpointId \<lparr>sb_lineNumber = lineNumber, sb_columnNumber = columnNumber, sb_condition = condition\<rparr>
                  url isRegex (m_scripts a)
                  (set_cookies (setObject breakpointId (buildObjectForBreakpointCookie url lineNumber columnNumber condition isRegex) cookies) a))
               (\<lambda>(locations, a). Val (Inr (breakpointId, locations), a)))))"

definition parseLocation :: "json_object \<Rightarrow> wstr + wstr \<times> int \<times> int" where
  "parseLocation location =
    (case (getString location (lit ''scriptId''), getNumber_int location (lit ''lineNumber'')) of
       (Some scriptId, Some lineNumber) \<Rightarrow>
         Inr (scriptId, lineNumber, case getNumber_int location (lit ''columnNumber'') of None \<Rightarrow> 0 | Some c \<Rightarrow> c)
     | _ \<Rightarrow> Inl (lit ''scriptId and lineNumber are required.''))"

definition setBreakpoint ::
  "'w environment \<Rightarrow> json_object \<Rightarrow> wstr option \<Rightarrow> 'w debugger_agent \<Rightarrow> ((wstr + wstr \<times> json_object) \<times> 'w debugger_agent) cxx" where
  "setBreakpoint E location optionalCondition a =
    (case parseLocation location of
       Inl error \<Rightarrow> Val (Inl error, a)
     | Inr (scriptId, lineNumber, columnNumber) \<Rightarrow>
         (let condition = (case optionalCondition of None \<Rightarrow> [] | Some c \<Rightarrow> c);
              breakpointId = generateBreakpointId scriptId lineNumber columnNumber UserBreakpointSource
          in if hcontains (m_breakpointIdToDebuggerBreakpointIds a) breakpointId
             then Val (Inl (lit ''Breakpoint at specified location already exists.''), a)
             else bind_cxx (resolveBreakpoint E breakpointId scriptId
                    \<lparr>sb_lineNumber = lineNumber, sb_columnNumber = columnNumber, sb_condition = condition\<rparr> UserBreakpointSource a) (\<lambda>(actual, a).
               Val (case actual of
                      None \<Rightarrow> Inl (lit ''Could not resolve breakpoint'')
                    | Some actualLocation \<Rightarrow> Inr (breakpointId, actualLocation), a))))"

fun remove_server_breakpoints :: "'w environment \<Rightarrow> wstr list \<Rightarrow> 'w debugger_agent \<Rightarrow> 'w debugger_agent cxx" where
  "remove_server_breakpoints E [] a = Val a"
| "remove_server_breakpoints E (debuggerBreakpointId # ids) a =
    bind_cxx (on_debugger (d_removeBreakpoint (env_isolate E) debuggerBreakpointId) a) (\<lambda>a.
      remove_server_breakpoints E ids (a\<lparr>m_serverBreakpoints := hremove debuggerBreakpointId (m_serverBreakpoints a)\<rparr>))"

definition removeBreakpoint_id :: "'w environment \<Rightarrow> wstr \<Rightarrow> 'w debugger_agent \<Rightarrow> 'w debugger_agent cxx" where
  "removeBreakpoint_id E breakpointId a =
    (case hget (m_breakpointIdToDebuggerBreakpointIds a) breakpointId of
       None \<Rightarrow> Val a
     | Some ids \<Rightarrow> bind_cxx (remove_server_breakpoints E ids a) (\<lambda>a.
         Val (a\<lparr>m_breakpointIdToDebuggerBreakpointIds := hremove breakpointId (m_breakpointIdToDebuggerBreakpointIds a)\<rparr>)))"

definition removeBreakpoint :: "'w environment \<Rightarrow> wstr \<Rightarrow> 'w debugger_agent \<Rightarrow> (wstr option \<times> 'w debugger_agent) cxx" where
  "removeBreakpoint E breakpointId a =
    (case checkEnabled a of
       Some error \<Rightarrow> Val (Some error, a)
     | None \<Rightarrow> with_cookies a (\<lambda>cookies a.
         bind_cxx (removeBreakpoint_id E breakpointId (set_cookies (removeValue breakpointId cookies) a)) (\<lambda>a. Val (None, a))))"

text \<open>The breakpoints of commands typed into the console.\<close>

definition setBreakpoint_command ::
  "'w environment \<Rightarrow> wstr \<Rightarrow> int \<Rightarrow> int \<Rightarrow> BreakpointSource \<Rightarrow> wstr \<Rightarrow> 'w debugger_agent \<Rightarrow> 'w debugger_agent cxx" where
  "setBreakpoint_command E scriptId lineNumber columnNumber source condition a =
    bind_cxx (resolveBreakpoint E (generateBreakpointId scriptId lineNumber columnNumber source) scriptId
      \<lparr>sb_lineNumber = lineNumber, sb_columnNumber = columnNumber, sb_condition = condition\<rparr> source a) (\<lambda>(_, a). Val a)"

definition removeBreakpoint_command ::
  "'w environment \<Rightarrow> wstr \<Rightarrow> int \<Rightarrow> int \<Rightarrow> BreakpointSource \<Rightarrow> 'w debugger_agent \<Rightarrow> 'w debugger_agent cxx" where
  "removeBreakpoint_command E scriptId lineNumber columnNumber source a =
    removeBreakpoint_id E (generateBreakpointId scriptId lineNumber columnNumber source) a"

section \<open>Scripts\<close>

definition sourceMapURLForScript :: "platform \<Rightarrow> Script \<Rightarrow> bool \<Rightarrow> wstr option" where
  "sourceMapURLForScript P script hasSyntaxError =
    (if \<not> hasSyntaxError then s_sourceMappingURL script else fst (findSourceMapURL P (s_source script) JavaScriptMagicComment))"

definition script_event_of :: "platform \<Rightarrow> wstr \<Rightarrow> Script \<Rightarrow> bool \<Rightarrow> script_event" where
  "script_event_of P scriptId script hasSyntaxError =
    \<lparr>se_scriptId = scriptId, se_url = script_sourceURL script, se_startLine = s_startLine script,
     se_startColumn = s_startColumn script, se_endLine = s_endLine script, se_endColumn = s_endColumn script,
     se_isContentScript = s_isContentScript script, se_isInternalScript = s_isInternalScript script,
     se_sourceMapURL = sourceMapURLForScript P script hasSyntaxError, se_hasSourceURL = hasSourceURL script\<rparr>"

text \<open>
  The breakpoint a cookie describes.  A missing flag is read without having been
  initialised.
\<close>

definition cookie_breakpoint :: "json \<Rightarrow> (bool \<times> wstr \<times> ScriptBreakpoint) cxx" where
  "cookie_breakpoint cookie =
    (case asObject cookie of
       None \<Rightarrow> UB
     | Some breakpointObject \<Rightarrow>
         (case getBoolean breakpointObject (lit ''isRegex'') of
            None \<Rightarrow> UB
          | Some isRegex \<Rightarrow>
              Val (isRegex, nonnull (getString breakpointObject (lit ''url'')),
                   \<lparr>sb_lineNumber = getNumber_or_zero breakpointObject (lit ''lineNumber''),
                    sb_columnNumber = getNumber_or_zero breakpointObject (lit ''columnNumber''),
                    sb_condition = nonnull (getString breakpointObject (lit ''condition''))\<rparr>)))"

fun resolve_cookies ::
  "'w environment \<Rightarrow> wstr \<Rightarrow> wstr \<Rightarrow> (wstr \<times> json) list \<Rightarrow> 'w debugger_agent \<Rightarrow> 'w debugger_agent cxx" where
  "resolve_cookies E scriptId scriptURL [] a = Val a"
| "resolve_cookies E scriptId scriptURL ((breakpointId, cookie) # cookies) a =
    bind_cxx (cookie_breakpoint cookie) (\<lambda>(isRegex, url, breakpoint).
      if \<not> matches E scriptURL url isRegex then resolve_cookies E scriptId scriptURL cookies a
      else bind_cxx (resolveBreakpoint E breakpointId scriptId breakpoint UserBreakpointSource a) (\<lambda>(location, a).
           bind_cxx (case location of None \<Rightarrow> Val a | Some l \<Rightarrow> send (BreakpointResolved breakpointId l) a)
             (resolve_cookies E scriptId scriptURL cookies)))"

definition didParseSource :: "'w environment \<Rightarrow> wstr \<Rightarrow> Script \<Rightarrow> bool \<Rightarrow> 'w debugger_agent \<Rightarrow> 'w debugger_agent cxx" where
  "didParseSource E scriptId parsedScript hasSyntaxError a =
    (let script = (if hasSyntaxError
                   then setSourceURL (fst (findSourceURL (env_platform E) (s_source parsedScript) JavaScriptMagicComment)) parsedScript else parsedScript);
         event = script_event_of (env_platform E) scriptId script hasSyntaxError;
         scriptURL = script_sourceURL script
     in bind_cxx (send (if \<not> hasSyntaxError then ScriptParsed event else ScriptFailedToParse event) a) (\<lambda>a.
          let a = a\<lparr>m_scripts := hset scriptId script (m_scripts a)\<rparr>
          in if scriptURL = [] \<or> hasSyntaxError then Val a
             else with_cookies a (\<lambda>cookies a. resolve_cookies E scriptId scriptURL (m_data cookies) a)))"

definition dispatchDidParseSource :: "'w environment \<Rightarrow> formatted_script \<Rightarrow> bool \<Rightarrow> 'w debugger_agent \<Rightarrow> 'w debugger_agent cxx" where
  "dispatchDidParseSource E object hasSyntaxError a =
    (case parsed_script object of (scriptId, script) \<Rightarrow> didParseSource E scriptId script hasSyntaxError a)"

fun report_scripts :: "'w environment \<Rightarrow> formatted_script list \<Rightarrow> 'w debugger_agent \<Rightarrow> 'w debugger_agent cxx" where
  "report_scripts E [] a = Val a"
| "report_scripts E (object # objects) a = bind_cxx (dispatchDidParseSource E object False a) (report_scripts E objects)"

definition reportCompiledScripts :: "'w environment \<Rightarrow> wstr \<Rightarrow> 'w debugger_agent \<Rightarrow> 'w debugger_agent cxx" where
  "reportCompiledScripts E contextDebugDataSubstring a =
    with_script (a_debugger a) (\<lambda>_.
      report_scripts E (getScripts (env_isolate E) contextDebugDataSubstring (d_world (a_debugger a))) a)"

definition getEditedScript :: "wstr \<Rightarrow> 'w debugger_agent \<Rightarrow> wstr option" where
  "getEditedScript url a = hget (m_editedScripts a) url"

definition no_script :: "wstr \<Rightarrow> wstr" where
  "no_script scriptId = lit ''No script for id: '' @ scriptId"

definition getScriptSource :: "wstr \<Rightarrow> 'w debugger_agent \<Rightarrow> wstr + wstr" where
  "getScriptSource scriptId a =
    (case checkEnabled a of
       Some error \<Rightarrow> Inl error
     | None \<Rightarrow>
         (case hget (m_scripts a) scriptId of
            None \<Rightarrow> Inl (no_script scriptId)
          | Some script \<Rightarrow>
              (case (if nonnull (s_url script) \<noteq> [] then getEditedScript (nonnull (s_url script)) a else None) of
                 Some content \<Rightarrow> Inr content
               | None \<Rightarrow> Inr (s_source script))))"

definition searchInContent ::
  "'w environment \<Rightarrow> wstr \<Rightarrow> wstr \<Rightarrow> bool option \<Rightarrow> bool option \<Rightarrow> 'w debugger_agent \<Rightarrow> wstr + json list" where
  "searchInContent E scriptId query optionalCaseSensitive optionalIsRegex a =
    (case hget (m_scripts a) scriptId of
       None \<Rightarrow> Inl (no_script scriptId)
     | Some script \<Rightarrow>
         Inr (searchInTextByLines (env_search_match E) (s_source script) query (optionalCaseSensitive = Some True) (optionalIsRegex = Some True)))"

section \<open>Blackboxing\<close>

definition compileSkipCallFramePattern :: "'w environment \<Rightarrow> wstr \<Rightarrow> wstr option" where
  "compileSkipCallFramePattern E patternText =
    (if patternText = [] then None else if env_regexp_valid E patternText then Some patternText else None)"

definition increaseCachedSkipStackGeneration :: "'w debugger_agent \<Rightarrow> 'w debugger_agent" where
  "increaseCachedSkipStackGeneration a =
    a\<lparr>m_cachedSkipStackGeneration := (if m_cachedSkipStackGeneration a + 1 = 0 then 1 else m_cachedSkipStackGeneration a + 1)\<rparr>"

definition skipStackFrames ::
  "'w environment \<Rightarrow> wstr option \<Rightarrow> bool option \<Rightarrow> 'w debugger_agent \<Rightarrow> wstr option \<times> 'w debugger_agent" where
  "skipStackFrames E pattern skipContentScripts a =
    (case checkEnabled a of
       Some error \<Rightarrow> (Some error, a)
     | None \<Rightarrow>
         (let patternValue = (case pattern of None \<Rightarrow> [] | Some p \<Rightarrow> p);
              compiled = compileSkipCallFramePattern E patternValue
          in if patternValue \<noteq> [] \<and> compiled = None then (Some (lit ''Invalid regular expression''), a)
             else (None,
               (increaseCachedSkipStackGeneration (a\<lparr>m_cachedSkipStackRegExp := compiled\<rparr>))
                 \<lparr>m_skipContentScripts := (skipContentScripts = Some True),
                  a_state := state_setBoolean key_skipContentScripts (skipContentScripts = Some True)
                    (state_setString key_skipStackPattern patternValue (a_state a))\<rparr>)))"

text \<open>The verdict on the URL of a script is cached in the script.\<close>

definition blackbox_script :: "'w environment \<Rightarrow> wstr \<Rightarrow> Script \<Rightarrow> 'w debugger_agent \<Rightarrow> bool \<times> 'w debugger_agent" where
  "blackbox_script E scriptId script a =
    (case m_cachedSkipStackRegExp a of
       None \<Rightarrow> (False, a)
     | Some regexp \<Rightarrow>
         (if script_sourceURL script = [] then (False, a)
          else case getBlackboxedState (m_cachedSkipStackGeneration a) script of
            Some isBlackboxed \<Rightarrow> (isBlackboxed, a)
          | None \<Rightarrow>
              (let isBlackboxed = (env_regexp_match E regexp (script_sourceURL script) \<noteq> - 1)
               in (isBlackboxed,
                   a\<lparr>m_scripts := hset scriptId (setBlackboxedState (m_cachedSkipStackGeneration a) isBlackboxed script) (m_scripts a)\<rparr>))))"

definition isCallFrameWithUnknownScriptOrBlackboxed ::
  "'w environment \<Rightarrow> JSCallFrame option \<Rightarrow> 'w debugger_agent \<Rightarrow> bool \<times> 'w debugger_agent" where
  "isCallFrameWithUnknownScriptOrBlackboxed E pFrame a =
    (case pFrame of
       None \<Rightarrow> (True, a)
     | Some frame \<Rightarrow>
         (case hget (m_scripts a) (int_text (frame_sourceID frame)) of
            None \<Rightarrow> (True, a)
          | Some script \<Rightarrow>
              (if m_skipContentScripts a \<and> s_isContentScript script then (True, a)
               else blackbox_script E (int_text (frame_sourceID frame)) script a)))"

definition isTopCallFrameBlackboxed :: "'w environment \<Rightarrow> 'w debugger_agent \<Rightarrow> (bool \<times> 'w debugger_agent) cxx" where
  "isTopCallFrameBlackboxed E a =
    bind_cxx (callFrameNoScopes (env_isolate E) 0 (a_debugger a)) (\<lambda>frame.
      Val (isCallFrameWithUnknownScriptOrBlackboxed E frame a))"

lemma blackbox_frame [simp]:
  "a_debugger (snd (isCallFrameWithUnknownScriptOrBlackboxed E f a)) = a_debugger a"
  by (simp add: isCallFrameWithUnknownScriptOrBlackboxed_def blackbox_script_def Let_def split: option.splits)

function stack_blackboxed :: "'w environment \<Rightarrow> nat \<Rightarrow> 'w debugger_agent \<Rightarrow> (bool \<times> 'w debugger_agent) cxx" where
  "stack_blackboxed E index a =
    bind_cxx (callFrameNoScopes (env_isolate E) (int index) (a_debugger a)) (\<lambda>frame.
      if frame = None then Val (True, a)
      else if \<not> fst (isCallFrameWithUnknownScriptOrBlackboxed E frame a)
           then Val (False, snd (isCallFrameWithUnknownScriptOrBlackboxed E frame a))
           else stack_blackboxed E (Suc index) (snd (isCallFrameWithUnknownScriptOrBlackboxed E frame a)))"
  by pat_completeness auto

termination stack_blackboxed
proof (relation "measure (\<lambda>(E, index, a).
    length (dbg_frames (env_isolate E) (m_executionState (a_debugger a)) (d_world (a_debugger a))) - index)", goal_cases)
  case (2 E index a frame)
  hence "index < length (dbg_frames (env_isolate E) (m_executionState (a_debugger a)) (d_world (a_debugger a)))"
    by (auto simp: callFrameNoScopes_def with_script_def currentCallFrameByIndex_def Let_def split: if_splits option.splits)
  thus ?case by simp
qed simp

declare stack_blackboxed.simps [simp del]

definition isCallStackEmptyOrBlackboxed :: "'w environment \<Rightarrow> 'w debugger_agent \<Rightarrow> (bool \<times> 'w debugger_agent) cxx" where
  "isCallStackEmptyOrBlackboxed E a = stack_blackboxed E 0 a"

section \<open>What resolving leaves alone\<close>

lemma resolveBreakpoint_cases:
  assumes "resolveBreakpoint E breakpointId scriptId breakpoint source a = Val (location, a')"
  obtains (unresolved) d where "location = None" "a' = a\<lparr>a_debugger := d\<rparr>"
      "d = a_debugger a \<or> (\<exists>r. d_setBreakpoint (env_isolate E) scriptId breakpoint False (a_debugger a) = Val (r, d))"
    | (resolved) d debuggerId line column where "location = Some (location_object scriptId line column)"
      "a' = add_server_breakpoint debuggerId breakpointId source (a\<lparr>a_debugger := d\<rparr>)"
      "d_setBreakpoint (env_isolate E) scriptId breakpoint False (a_debugger a) = Val (Some (debuggerId, line, column), d)"
proof (cases "hget (m_scripts a) scriptId")
  case None
  thus ?thesis using assms unresolved [of "a_debugger a"] by (simp add: resolveBreakpoint_def)
next
  case (Some script)
  show ?thesis
  proof (cases "sb_lineNumber breakpoint < s_startLine script \<or> s_endLine script < sb_lineNumber breakpoint")
    case True
    thus ?thesis using assms Some unresolved [of "a_debugger a"] by (simp add: resolveBreakpoint_def)
  next
    case False
    then obtain r d where "d_setBreakpoint (env_isolate E) scriptId breakpoint False (a_debugger a) = Val (r, d)"
      using assms Some by (auto simp: resolveBreakpoint_def bind_cxx_eq_Val)
    thus ?thesis using assms Some False unresolved [of d] resolved
      by (cases r) (auto simp: resolveBreakpoint_def split: if_splits)
  qed
qed

definition same_scripts :: "'w debugger_agent \<Rightarrow> 'w debugger_agent \<Rightarrow> bool" where
  "same_scripts a b \<longleftrightarrow>
    m_scripts b = m_scripts a \<and> m_cachedSkipStackRegExp b = m_cachedSkipStackRegExp a \<and>
    m_cachedSkipStackGeneration b = m_cachedSkipStackGeneration a \<and> m_skipContentScripts b = m_skipContentScripts a"

lemma same_scripts_trans: "same_scripts a b \<Longrightarrow> same_scripts b c \<Longrightarrow> same_scripts a c"
  by (simp add: same_scripts_def)

lemma resolveBreakpoint_scripts:
  "resolveBreakpoint E breakpointId scriptId breakpoint source a = Val (location, a') \<Longrightarrow> same_scripts a a'"
  by (erule resolveBreakpoint_cases) (simp_all add: same_scripts_def add_server_breakpoint_def)

lemma resolve_cookies_scripts:
  "resolve_cookies E scriptId scriptURL cookies a = Val a' \<Longrightarrow> same_scripts a a'"
proof (induction E scriptId scriptURL cookies a rule: resolve_cookies.induct)
  case (1 E scriptId scriptURL a)
  thus ?case by (simp add: same_scripts_def)
next
  case (2 E scriptId scriptURL breakpointId cookie cookies a)
  then obtain isRegex url breakpoint where c: "cookie_breakpoint cookie = Val (isRegex, url, breakpoint)"
    by (auto simp: bind_cxx_eq_Val)
  show ?case
  proof (cases "matches E scriptURL url isRegex")
    case False
    thus ?thesis using 2 c by auto
  next
    case True
    then obtain location b d where "resolveBreakpoint E breakpointId scriptId breakpoint UserBreakpointSource a = Val (location, b)"
      and d: "(case location of None \<Rightarrow> Val b | Some l \<Rightarrow> send (BreakpointResolved breakpointId l) b) = Val d"
        "resolve_cookies E scriptId scriptURL cookies d = Val a'"
      using 2(3) c by (auto simp: bind_cxx_eq_Val)
    moreover have "same_scripts b d" using d(1) by (auto simp: send_def same_scripts_def split: option.splits if_splits)
    moreover have "same_scripts d a'" using 2(2) c True calculation by (blast intro: 2(2))
    ultimately show ?thesis using resolveBreakpoint_scripts same_scripts_trans by metis
  qed
qed

section \<open>The cache of blackboxed scripts\<close>

definition blackboxed_reference :: "'w environment \<Rightarrow> JSCallFrame option \<Rightarrow> 'w debugger_agent \<Rightarrow> bool" where
  "blackboxed_reference E pFrame a =
    (case Option.bind pFrame (\<lambda>frame. hget (m_scripts a) (int_text (frame_sourceID frame))) of
       None \<Rightarrow> True
     | Some script \<Rightarrow>
         m_skipContentScripts a \<and> s_isContentScript script \<or>
         (case m_cachedSkipStackRegExp a of
            None \<Rightarrow> False
          | Some regexp \<Rightarrow> script_sourceURL script \<noteq> [] \<and> env_regexp_match E regexp (script_sourceURL script) \<noteq> - 1))"

definition cache_ok :: "'w environment \<Rightarrow> 'w debugger_agent \<Rightarrow> bool" where
  "cache_ok E a \<longleftrightarrow> (\<forall>scriptId s. hget (m_scripts a) scriptId = Some s \<longrightarrow>
    s_blackboxGeneration s \<le> m_cachedSkipStackGeneration a \<and>
    (s_blackboxGeneration s = m_cachedSkipStackGeneration a \<and> s_blackboxGeneration s \<noteq> kBlackboxUnknown \<longrightarrow>
      (\<forall>regexp. m_cachedSkipStackRegExp a = Some regexp \<longrightarrow>
        s_isBlackboxedURL s = (env_regexp_match E regexp (script_sourceURL s) \<noteq> - 1))))"

lemma script_sourceURL_setBlackboxedState [simp]: "script_sourceURL (setBlackboxedState g b s) = script_sourceURL s"
  by (simp add: script_sourceURL_def setBlackboxedState_def)

lemma setBlackboxedState_simps [simp]:
  "s_blackboxGeneration (setBlackboxedState g b s) = g"
  "s_isBlackboxedURL (setBlackboxedState g b s) = b"
  by (simp_all add: setBlackboxedState_def)

lemma blackbox_script_result:
  assumes "cache_ok E a" "hget (m_scripts a) scriptId = Some s"
  shows "fst (blackbox_script E scriptId s a) =
      (case m_cachedSkipStackRegExp a of None \<Rightarrow> False
       | Some regexp \<Rightarrow> script_sourceURL s \<noteq> [] \<and> env_regexp_match E regexp (script_sourceURL s) \<noteq> - 1)"
    and "cache_ok E (snd (blackbox_script E scriptId s a))"
  using assms
  by (auto simp: blackbox_script_def cache_ok_def getBlackboxedState_def Let_def
      split: option.splits if_splits)

lemma cache_ok_check:
  assumes "cache_ok E a"
  shows "fst (isCallFrameWithUnknownScriptOrBlackboxed E f a) = blackboxed_reference E f a"
    and "cache_ok E (snd (isCallFrameWithUnknownScriptOrBlackboxed E f a))"
  using assms blackbox_script_result [OF assms]
  by (auto simp: isCallFrameWithUnknownScriptOrBlackboxed_def blackboxed_reference_def split: option.splits)

lemma cache_ok_increase:
  assumes "cache_ok E a" "m_cachedSkipStackGeneration a \<noteq> - 1"
  shows "cache_ok E (increaseCachedSkipStackGeneration (a\<lparr>m_cachedSkipStackRegExp := r\<rparr>))"
proof -
  have "m_cachedSkipStackGeneration a + 1 \<noteq> 0" using assms(2) by (metis add_eq_0_iff2 add.commute)
  moreover have "m_cachedSkipStackGeneration a < m_cachedSkipStackGeneration a + 1"
    using calculation by (simp add: word_less_nat_alt add.commute [of _ 1] unatSuc)
  ultimately have "s_blackboxGeneration s < m_cachedSkipStackGeneration a + 1" if "hget (m_scripts a) scriptId = Some s" for scriptId s
    using that assms(1) unfolding cache_ok_def by (meson le_less_trans)
  thus ?thesis using \<open>m_cachedSkipStackGeneration a + 1 \<noteq> 0\<close>
    by (fastforce simp: cache_ok_def increaseCachedSkipStackGeneration_def dest: less_imp_le)
qed

lemma cache_ok_same: "same_scripts a b \<Longrightarrow> cache_ok E b = cache_ok E a"
  by (simp add: same_scripts_def cache_ok_def)

lemma cache_ok_skipStackFrames:
  assumes "cache_ok E a" "m_cachedSkipStackGeneration a \<noteq> - 1"
  shows "cache_ok E (snd (skipStackFrames E pattern skip a))"
  using assms cache_ok_increase [OF assms]
  by (auto simp: skipStackFrames_def Let_def cache_ok_def split: option.splits)

lemma cache_ok_parse:
  assumes "cache_ok E a" "dispatchDidParseSource E object hasSyntaxError a = Val a'"
  shows "cache_ok E a'"
proof -
  obtain scriptId script where ps: "parsed_script object = (scriptId, script)" by fastforce
  hence gen: "s_blackboxGeneration script = 0"
    by (auto simp: parsed_script_def setSourceURL_def setURL_def new_script_def kBlackboxUnknown_def)
  let ?script = "if hasSyntaxError
    then setSourceURL (fst (findSourceURL (env_platform E) (s_source script) JavaScriptMagicComment)) script else script"
  obtain b where b: "same_scripts a b" and a': "same_scripts (b\<lparr>m_scripts := hset scriptId ?script (m_scripts b)\<rparr>) a'"
    using assms(2) ps
    by (auto simp: dispatchDidParseSource_def didParseSource_def Let_def bind_cxx_eq_Val send_def with_cookies_def same_scripts_def
        dest!: resolve_cookies_scripts split: if_splits option.splits prod.splits)
  have "cache_ok E (b\<lparr>m_scripts := hset scriptId ?script (m_scripts b)\<rparr>)"
    using assms(1) b gen by (auto simp: cache_ok_def same_scripts_def setSourceURL_def kBlackboxUnknown_def)
  thus ?thesis using cache_ok_same [OF a'] by simp
qed

inductive blackbox_reach :: "'w environment \<Rightarrow> 'w debugger_agent \<Rightarrow> bool" for E where
  br_start: "blackbox_reach E (new_agent d)"
| br_pattern: "blackbox_reach E a \<Longrightarrow> m_cachedSkipStackGeneration a \<noteq> - 1 \<Longrightarrow>
    blackbox_reach E (snd (skipStackFrames E pattern skip a))"
| br_parse: "blackbox_reach E a \<Longrightarrow> dispatchDidParseSource E object hasSyntaxError a = Val a' \<Longrightarrow> blackbox_reach E a'"
| br_check: "blackbox_reach E a \<Longrightarrow> blackbox_reach E (snd (isCallFrameWithUnknownScriptOrBlackboxed E f a))"
| br_clear: "blackbox_reach E a \<Longrightarrow> blackbox_reach E (a\<lparr>m_scripts := []\<rparr>)"
| br_other: "blackbox_reach E a \<Longrightarrow> same_scripts a b \<Longrightarrow> blackbox_reach E b"

lemma blackbox_reach_ok: "blackbox_reach E a \<Longrightarrow> cache_ok E a"
  by (induction rule: blackbox_reach.induct)
    (simp_all add: cache_ok_skipStackFrames cache_ok_check cache_ok_same cache_ok_parse, simp_all add: cache_ok_def new_agent_def)


definition sample_environment :: "sample_world environment" where
  "sample_environment =
    \<lparr>env_platform = sample_platform, env_isolate = sample_isolate, env_regexp_valid = \<lambda>p. True,
     env_regexp_match = \<lambda>p u. if p = u then 0 else - 1, env_search_match = \<lambda>r l. False\<rparr>"

definition enabled_agent :: "frame_mirror list \<Rightarrow> sample_world debugger_agent" where
  "enabled_agent frames =
    (new_agent ((new_debugger (sample_world0\<lparr>sw_frames := frames\<rparr>))\<lparr>m_debuggerScript := Some 0\<rparr>))
      \<lparr>a_frontend := True, a_state := state_setBoolean key_debuggerEnabled True emptyObject\<rparr>"

lemma checkEnabled_enabled_agent [simp]: "checkEnabled (enabled_agent frames) = None"
  by (simp add: checkEnabled_def a_enabled_def enabled_agent_def new_agent_def key_defs state_getBoolean_def state_setBoolean_def lit_def)

definition shown_script :: Script where
  "shown_script = new_script\<lparr>s_url := Some (lit ''a.js''), s_source := lit ''f()'', s_endColumn := 3\<rparr>"

lemma parsed_small_script: "parsed_script (formatScript small_script) = (int_text 1, shown_script)"
  by (simp add: parsed_script_def formatScript_def small_script_def new_script_def setURL_def setSourceURL_def
      shown_script_def lit_def uc_def)

lemma shown_script_simps [simp]:
  "script_sourceURL shown_script = lit ''a.js''" "s_startLine shown_script = 0" "s_endLine shown_script = 0"
  "\<not> s_isContentScript shown_script"
  by (simp_all add: shown_script_def script_sourceURL_def new_script_def lit_def)

lemma enabled_agent_simps [simp]:
  "a_frontend (enabled_agent frames)" "m_scripts (enabled_agent frames) = []" "a_events (enabled_agent frames) = []"
  "m_serverBreakpoints (enabled_agent frames) = []" "m_breakpointIdToDebuggerBreakpointIds (enabled_agent frames) = []"
  "m_cachedSkipStackGeneration (enabled_agent frames) = 0" "\<not> m_skipContentScripts (enabled_agent frames)"
  "getValue (a_state (enabled_agent frames)) key_javaScriptBreakpoints = None"
  by (simp_all add: enabled_agent_def new_agent_def key_defs state_setBoolean_def lit_def)

lemma state_getObject_cases:
  "getValue ps key = None \<Longrightarrow> state_getObject ps key = (Some emptyObject, state_setObject key emptyObject ps)"
  "getValue ps key = Some (JSONObject ob) \<Longrightarrow> state_getObject ps key = (Some ob, ps)"
  by (simp_all add: state_getObject_def state_setObject_def json_setters)


section \<open>What is set in V8\<close>

text \<open>
  The promise of V8: a breakpoint that is set gets a number that is not in use, and
  removing a breakpoint by its number removes just that one.  \<open>active\<close> observes the
  numbers in use.
\<close>

definition breakpoints_law :: "'w isolate \<Rightarrow> ('w \<Rightarrow> wstr set) \<Rightarrow> bool" where
  "breakpoints_law V active \<longleftrightarrow>
    (\<forall>s line column condition aligned w k w'. dbg_setScriptBreakPointById V s line column condition aligned w = (k, w') \<longrightarrow>
       numberToStringImpl_digits k \<notin> active w \<and> active w' = insert (numberToStringImpl_digits k) (active w)) \<and>
    (\<forall>i w. active (dbg_removeBreakPoint V i w) = active w - {i})"

text \<open>
  The contract: a table from breakpoint ids of the protocol to the breakpoints of V8
  behind them, and all the breakpoints of V8.
\<close>

type_synonym breakpoint_spec = "(wstr \<Rightarrow> wstr set) \<times> wstr set"

inductive spec_step :: "breakpoint_spec \<Rightarrow> breakpoint_spec \<Rightarrow> bool" where
  spec_set: "i \<notin> A \<Longrightarrow> spec_step (T, A) (T(b := insert i (T b)), insert i A)"
| spec_refused: "i \<notin> A \<Longrightarrow> spec_step (T, A) (T, insert i A)"
| spec_remove: "spec_step (T, A) (T(b := {}), A - T b)"

definition v8_breakpoints :: "'w debugger_agent \<Rightarrow> wstr \<Rightarrow> wstr set" where
  "v8_breakpoints a breakpointId =
    (case hget (m_breakpointIdToDebuggerBreakpointIds a) breakpointId of None \<Rightarrow> {} | Some ids \<Rightarrow> set ids)"

definition breakpoint_abs :: "('w \<Rightarrow> wstr set) \<Rightarrow> 'w debugger_agent \<Rightarrow> breakpoint_spec" where
  "breakpoint_abs active a = (v8_breakpoints a, active (d_world (a_debugger a)))"

definition tables_ok :: "('w \<Rightarrow> wstr set) \<Rightarrow> 'w debugger_agent \<Rightarrow> bool" where
  "tables_ok active a \<longleftrightarrow> d_enabled (a_debugger a) \<and>
    (\<forall>b. \<forall>i \<in> v8_breakpoints a b. i \<in> active (d_world (a_debugger a)) \<and> map_option fst (hget (m_serverBreakpoints a) i) = Some b)"

lemma d_setBreakpoint_law:
  assumes "breakpoints_law V active" "d_setBreakpoint V s b aligned d = Val (r, d')"
  shows "\<exists>i. i \<notin> active (d_world d) \<and> active (d_world d') = insert i (active (d_world d)) \<and>
    (\<forall>j line column. r = Some (j, line, column) \<longrightarrow> j = i) \<and> d_enabled d' = d_enabled d"
proof -
  obtain k w' where k: "dbg_setScriptBreakPointById V s (sb_lineNumber b) (sb_columnNumber b) (sb_condition b) aligned (d_world d) = (k, w')"
    by fastforce
  have "numberToStringImpl_digits k \<notin> active (d_world d)" "active w' = insert (numberToStringImpl_digits k) (active (d_world d))"
    using assms(1) k unfolding breakpoints_law_def by blast+
  thus ?thesis using assms(2) k
    by (auto simp: d_setBreakpoint_def with_script_def script_setBreakpoint_def d_enabled_def split: option.splits list.splits)
qed

lemma v8_breakpoints_add:
  "v8_breakpoints (add_server_breakpoint i b source a) = (v8_breakpoints a)(b := insert i (v8_breakpoints a b))"
  by (auto simp: fun_eq_iff v8_breakpoints_def add_server_breakpoint_def split: option.splits)

definition refines :: "('w \<Rightarrow> wstr set) \<Rightarrow> 'w debugger_agent \<Rightarrow> 'w debugger_agent \<Rightarrow> bool" where
  "refines active a a' \<longleftrightarrow>
    (tables_ok active a \<longrightarrow> tables_ok active a' \<and> spec_step\<^sup>*\<^sup>* (breakpoint_abs active a) (breakpoint_abs active a'))"

lemma refines_refl: "refines active a a"
  by (simp add: refines_def)

lemma refines_trans: "refines active a b \<Longrightarrow> refines active b c \<Longrightarrow> refines active a c"
  by (auto simp: refines_def)

lemma refines_same:
  assumes "a_debugger a' = a_debugger a" "m_serverBreakpoints a' = m_serverBreakpoints a"
    "m_breakpointIdToDebuggerBreakpointIds a' = m_breakpointIdToDebuggerBreakpointIds a"
  shows "refines active a a'"
proof -
  have "v8_breakpoints a' = v8_breakpoints a" using assms by (simp add: fun_eq_iff v8_breakpoints_def)
  thus ?thesis using assms by (simp add: refines_def tables_ok_def breakpoint_abs_def)
qed

lemma resolveBreakpoint_refines:
  assumes law: "breakpoints_law (env_isolate E) active"
    and step: "resolveBreakpoint E breakpointId scriptId breakpoint source a = Val (location, a')"
  shows "refines active a a'"
  using step
proof (cases rule: resolveBreakpoint_cases)
  case (unresolved d)
  show ?thesis
  proof (cases "d = a_debugger a")
    case False
    then obtain i where i: "i \<notin> active (d_world (a_debugger a))" "active (d_world d) = insert i (active (d_world (a_debugger a)))"
        "d_enabled d = d_enabled (a_debugger a)"
      using unresolved d_setBreakpoint_law [OF law] by blast
    have "v8_breakpoints a' = v8_breakpoints a" using unresolved by (simp add: fun_eq_iff v8_breakpoints_def)
    thus ?thesis using i unresolved spec_refused [OF i(1)] by (auto simp: refines_def tables_ok_def breakpoint_abs_def)
  qed (simp add: unresolved refines_refl)
next
  case (resolved d debuggerId line column)
  then have i: "debuggerId \<notin> active (d_world (a_debugger a))"
      "active (d_world d) = insert debuggerId (active (d_world (a_debugger a)))" "d_enabled d = d_enabled (a_debugger a)"
    using d_setBreakpoint_law [OF law] by blast+
  let ?a = "a\<lparr>a_debugger := d\<rparr>"
  have same: "v8_breakpoints ?a = v8_breakpoints a" by (simp add: fun_eq_iff v8_breakpoints_def)
  have table: "v8_breakpoints a' = (v8_breakpoints a)(breakpointId := insert debuggerId (v8_breakpoints a breakpointId))"
    unfolding resolved(2) v8_breakpoints_add same ..
  have rest: "a_debugger a' = d" "m_serverBreakpoints a' = hset debuggerId (breakpointId, source) (m_serverBreakpoints a)"
    by (simp_all add: resolved(2) add_server_breakpoint_def)
  have "tables_ok active a'" if "tables_ok active a"
    using that i by (auto simp: tables_ok_def table rest)
  thus ?thesis using i spec_set [OF i(1), of "v8_breakpoints a" breakpointId]
    by (auto simp: refines_def breakpoint_abs_def table rest)
qed

lemma hget_fold_hremove: "hget (fold hremove is m) i = (if i \<in> set is then None else hget m i)"
  by (induction "is" arbitrary: m) auto

lemma remove_server_breakpoints_Val:
  assumes law: "breakpoints_law (env_isolate E) active"
    and "d_enabled (a_debugger a)"
  shows "\<exists>d. remove_server_breakpoints E ids a = Val (a\<lparr>a_debugger := d, m_serverBreakpoints := fold hremove ids (m_serverBreakpoints a)\<rparr>) \<and>
    active (d_world d) = active (d_world (a_debugger a)) - set ids \<and> d_enabled d"
  using assms(2)
proof (induction ids arbitrary: a)
  case Nil
  thus ?case by (auto intro!: exI [of _ "a_debugger a"])
next
  case (Cons i ids)
  define b where "b = a\<lparr>a_debugger := native (dbg_removeBreakPoint (env_isolate E) i) (a_debugger a),
    m_serverBreakpoints := hremove i (m_serverBreakpoints a)\<rparr>"
  have b: "d_enabled (a_debugger b)" "active (d_world (a_debugger b)) = active (d_world (a_debugger a)) - {i}"
    using Cons.prems law by (simp_all add: b_def native_def d_enabled_def breakpoints_law_def)
  have "remove_server_breakpoints E (i # ids) a = remove_server_breakpoints E ids b"
    using Cons.prems by (auto simp: on_debugger_def d_removeBreakpoint_def with_script_def d_enabled_def b_def)
  thus ?case using Cons.IH [OF b(1)] b(2) by (auto simp: b_def)
qed

lemma removeBreakpoint_id_Val:
  assumes law: "breakpoints_law (env_isolate E) active" and on: "d_enabled (a_debugger a)"
  shows "\<exists>a'. removeBreakpoint_id E breakpointId a = Val a' \<and> d_enabled (a_debugger a') \<and>
    v8_breakpoints a' = (v8_breakpoints a)(breakpointId := {}) \<and>
    active (d_world (a_debugger a')) = active (d_world (a_debugger a)) - v8_breakpoints a breakpointId \<and>
    (\<forall>i. hget (m_serverBreakpoints a') i = (if i \<in> v8_breakpoints a breakpointId then None else hget (m_serverBreakpoints a) i)) \<and>
    a_state a' = a_state a"
proof (cases "hget (m_breakpointIdToDebuggerBreakpointIds a) breakpointId")
  case None
  hence "v8_breakpoints a breakpointId = {}" by (simp add: v8_breakpoints_def)
  thus ?thesis using None on by (auto simp: removeBreakpoint_id_def fun_eq_iff)
next
  case (Some ids)
  have ids: "v8_breakpoints a breakpointId = set ids" using Some by (simp add: v8_breakpoints_def)
  from remove_server_breakpoints_Val [OF law on, of ids] obtain d where
    d: "remove_server_breakpoints E ids a = Val (a\<lparr>a_debugger := d, m_serverBreakpoints := fold hremove ids (m_serverBreakpoints a)\<rparr>)"
      "active (d_world d) = active (d_world (a_debugger a)) - set ids" "d_enabled d" by blast
  show ?thesis using d Some ids by (auto simp: removeBreakpoint_id_def fun_eq_iff v8_breakpoints_def hget_fold_hremove)
qed

lemma tables_ok_unique: "tables_ok active a \<Longrightarrow> i \<in> v8_breakpoints a b \<Longrightarrow> i \<in> v8_breakpoints a b' \<Longrightarrow> b = b'"
  unfolding tables_ok_def by (metis option.inject)

lemma removeBreakpoint_id_refines:
  assumes "breakpoints_law (env_isolate E) active" "removeBreakpoint_id E breakpointId a = Val a'"
  shows "refines active a a'"
proof (cases "d_enabled (a_debugger a)")
  case True
  have a': "v8_breakpoints a' = (v8_breakpoints a)(breakpointId := {})"
    "active (d_world (a_debugger a')) = active (d_world (a_debugger a)) - v8_breakpoints a breakpointId"
    "\<And>i. hget (m_serverBreakpoints a') i = (if i \<in> v8_breakpoints a breakpointId then None else hget (m_serverBreakpoints a) i)"
    "d_enabled (a_debugger a')"
    using removeBreakpoint_id_Val [OF assms(1) True, of breakpointId] assms(2) by auto
  have "tables_ok active a'" if "tables_ok active a"
    using that tables_ok_unique [OF that] by (auto simp: tables_ok_def a')
  thus ?thesis
    using spec_remove [of "v8_breakpoints a" "active (d_world (a_debugger a))" breakpointId]
    by (auto simp: refines_def breakpoint_abs_def a' intro: r_into_rtranclp)
qed (simp add: refines_def tables_ok_def)

lemma resolve_in_scripts_refines:
  assumes "breakpoints_law (env_isolate E) active"
  shows "resolve_in_scripts E breakpointId breakpoint url isRegex scripts a = Val (locations, a') \<Longrightarrow> refines active a a'"
proof (induction scripts arbitrary: a locations)
  case (Cons p scripts)
  thus ?case by (cases p) (auto simp: bind_cxx_eq_Val split: if_splits
    intro: refines_trans [OF resolveBreakpoint_refines [OF assms]])
qed (simp add: refines_refl)

lemma resolve_cookies_refines:
  assumes "breakpoints_law (env_isolate E) active"
  shows "resolve_cookies E scriptId scriptURL cookies a = Val a' \<Longrightarrow> refines active a a'"
proof (induction cookies arbitrary: a)
  case (Cons p cookies)
  obtain breakpointId cookie where p: "p = (breakpointId, cookie)" by (cases p)
  then obtain isRegex url breakpoint where c: "cookie_breakpoint cookie = Val (isRegex, url, breakpoint)"
    using Cons.prems by (auto simp: bind_cxx_eq_Val)
  show ?case
  proof (cases "matches E scriptURL url isRegex")
    case True
    then obtain location b d where "resolveBreakpoint E breakpointId scriptId breakpoint UserBreakpointSource a = Val (location, b)"
      and d: "(case location of None \<Rightarrow> Val b | Some l \<Rightarrow> send (BreakpointResolved breakpointId l) b) = Val d"
        "resolve_cookies E scriptId scriptURL cookies d = Val a'"
      using Cons.prems c p by (auto simp: bind_cxx_eq_Val)
    moreover have "refines active b d"
      using d(1) by (intro refines_same) (auto simp: send_def split: option.splits if_splits)
    ultimately show ?thesis using Cons.IH resolveBreakpoint_refines [OF assms] refines_trans by metis
  qed (use Cons c p in auto)
qed (simp add: refines_refl)

section \<open>The operations on breakpoints\<close>

datatype breakpoint_op =
    SetBreakpoint json_object "wstr option"
  | SetBreakpointByUrl int "wstr option" "wstr option" "int option" "wstr option"
  | RemoveBreakpoint wstr
  | ParsedSource wstr Script bool
  | SetCommandBreakpoint wstr int int BreakpointSource wstr
  | RemoveCommandBreakpoint wstr int int BreakpointSource

definition breakpoint_op_step :: "'w environment \<Rightarrow> breakpoint_op \<Rightarrow> 'w debugger_agent \<Rightarrow> 'w debugger_agent cxx" where
  "breakpoint_op_step E op a =
    (case op of
       SetBreakpoint location condition \<Rightarrow> bind_cxx (setBreakpoint E location condition a) (\<lambda>(_, a). Val a)
     | SetBreakpointByUrl line url regex column condition \<Rightarrow>
         bind_cxx (setBreakpointByUrl E line url regex column condition a) (\<lambda>(_, a). Val a)
     | RemoveBreakpoint breakpointId \<Rightarrow> bind_cxx (removeBreakpoint E breakpointId a) (\<lambda>(_, a). Val a)
     | ParsedSource scriptId script failed \<Rightarrow> didParseSource E scriptId script failed a
     | SetCommandBreakpoint scriptId line column source condition \<Rightarrow> setBreakpoint_command E scriptId line column source condition a
     | RemoveCommandBreakpoint scriptId line column source \<Rightarrow> removeBreakpoint_command E scriptId line column source a)"

lemma with_cookies_refines:
  assumes "with_cookies a f = Val r" "\<And>cookies b. a_debugger b = a_debugger a \<Longrightarrow> f cookies b = Val r \<Longrightarrow> refines active b a'"
  shows "refines active a a'"
proof -
  from assms(1) obtain cookies ps where c: "f cookies (a\<lparr>a_state := ps\<rparr>) = Val r"
    by (auto simp: with_cookies_def split: prod.splits option.splits)
  have "refines active a (a\<lparr>a_state := ps\<rparr>)" by (rule refines_same) simp_all
  thus ?thesis using assms(2) [OF _ c] refines_trans by simp blast
qed

lemma set_cookies_refines: "refines active (set_cookies cookies a) b \<Longrightarrow> refines active a b"
  by (erule refines_trans [rotated]) (auto intro: refines_same simp: set_cookies_def)

lemma setBreakpointByUrl_refines:
  assumes "breakpoints_law (env_isolate E) active" "setBreakpointByUrl E line url regex column condition a = Val (r, a')"
  shows "refines active a a'"
proof -
  have resolve: "refines active b a'"
    if "resolve_in_scripts E i breakpoint u isRegex scripts (set_cookies c b) = Val (l, a')" for i breakpoint u isRegex scripts c b l
    using resolve_in_scripts_refines [OF assms(1) that] by (rule set_cookies_refines)
  show ?thesis using assms(2) unfolding setBreakpointByUrl_def Let_def
    by (auto simp: bind_cxx_eq_Val refines_refl split: if_splits elim!: with_cookies_refines dest: resolve)
qed

lemma removeBreakpoint_refines:
  assumes "breakpoints_law (env_isolate E) active" "removeBreakpoint E breakpointId a = Val (r, a')"
  shows "refines active a a'"
proof -
  have remove: "refines active b a'" if "removeBreakpoint_id E breakpointId (set_cookies c b) = Val a'" for c b
    using removeBreakpoint_id_refines [OF assms(1) that] by (rule set_cookies_refines)
  show ?thesis
  proof (cases "checkEnabled a")
    case None
    show ?thesis using assms(2) None unfolding removeBreakpoint_def
      by (auto simp: bind_cxx_eq_Val elim!: with_cookies_refines dest: remove)
  qed (use assms(2) in \<open>auto simp: removeBreakpoint_def refines_refl\<close>)
qed

lemma didParseSource_refines:
  assumes law: "breakpoints_law (env_isolate E) active" and step: "didParseSource E scriptId script failed a = Val a'"
  shows "refines active a a'"
proof -
  obtain event s b where b: "send event a = Val b"
      "(if script_sourceURL s = [] \<or> failed then Val (b\<lparr>m_scripts := hset scriptId s (m_scripts b)\<rparr>)
        else with_cookies (b\<lparr>m_scripts := hset scriptId s (m_scripts b)\<rparr>)
          (\<lambda>cookies. resolve_cookies E scriptId (script_sourceURL s) (m_data cookies))) = Val a'"
    using step unfolding didParseSource_def Let_def bind_cxx_eq_Val by blast
  have "refines active a (b\<lparr>m_scripts := hset scriptId s (m_scripts b)\<rparr>)"
    using b(1) by (intro refines_same) (auto simp: send_def split: if_splits)
  moreover have "refines active (b\<lparr>m_scripts := hset scriptId s (m_scripts b)\<rparr>) a'"
    using b(2) by (auto simp: refines_refl split: if_splits elim!: with_cookies_refines dest: resolve_cookies_refines [OF law])
  ultimately show ?thesis by (rule refines_trans)
qed

lemma setBreakpoint_refines:
  assumes law: "breakpoints_law (env_isolate E) active" and step: "setBreakpoint E location condition a = Val (r, a')"
  shows "refines active a a'"
  using step unfolding setBreakpoint_def Let_def
  by (auto simp: bind_cxx_eq_Val refines_refl split: sum.splits if_splits dest: resolveBreakpoint_refines [OF law])

lemma breakpoint_op_refines:
  assumes "breakpoints_law (env_isolate E) active" "breakpoint_op_step E op a = Val a'"
  shows "refines active a a'"
  using assms(2)
  by (cases op) (auto simp: breakpoint_op_step_def bind_cxx_eq_Val setBreakpoint_command_def removeBreakpoint_command_def
    dest: setBreakpoint_refines [OF assms(1)] setBreakpointByUrl_refines [OF assms(1)] removeBreakpoint_refines [OF assms(1)]
      didParseSource_refines [OF assms(1)] resolveBreakpoint_refines [OF assms(1)] removeBreakpoint_id_refines [OF assms(1)])

fun breakpoint_ops :: "'w environment \<Rightarrow> breakpoint_op list \<Rightarrow> 'w debugger_agent \<Rightarrow> 'w debugger_agent cxx" where
  "breakpoint_ops E [] a = Val a"
| "breakpoint_ops E (op # ops) a = bind_cxx (breakpoint_op_step E op a) (breakpoint_ops E ops)"

lemma breakpoint_ops_refines:
  assumes "breakpoints_law (env_isolate E) active"
  shows "breakpoint_ops E ops a = Val a' \<Longrightarrow> refines active a a'"
  by (induction ops arbitrary: a)
    (auto simp: refines_refl bind_cxx_eq_Val intro: refines_trans [OF breakpoint_op_refines [OF assms]])


definition sample_active :: "sample_world \<Rightarrow> wstr set" where
  "sample_active w = {numberToStringImpl_digits k | k. k \<in> fst ` set (sw_breakpoints w) \<and> k < sw_nextId w}"

lemma sample_breakpoints_law: "breakpoints_law sample_isolate sample_active"
  unfolding breakpoints_law_def
proof (intro conjI allI impI)
  show "sample_active (dbg_removeBreakPoint sample_isolate i w) = sample_active w - {i}" for i w
    by (force simp: sample_isolate_def sample_active_def)
qed (auto simp: sample_isolate_def sample_active_def image_iff less_Suc_eq)

lemma breakpoint_cookie_read:
  assumes "- (2 ^ 31) \<le> line" "line < 2 ^ 31" "- (2 ^ 31) \<le> column" "column < 2 ^ 31"
  shows "cookie_breakpoint (JSONObject (buildObjectForBreakpointCookie url line column condition isRegex)) =
    Val (isRegex, url, \<lparr>sb_lineNumber = line, sb_columnNumber = column, sb_condition = condition\<rparr>)"
  using assms
  by (simp add: cookie_breakpoint_def buildObjectForBreakpointCookie_def json_setters getBoolean_def getString_def getNumber_or_zero_def
      getNumber_int_def number_json_def asNumber_int_def double_to_signed_of_int lit_def nonnull_def)

definition accepted :: "'w environment \<Rightarrow> wstr \<Rightarrow> ScriptBreakpoint \<Rightarrow> bool" where
  "accepted E scriptId breakpoint \<longleftrightarrow>
    (\<forall>w k w'. dbg_setScriptBreakPointById (env_isolate E) scriptId (sb_lineNumber breakpoint) (sb_columnNumber breakpoint)
        (sb_condition breakpoint) False w = (k, w') \<longrightarrow> dbg_actualLocations (env_isolate E) k w' \<noteq> [])"

lemma accepted_resolves:
  assumes "accepted E scriptId breakpoint" "hget (m_scripts a) scriptId = Some script"
    and "s_startLine script \<le> sb_lineNumber breakpoint" "sb_lineNumber breakpoint \<le> s_endLine script"
    and "resolveBreakpoint E i scriptId breakpoint source a = Val (location, a')"
  shows "location \<noteq> None"
proof -
  obtain k w' where k: "dbg_setScriptBreakPointById (env_isolate E) scriptId (sb_lineNumber breakpoint) (sb_columnNumber breakpoint)
        (sb_condition breakpoint) False (d_world (a_debugger a)) = (k, w')" by fastforce
  hence "dbg_actualLocations (env_isolate E) k w' \<noteq> []" using assms(1) by (auto simp: accepted_def)
  then obtain line column rest where "dbg_actualLocations (env_isolate E) k w' = (line, column) # rest"
    by (metis neq_Nil_conv surj_pair)
  thus ?thesis using assms k
    by (auto simp: resolveBreakpoint_def d_setBreakpoint_def with_script_def script_setBreakpoint_def
        numberToStringImpl_digits_nonempty split: option.splits)
qed

lemma resolveBreakpoint_events:
  "resolveBreakpoint E i scriptId breakpoint source a = Val (location, a') \<Longrightarrow> a_events a' = a_events a"
  by (erule resolveBreakpoint_cases) (simp_all add: add_server_breakpoint_def)

lemma resolve_cookies_ConsE:
  assumes "resolve_cookies E scriptId scriptURL ((i, cookie) # cookies) a = Val a'"
  obtains b where "resolve_cookies E scriptId scriptURL [(i, cookie)] a = Val b" "resolve_cookies E scriptId scriptURL cookies b = Val a'"
proof -
  obtain isRegex url breakpoint where c: "cookie_breakpoint cookie = Val (isRegex, url, breakpoint)"
    using assms by (auto simp: bind_cxx_eq_Val)
  show ?thesis using assms c that by (cases "matches E scriptURL url isRegex") (auto simp: bind_cxx_eq_Val)
qed

lemma resolve_cookie_events:
  assumes "resolve_cookies E scriptId scriptURL [(i, cookie)] a = Val a'"
  shows "prefix (a_events a) (a_events a')"
proof -
  obtain isRegex url breakpoint where c: "cookie_breakpoint cookie = Val (isRegex, url, breakpoint)"
    using assms by (auto simp: bind_cxx_eq_Val)
  show ?thesis
  proof (cases "matches E scriptURL url isRegex")
    case True
    then obtain location b where b: "resolveBreakpoint E i scriptId breakpoint UserBreakpointSource a = Val (location, b)"
      and "(case location of None \<Rightarrow> Val b | Some l \<Rightarrow> send (BreakpointResolved i l) b) = Val a'"
      using assms c by (auto simp: bind_cxx_eq_Val)
    thus ?thesis using resolveBreakpoint_events [OF b] by (auto simp: send_def split: option.splits if_splits)
  qed (use assms c in simp)
qed

lemma resolve_cookies_events:
  "resolve_cookies E scriptId scriptURL cookies a = Val a' \<Longrightarrow> prefix (a_events a) (a_events a')"
proof (induction cookies arbitrary: a)
  case (Cons p cookies)
  obtain i cookie where p: "p = (i, cookie)" by (cases p)
  obtain b where "resolve_cookies E scriptId scriptURL [(i, cookie)] a = Val b" "resolve_cookies E scriptId scriptURL cookies b = Val a'"
    using Cons.prems unfolding p by (rule resolve_cookies_ConsE)
  thus ?case using resolve_cookie_events Cons.IH prefix_order.trans by blast
qed simp

lemma resolve_cookies_resolves:
  assumes "resolve_cookies E scriptId scriptURL cookies a = Val a'" "(i, cookie) \<in> set cookies"
    and "cookie_breakpoint cookie = Val (isRegex, url, breakpoint)" "matches E scriptURL url isRegex"
    and "accepted E scriptId breakpoint" "hget (m_scripts a) scriptId = Some script"
    and "s_startLine script \<le> sb_lineNumber breakpoint" "sb_lineNumber breakpoint \<le> s_endLine script"
  shows "\<exists>location. BreakpointResolved i location \<in> set (a_events a')"
  using assms(1,2,6)
proof (induction cookies arbitrary: a)
  case (Cons p cookies)
  show ?case
  proof (cases "p = (i, cookie)")
    case True
    then obtain location b d where b: "resolveBreakpoint E i scriptId breakpoint UserBreakpointSource a = Val (location, b)"
      and d: "(case location of None \<Rightarrow> Val b | Some l \<Rightarrow> send (BreakpointResolved i l) b) = Val d"
        "resolve_cookies E scriptId scriptURL cookies d = Val a'"
      using Cons.prems(1) assms(3,4) by (auto simp: bind_cxx_eq_Val)
    obtain l where "location = Some l"
      using accepted_resolves [OF assms(5) Cons.prems(3) assms(7,8) b] by blast
    hence "BreakpointResolved i l \<in> set (a_events d)" using d(1) by (auto simp: send_def split: if_splits)
    thus ?thesis using resolve_cookies_events [OF d(2)] by (meson set_mono_prefix subsetD)
  next
    case False
    obtain j c where p: "p = (j, c)" by (cases p)
    obtain b where b: "resolve_cookies E scriptId scriptURL [(j, c)] a = Val b" "resolve_cookies E scriptId scriptURL cookies b = Val a'"
      using Cons.prems(1) unfolding p by (rule resolve_cookies_ConsE)
    moreover have "m_scripts b = m_scripts a" using resolve_cookies_scripts [OF b(1)] by (simp add: same_scripts_def)
    ultimately show ?thesis using Cons.IH [of b] Cons.prems False by auto
  qed
qed simp

lemma resolveBreakpoint_state:
  "resolveBreakpoint E i scriptId breakpoint source a = Val (location, a') \<Longrightarrow> a_state a' = a_state a"
  by (erule resolveBreakpoint_cases) (simp_all add: add_server_breakpoint_def)

lemma resolve_in_scripts_state:
  "resolve_in_scripts E i breakpoint url isRegex scripts a = Val (locations, a') \<Longrightarrow> a_state a' = a_state a"
proof (induction scripts arbitrary: a locations)
  case (Cons p scripts)
  thus ?case by (cases p) (auto simp: bind_cxx_eq_Val split: if_splits dest!: resolveBreakpoint_state)
qed simp


lemma setBreakpointByUrl_cookie:
  assumes "setBreakpointByUrl E line (Some url) None column condition a = Val (Inr (i, locations), b)"
  shows "\<exists>cookies. getValue (a_state b) key_javaScriptBreakpoints = Some (JSONObject cookies) \<and>
    getValue cookies i = Some (JSONObject (buildObjectForBreakpointCookie url line
      (case column of None \<Rightarrow> 0 | Some c \<Rightarrow> c) (case condition of None \<Rightarrow> [] | Some c \<Rightarrow> c) False))"
  using assms
  by (auto simp: setBreakpointByUrl_def Let_def with_cookies_def bind_cxx_eq_Val set_cookies_def state_setObject_def json_setters
      dest!: resolve_in_scripts_state split: if_splits prod.splits option.splits)


definition url_agent :: "sample_world debugger_agent" where
  "url_agent = set_cookies (setObject (url_breakpoint_id (lit ''a.js'') False 0 0)
    (buildObjectForBreakpointCookie (lit ''a.js'') 0 0 [] False) emptyObject)
    ((enabled_agent [])\<lparr>a_state := state_setObject key_javaScriptBreakpoints emptyObject (a_state (enabled_agent []))\<rparr>)"

lemma url_agent_set:
  "setBreakpointByUrl sample_environment 0 (Some (lit ''a.js'')) None None None (enabled_agent []) =
    Val (Inr (url_breakpoint_id (lit ''a.js'') False 0 0, []), url_agent)"
  by (simp add: setBreakpointByUrl_def url_agent_def with_cookies_def state_getObject_cases Let_def)

lemma sample_accepted: "line < 10 \<Longrightarrow> accepted sample_environment scriptId \<lparr>sb_lineNumber = line, sb_columnNumber = c, sb_condition = d\<rparr>"
  by (simp add: accepted_def sample_environment_def sample_isolate_def)

lemma resolveBreakpoint_defined:
  assumes "d_enabled (a_debugger a)"
  shows "\<exists>location a'. resolveBreakpoint E i scriptId breakpoint source a = Val (location, a') \<and>
    d_enabled (a_debugger a') \<and> a_frontend a' = a_frontend a"
proof -
  obtain r w where "script_setBreakpoint (env_isolate E) scriptId (sb_lineNumber breakpoint) (sb_columnNumber breakpoint)
      (sb_condition breakpoint) False (d_world (a_debugger a)) = (r, w)" by fastforce
  then obtain d where "d_setBreakpoint (env_isolate E) scriptId breakpoint False (a_debugger a) = Val (r, d)" "d_enabled d"
    using assms by (auto simp: d_setBreakpoint_def with_script_def d_enabled_def)
  thus ?thesis using assms
    by (cases r) (auto simp: resolveBreakpoint_def add_server_breakpoint_def split: option.splits)
qed

lemma resolve_cookies_defined:
  assumes "d_enabled (a_debugger a)" "a_frontend a" "\<forall>(i, cookie) \<in> set cookies. defined (cookie_breakpoint cookie)"
  shows "\<exists>a'. resolve_cookies E scriptId scriptURL cookies a = Val a'"
  using assms
proof (induction cookies arbitrary: a)
  case (Cons p cookies)
  obtain i cookie isRegex url breakpoint where p: "p = (i, cookie)" "cookie_breakpoint cookie = Val (isRegex, url, breakpoint)"
    using Cons.prems(3) by (cases p) (auto simp: defined_iff_Val)
  obtain location b where b: "resolveBreakpoint E i scriptId breakpoint UserBreakpointSource a = Val (location, b)"
    "d_enabled (a_debugger b)" "a_frontend b"
    using resolveBreakpoint_defined [OF Cons.prems(1)] Cons.prems(2) by metis
  have "\<exists>d. (case location of None \<Rightarrow> Val b | Some l \<Rightarrow> send (BreakpointResolved i l) b) = Val d \<and> d_enabled (a_debugger d) \<and> a_frontend d"
    using b by (simp add: send_def split: option.split)
  thus ?case using Cons p b(1) by auto
qed simp

lemma url_agent_parses:
  "\<exists>c. didParseSource sample_environment (int_text 1) shown_script False url_agent = Val c"
proof -
  let ?i = "url_breakpoint_id (lit ''a.js'') False 0 0"
  let ?cookies = "setObject ?i (buildObjectForBreakpointCookie (lit ''a.js'') 0 0 [] False) emptyObject"
  have cookies: "getValue (a_state url_agent) key_javaScriptBreakpoints = Some (JSONObject ?cookies)"
    by (simp add: url_agent_def set_cookies_def state_setObject_def)
  have "m_data ?cookies = [(?i, JSONObject (buildObjectForBreakpointCookie (lit ''a.js'') 0 0 [] False))]"
    by (simp add: json_setters setValue_def emptyObject_def hset_def hadd_def Let_def)
  hence "\<forall>(i, cookie) \<in> set (m_data ?cookies). defined (cookie_breakpoint cookie)" by (simp add: breakpoint_cookie_read)
  moreover have "d_enabled (a_debugger url_agent)" "a_frontend url_agent"
    by (simp_all add: url_agent_def set_cookies_def enabled_agent_def new_agent_def d_enabled_def)
  ultimately show ?thesis
    by (auto simp: didParseSource_def send_def with_cookies_def state_getObject_cases(2) [OF cookies] Let_def intro!: resolve_cookies_defined)
qed



text \<open>
  A breakpoint V8 finds no location for is reported as an error, but stays set in V8,
  where nothing of the agent refers to it.
\<close>

lemma refused_breakpoint_stays:
  assumes "breakpoints_law (env_isolate E) active" "hget (m_scripts a) scriptId = Some script"
    and "s_startLine script \<le> sb_lineNumber breakpoint" "sb_lineNumber breakpoint \<le> s_endLine script"
    and "resolveBreakpoint E breakpointId scriptId breakpoint source a = Val (None, a')"
  shows "v8_breakpoints a' = v8_breakpoints a \<and>
    (\<exists>i. i \<notin> active (d_world (a_debugger a)) \<and> active (d_world (a_debugger a')) = insert i (active (d_world (a_debugger a))))"
proof -
  obtain r d where d: "d_setBreakpoint (env_isolate E) scriptId breakpoint False (a_debugger a) = Val (r, d)"
    using assms(2-5) by (auto simp: resolveBreakpoint_def bind_cxx_eq_Val)
  hence "a' = a\<lparr>a_debugger := d\<rparr>"
    using assms(2-5) by (cases r) (auto simp: resolveBreakpoint_def split: if_splits)
  thus ?thesis using d_setBreakpoint_law [OF assms(1) d] by (auto simp: v8_breakpoints_def fun_eq_iff)
qed

end
