(* ===== verification/Debugger_Pausing.thy ===== *)
theory Debugger_Pausing
  imports Debugger_Breakpoints
begin

text \<open>
  Pausing and stepping (core/inspector/InspectorDebuggerAgent.cpp,
  bindings/core/v8/V8Debugger.cpp, bindings/core/v8/WorkerThreadDebugger.cpp): the
  decision to skip a pause, the requests for pauses, the commands of a paused
  debugger, the pause itself with its nested message loop, and the dispatch of
  the events of V8.
\<close>

section \<open>Injected scripts and the world\<close>

definition on_world :: "('w \<Rightarrow> 'b \<times> 'w) \<Rightarrow> 'w debugger_agent \<Rightarrow> 'b \<times> 'w debugger_agent" where
  "on_world f a = (case f (d_world (a_debugger a)) of (r, w) \<Rightarrow> (r, a\<lparr>a_debugger := (a_debugger a)\<lparr>d_world := w\<rparr>\<rparr>))"

definition script_for :: "'w environment \<Rightarrow> nat \<Rightarrow> 'w debugger_agent \<Rightarrow> injected_script \<times> 'w debugger_agent" where
  "script_for E scriptState a =
    (case injectedScriptFor (iso_engine (env_isolate E)) (iso_factory (env_isolate E)) scriptState
            (m_injectedScriptManager a) (d_world (a_debugger a)) of
       (script, m, w) \<Rightarrow> (script, a\<lparr>m_injectedScriptManager := m, a_debugger := (a_debugger a)\<lparr>d_world := w\<rparr>\<rparr>))"

definition backtraceObjectGroup :: wstr where
  "backtraceObjectGroup = lit ''backtrace''"

definition release_backtrace :: "'w environment \<Rightarrow> 'w debugger_agent \<Rightarrow> 'w debugger_agent" where
  "release_backtrace E a =
    (case manager_releaseObjectGroup (iso_engine (env_isolate E)) backtraceObjectGroup (m_injectedScriptManager a) (d_world (a_debugger a)) of
       (m, w) \<Rightarrow> a\<lparr>m_injectedScriptManager := m, a_debugger := (a_debugger a)\<lparr>d_world := w\<rparr>\<rparr>)"

section \<open>Skipping pauses\<close>

datatype SkipPauseRequest = NoSkip | SkipContinue | SkipStepInto | SkipStepOut | SkipStepFrame

definition maxSkipStepFrameCount :: int where
  "maxSkipStepFrameCount = 128"

definition shouldSkipExceptionPause :: "'w environment \<Rightarrow> 'w debugger_agent \<Rightarrow> (SkipPauseRequest \<times> 'w debugger_agent) cxx" where
  "shouldSkipExceptionPause E a =
    (if m_steppingFromFramework a then Val (NoSkip, a)
     else bind_cxx (isTopCallFrameBlackboxed E a) (\<lambda>(blackboxed, a).
       Val (if blackboxed then SkipContinue else NoSkip, a)))"

definition skip_step_frame :: "'w debugger_agent \<Rightarrow> SkipPauseRequest \<times> 'w debugger_agent" where
  "skip_step_frame a =
    (if m_skippedStepFrameCount a \<ge> maxSkipStepFrameCount then (SkipStepOut, a)
     else (SkipStepFrame,
       a\<lparr>m_recursionLevelForStepFrame := (if m_skippedStepFrameCount a = 0 then 1 else m_recursionLevelForStepFrame a),
         m_skippedStepFrameCount := m_skippedStepFrameCount a + 1\<rparr>))"

definition shouldSkipStepPause :: "'w environment \<Rightarrow> 'w debugger_agent \<Rightarrow> (SkipPauseRequest \<times> 'w debugger_agent) cxx" where
  "shouldSkipStepPause E a =
    (if m_steppingFromFramework a then Val (NoSkip, a)
     else if m_skipNextDebuggerStepOut a \<and> m_scheduledDebuggerStep a = StepOut
     then Val (SkipStepOut, a\<lparr>m_skipNextDebuggerStepOut := False\<rparr>)
     else bind_cxx (isTopCallFrameBlackboxed E (a\<lparr>m_skipNextDebuggerStepOut := False\<rparr>)) (\<lambda>(blackboxed, a).
       Val (if \<not> blackboxed then (NoSkip, a) else skip_step_frame a)))"

section \<open>Requests for a pause\<close>

definition schedulePauseOnNextStatement :: "'w environment \<Rightarrow> Reason \<Rightarrow> json_object option \<Rightarrow> 'w debugger_agent \<Rightarrow> 'w debugger_agent" where
  "schedulePauseOnNextStatement E breakReason data a =
    (if m_scheduledDebuggerStep a = StepInto \<or> m_javaScriptPauseScheduled a \<or> a_isPaused a then a
     else pause_on_next (env_isolate E) True
       (a\<lparr>m_breakReason := breakReason, m_breakAuxData := data, m_pausingOnNativeEvent := True, m_skipNextDebuggerStepOut := False\<rparr>))"

definition schedulePauseOnNextStatementIfSteppingInto :: "'w environment \<Rightarrow> 'w debugger_agent \<Rightarrow> 'w debugger_agent" where
  "schedulePauseOnNextStatementIfSteppingInto E a =
    (if m_scheduledDebuggerStep a \<noteq> StepInto \<or> m_javaScriptPauseScheduled a \<or> a_isPaused a then a
     else pause_on_next (env_isolate E) True
       ((clearBreakDetails a)\<lparr>m_pausingOnNativeEvent := False, m_skippedStepFrameCount := 0, m_recursionLevelForStepFrame := 0\<rparr>))"

definition cancelPauseOnNextStatement :: "'w environment \<Rightarrow> 'w debugger_agent \<Rightarrow> 'w debugger_agent" where
  "cancelPauseOnNextStatement E a =
    (if m_javaScriptPauseScheduled a \<or> a_isPaused a then a
     else pause_on_next (env_isolate E) False ((clearBreakDetails a)\<lparr>m_pausingOnNativeEvent := False\<rparr>))"

definition pause :: "'w environment \<Rightarrow> 'w debugger_agent \<Rightarrow> wstr option \<times> 'w debugger_agent" where
  "pause E a =
    (case checkEnabled a of
       Some error \<Rightarrow> (Some error, a)
     | None \<Rightarrow>
         (None,
          if m_javaScriptPauseScheduled a \<or> a_isPaused a then a
          else pause_on_next (env_isolate E) True
            ((clearStepIntoAsync (clearBreakDetails a))
               \<lparr>m_javaScriptPauseScheduled := True, m_scheduledDebuggerStep := NoStep, m_skippedStepFrameCount := 0,
                m_steppingFromFramework := False\<rparr>)))"

text \<open>Crossing the border between JavaScript and the embedder.\<close>

definition keep_pause_request :: "'w environment \<Rightarrow> 'w debugger_agent \<Rightarrow> 'w debugger_agent" where
  "keep_pause_request E a =
    (if m_javaScriptPauseScheduled a \<and> \<not> m_skipAllPauses a \<and> \<not> a_isPaused a then pause_on_next (env_isolate E) True a else a)"

definition change_step_out_level :: "int \<Rightarrow> 'w debugger_agent \<Rightarrow> 'w debugger_agent" where
  "change_step_out_level step a =
    (if m_scheduledDebuggerStep a = StepOut then
       (if m_recursionLevelForStepOut a + step = 0
        then a\<lparr>m_recursionLevelForStepOut := 0, m_scheduledDebuggerStep := StepInto, m_skipNextDebuggerStepOut := False\<rparr>
        else a\<lparr>m_recursionLevelForStepOut := m_recursionLevelForStepOut a + step\<rparr>)
     else a)"

definition change_step_frame_level :: "'w environment \<Rightarrow> int \<Rightarrow> 'w debugger_agent \<Rightarrow> 'w debugger_agent cxx" where
  "change_step_frame_level E step a =
    (if m_recursionLevelForStepFrame a = 0 then Val a
     else if m_recursionLevelForStepFrame a + step \<noteq> 0
     then Val (a\<lparr>m_recursionLevelForStepFrame := m_recursionLevelForStepFrame a + step\<rparr>)
     else
       (let a = a\<lparr>m_recursionLevelForStepFrame := 0, m_skippedStepFrameCount := 0\<rparr>
        in if m_scheduledDebuggerStep a = NoStep then on_debugger (d_clearStepping (env_isolate E)) a
           else if m_scheduledDebuggerStep a = StepOut then Val (a\<lparr>m_skipNextDebuggerStepOut := True\<rparr>)
           else Val a))"

definition changeJavaScriptRecursionLevel :: "'w environment \<Rightarrow> int \<Rightarrow> 'w debugger_agent \<Rightarrow> 'w debugger_agent cxx" where
  "changeJavaScriptRecursionLevel E step a = change_step_frame_level E step (change_step_out_level step (keep_pause_request E a))"

definition willCallFunction :: "'w environment \<Rightarrow> int \<Rightarrow> 'w debugger_agent \<Rightarrow> 'w debugger_agent cxx" where
  "willCallFunction E scriptId a =
    bind_cxx (changeJavaScriptRecursionLevel E 1 a) (\<lambda>a.
      Val (if m_scheduledDebuggerStep a \<noteq> StepInto then a
           else if \<not> hcontains (m_scripts a) (int_text scriptId) then a
           else schedulePauseOnNextStatementIfSteppingInto E a))"

definition didCallFunction :: "'w environment \<Rightarrow> 'w debugger_agent \<Rightarrow> 'w debugger_agent cxx" where
  "didCallFunction E a = changeJavaScriptRecursionLevel E (- 1) a"

definition willEvaluateScript :: "'w environment \<Rightarrow> 'w debugger_agent \<Rightarrow> 'w debugger_agent cxx" where
  "willEvaluateScript E a =
    bind_cxx (changeJavaScriptRecursionLevel E 1 a) (\<lambda>a. Val (schedulePauseOnNextStatementIfSteppingInto E a))"

definition didEvaluateScript :: "'w environment \<Rightarrow> 'w debugger_agent \<Rightarrow> 'w debugger_agent cxx" where
  "didEvaluateScript E a = changeJavaScriptRecursionLevel E (- 1) a"

definition didFireTimer :: "'w environment \<Rightarrow> 'w debugger_agent \<Rightarrow> 'w debugger_agent" where
  "didFireTimer E a = cancelPauseOnNextStatement E a"

definition didHandleEvent :: "'w environment \<Rightarrow> 'w debugger_agent \<Rightarrow> 'w debugger_agent" where
  "didHandleEvent E a = cancelPauseOnNextStatement E a"

section \<open>Commands of a paused debugger\<close>

definition assertPaused :: "'w debugger_agent \<Rightarrow> wstr option" where
  "assertPaused a = (if a_pausedScriptState a = None then Some (lit ''Can only perform operation while paused.'') else None)"

type_synonym 'w command = "'w debugger_agent \<Rightarrow> (wstr option \<times> 'w debugger_agent) cxx"

definition resume :: "'w environment \<Rightarrow> 'w command" where
  "resume E a =
    (case assertPaused a of
       Some error \<Rightarrow> Val (Some error, a)
     | None \<Rightarrow>
         bind_cxx (on_debugger (\<lambda>d. Val (d_continueProgram d))
           (release_backtrace E (a\<lparr>m_scheduledDebuggerStep := NoStep, m_steppingFromFramework := False\<rparr>))) (\<lambda>a.
           Val (None, a)))"

text \<open>What the three stepping commands share: where the step starts decides whether frameworks are skipped.\<close>

definition step_from :: "'w environment \<Rightarrow> ('w v8_debugger \<Rightarrow> 'w v8_debugger cxx) \<Rightarrow> 'w command" where
  "step_from E step a =
    bind_cxx (isTopCallFrameBlackboxed E a) (\<lambda>(blackboxed, a).
    bind_cxx (on_debugger step (release_backtrace E (a\<lparr>m_steppingFromFramework := blackboxed\<rparr>))) (\<lambda>a.
      Val (None, a)))"

definition stepInto :: "'w environment \<Rightarrow> 'w command" where
  "stepInto E a =
    (case assertPaused a of
       Some error \<Rightarrow> Val (Some error, a)
     | None \<Rightarrow> step_from E (d_stepIntoStatement (env_isolate E)) (a\<lparr>m_scheduledDebuggerStep := StepInto\<rparr>))"

definition stepOver :: "'w environment \<Rightarrow> 'w command" where
  "stepOver E a =
    (case assertPaused a of
       Some error \<Rightarrow> Val (Some error, a)
     | None \<Rightarrow>
         bind_cxx (callFrameNoScopes (env_isolate E) 0 (a_debugger a)) (\<lambda>frame.
           if (case frame of None \<Rightarrow> False | Some f \<Rightarrow> frame_isAtReturn f) then stepInto E a
           else step_from E (d_stepOverStatement (env_isolate E)) (a\<lparr>m_scheduledDebuggerStep := StepOver\<rparr>)))"

definition stepOut :: "'w environment \<Rightarrow> 'w command" where
  "stepOut E a =
    (case assertPaused a of
       Some error \<Rightarrow> Val (Some error, a)
     | None \<Rightarrow> step_from E (d_stepOutOfFunction (env_isolate E))
         (a\<lparr>m_scheduledDebuggerStep := StepOut, m_skipNextDebuggerStepOut := False, m_recursionLevelForStepOut := 1\<rparr>))"

definition stepIntoAsync :: "'w environment \<Rightarrow> 'w command" where
  "stepIntoAsync E a =
    (case assertPaused a of
       Some error \<Rightarrow> Val (Some error, a)
     | None \<Rightarrow>
         (if \<not> trackingAsyncCalls a then Val (Some (lit ''Can only perform operation if async call stacks are enabled.''), a)
          else stepInto E ((clearStepIntoAsync a)\<lparr>m_startingStepIntoAsync := True\<rparr>)))"

definition remove_location_breakpoint :: "'w environment \<Rightarrow> 'w debugger_agent \<Rightarrow> 'w debugger_agent cxx" where
  "remove_location_breakpoint E a =
    (if m_continueToLocationBreakpointId a = [] then Val a
     else bind_cxx (on_debugger (d_removeBreakpoint (env_isolate E) (m_continueToLocationBreakpointId a)) a) (\<lambda>a.
       Val (a\<lparr>m_continueToLocationBreakpointId := []\<rparr>)))"

text \<open>A breakpoint that V8 refuses has the null string as its id, which is empty as well.\<close>

definition continueToLocation :: "'w environment \<Rightarrow> json_object \<Rightarrow> bool option \<Rightarrow> 'w command" where
  "continueToLocation E location interstateLocation a =
    (case checkEnabled a of
       Some error \<Rightarrow> Val (Some error, a)
     | None \<Rightarrow> bind_cxx (remove_location_breakpoint E a) (\<lambda>a.
         (case parseLocation location of
            Inl error \<Rightarrow> Val (Some error, a)
          | Inr (scriptId, lineNumber, columnNumber) \<Rightarrow>
              bind_cxx (d_setBreakpoint (env_isolate E) scriptId
                \<lparr>sb_lineNumber = lineNumber, sb_columnNumber = columnNumber, sb_condition = []\<rparr> (interstateLocation = Some True)
                (a_debugger a)) (\<lambda>(r, d).
                resume E (a\<lparr>a_debugger := d,
                  m_continueToLocationBreakpointId := (case r of None \<Rightarrow> [] | Some (i, _, _) \<Rightarrow> i)\<rparr>)))))"

section \<open>Stacks for the front end\<close>

definition currentCallFrames :: "'w environment \<Rightarrow> 'w debugger_agent \<Rightarrow> json list \<times> 'w debugger_agent" where
  "currentCallFrames E a =
    (case (a_pausedScriptState a, m_currentCallStack a) of
       (Some scriptState, Some (_, callFrames)) \<Rightarrow>
         (case script_for E scriptState a of (script, a) \<Rightarrow>
            if is_empty script then ([], a) else on_world (wrapCallFrames (iso_engine (env_isolate E)) callFrames 0) a)
     | _ \<Rightarrow> ([], a))"

text \<open>The stacks of the chain from the outermost inwards; one that cannot be shown hides those outside of it.\<close>

fun stack_trace_loop ::
  "'w environment \<Rightarrow> AsyncCallStack list \<Rightarrow> int \<Rightarrow> json_object option \<Rightarrow> 'w debugger_agent \<Rightarrow> json_object option \<times> 'w debugger_agent" where
  "stack_trace_loop E [] asyncOrdinal result a = (result, a)"
| "stack_trace_loop E (callStack # callStacks) asyncOrdinal result a =
    (case acs_callFrames callStack of
       None \<Rightarrow> stack_trace_loop E callStacks (asyncOrdinal - 1) None a
     | Some (scriptState, callFrames) \<Rightarrow>
         (case script_for E scriptState a of (script, a) \<Rightarrow>
            if is_empty script then stack_trace_loop E callStacks (asyncOrdinal - 1) None a
            else
              (case on_world (wrapCallFrames (iso_engine (env_isolate E)) callFrames asyncOrdinal) a of (frames, a) \<Rightarrow>
                 let next = setString (lit ''description'') (acs_description callStack) (setArray (lit ''callFrames'') frames emptyObject)
                 in stack_trace_loop E callStacks (asyncOrdinal - 1)
                      (Some (case result of None \<Rightarrow> next | Some inner \<Rightarrow> setObject (lit ''asyncStackTrace'') inner next)) a)))"

definition currentAsyncStackTrace :: "'w environment \<Rightarrow> 'w debugger_agent \<Rightarrow> json_object option \<times> 'w debugger_agent" where
  "currentAsyncStackTrace E a =
    (if a_pausedScriptState a = None \<or> \<not> trackingAsyncCalls a then (None, a)
     else case m_currentAsyncCallChain a of
       None \<Rightarrow> (None, a)
     | Some callStacks \<Rightarrow> stack_trace_loop E (rev callStacks) (int (length callStacks)) None a)"

fun console_stack_loop ::
  "'w isolate \<Rightarrow> 'w v8_debugger \<Rightarrow> AsyncCallStack list \<Rightarrow> ScriptAsyncCallStack option \<Rightarrow> ScriptAsyncCallStack option" where
  "console_stack_loop V d [] result = result"
| "console_stack_loop V d (callStack # callStacks) result =
    (case toScriptCallStack V d (acs_callFrames callStack) of
       None \<Rightarrow> result
     | Some stack \<Rightarrow> console_stack_loop V d callStacks (Some (ScriptAsyncCallStack (acs_description callStack) stack result)))"

definition currentAsyncStackTraceForConsole :: "'w environment \<Rightarrow> 'w debugger_agent \<Rightarrow> ScriptAsyncCallStack option" where
  "currentAsyncStackTraceForConsole E a =
    (if \<not> trackingAsyncCalls a then None
     else case m_currentAsyncCallChain a of
       None \<Rightarrow> None
     | Some callStacks \<Rightarrow> console_stack_loop (env_isolate E) (a_debugger a) (rev callStacks) None)"

section \<open>The pause\<close>

definition pause_decision ::
  "'w environment \<Rightarrow> v8_value option \<Rightarrow> wstr list \<Rightarrow> 'w debugger_agent \<Rightarrow> (SkipPauseRequest \<times> 'w debugger_agent) cxx" where
  "pause_decision E exception hitBreakpoints a =
    (if m_skipAllPauses a then Val (SkipContinue, a)
     else if hitBreakpoints \<noteq> [] then Val (NoSkip, a)
     else if exception \<noteq> None then shouldSkipExceptionPause E a
     else if m_scheduledDebuggerStep a \<noteq> NoStep \<or> m_javaScriptPauseScheduled a \<or> m_pausingOnNativeEvent a
     then shouldSkipStepPause E a
     else Val (NoSkip, a))"

text \<open>An exception that cannot be wrapped leaves no details.\<close>

definition pause_reason ::
  "'w environment \<Rightarrow> nat \<Rightarrow> v8_value option \<Rightarrow> bool \<Rightarrow> 'w debugger_agent \<Rightarrow> 'w debugger_agent cxx" where
  "pause_reason E scriptState exception isPromiseRejection a =
    (case exception of
       Some value \<Rightarrow>
         (case script_for E scriptState a of (script, a) \<Rightarrow>
            if is_empty script then Val a
            else case on_world (wrapObject (iso_engine (env_isolate E)) value backtraceObjectGroup False) a of
              (data, a) \<Rightarrow> bind_cxx data (\<lambda>data.
                Val (a\<lparr>m_breakReason := (if isPromiseRejection then ReasonPromiseRejection else ReasonException), m_breakAuxData := data\<rparr>)))
     | None \<Rightarrow>
         Val (if m_pausingOnAsyncOperation a
              then a\<lparr>m_breakReason := ReasonAsyncOperation,
                     m_breakAuxData := Some (setValue (lit ''operationId'') (number_json (m_currentAsyncOperationId a)) emptyObject)\<rparr>
              else a))"

definition hitBreakpointIds :: "'w debugger_agent \<Rightarrow> wstr list \<Rightarrow> wstr list" where
  "hitBreakpointIds a hitBreakpoints = List.map_filter (\<lambda>point. map_option fst (hget (m_serverBreakpoints a) point)) hitBreakpoints"

definition debug_command_hit :: "wstr list \<Rightarrow> 'w debugger_agent \<Rightarrow> 'w debugger_agent" where
  "debug_command_hit hitBreakpoints a =
    (if m_breakReason a = ReasonOther \<and>
        list_ex (\<lambda>point. map_option snd (hget (m_serverBreakpoints a) point) = Some DebugCommandBreakpointSource) hitBreakpoints
     then a\<lparr>m_breakReason := ReasonDebugCommand\<rparr> else a)"

definition report_pause :: "'w environment \<Rightarrow> wstr list \<Rightarrow> 'w debugger_agent \<Rightarrow> 'w debugger_agent cxx" where
  "report_pause E hitBreakpoints a =
    bind_cxx (if m_asyncOperationNotifications a \<noteq> [] then flushAsyncOperationEvents (env_isolate E) a else Val a) (\<lambda>a.
      (case currentCallFrames E a of (frames, a) \<Rightarrow>
       case currentAsyncStackTrace E a of (asyncStackTrace, a) \<Rightarrow>
         send (Paused frames (m_breakReason a) (m_breakAuxData a) (hitBreakpointIds a hitBreakpoints) asyncStackTrace) a))"

definition end_stepping :: "'w debugger_agent \<Rightarrow> 'w debugger_agent" where
  "end_stepping a =
    clearStepIntoAsync (a\<lparr>m_scheduledDebuggerStep := NoStep, m_javaScriptPauseScheduled := False, m_steppingFromFramework := False,
      m_pausingOnNativeEvent := False, m_skippedStepFrameCount := 0, m_recursionLevelForStepFrame := 0\<rparr>)"

definition enter_pause ::
  "'w environment \<Rightarrow> nat \<Rightarrow> script_value \<Rightarrow> v8_value option \<Rightarrow> wstr list \<Rightarrow> bool \<Rightarrow> 'w debugger_agent \<Rightarrow> 'w debugger_agent cxx" where
  "enter_pause E scriptState callFrames exception hitBreakpoints isPromiseRejection a =
    bind_cxx (pause_reason E scriptState exception isPromiseRejection
      (a\<lparr>a_pausedScriptState := Some scriptState, m_currentCallStack := callFrames\<rparr>)) (\<lambda>a.
    bind_cxx (report_pause E hitBreakpoints (debug_command_hit hitBreakpoints a)) (\<lambda>a.
      remove_location_breakpoint E (end_stepping a)))"

definition didPause ::
  "'w environment \<Rightarrow> nat \<Rightarrow> script_value \<Rightarrow> v8_value option \<Rightarrow> wstr list \<Rightarrow> bool \<Rightarrow> 'w debugger_agent \<Rightarrow> (SkipPauseRequest \<times> 'w debugger_agent) cxx" where
  "didPause E scriptState callFrames exception hitBreakpoints isPromiseRejection a =
    bind_cxx (pause_decision E exception hitBreakpoints a) (\<lambda>(result, a).
      let a = a\<lparr>m_skipNextDebuggerStepOut := False\<rparr>
      in if result \<noteq> NoSkip then Val (result, a)
         else if callFrames = None then Val (SkipContinue, a)
         else bind_cxx (enter_pause E scriptState callFrames exception hitBreakpoints isPromiseRejection a) (\<lambda>a. Val (NoSkip, a)))"

definition didContinue :: "'w debugger_agent \<Rightarrow> 'w debugger_agent cxx" where
  "didContinue a = send Resumed (clearBreakDetails (a\<lparr>a_pausedScriptState := None, m_currentCallStack := None\<rparr>))"

section \<open>The nested message loop\<close>

text \<open>
  While the program is paused, tasks of the message loop are run one after the other
  until one of them quits the loop; the tasks behind it are left to the outer
  loop.  \<open>None\<close>: all tasks have run and the loop waits for more.
\<close>

type_synonym 'w task = "'w debugger_agent \<Rightarrow> 'w debugger_agent cxx"
type_synonym 'w pause_result = "('w debugger_agent \<times> 'w task list) option cxx"

fun nested_loop :: "'w task list \<Rightarrow> 'w debugger_agent \<Rightarrow> 'w pause_result" where
  "nested_loop [] a = Val None"
| "nested_loop (task # tasks) a =
    bind_cxx (task a) (\<lambda>a. if d_quitMessageLoop (a_debugger a) then Val (Some (a, tasks)) else nested_loop tasks a)"

definition runMessageLoopOnPause :: "'w task list \<Rightarrow> 'w debugger_agent \<Rightarrow> 'w pause_result" where
  "runMessageLoopOnPause tasks a =
    bind_cxx (nested_loop tasks (a\<lparr>a_debugger := (a_debugger a)\<lparr>d_quitMessageLoop := False\<rparr>\<rparr>)) (\<lambda>r.
      (case r of
         None \<Rightarrow> Val None
       | Some (a, rest) \<Rightarrow>
           (if a_listening a then bind_cxx (didContinue a) (\<lambda>a. Val (Some (a, rest))) else Val (Some (a, rest)))))"

definition set_paused_state :: "(nat \<times> nat option) option \<Rightarrow> 'w debugger_agent \<Rightarrow> 'w debugger_agent" where
  "set_paused_state state a =
    a\<lparr>a_debugger := (a_debugger a)
      \<lparr>d_pausedScriptState := map_option fst state, m_executionState := Option.bind state snd\<rparr>\<rparr>"

definition set_nested :: "bool \<Rightarrow> 'w debugger_agent \<Rightarrow> 'w debugger_agent" where
  "set_nested b a = a\<lparr>a_debugger := (a_debugger a)\<lparr>m_runningNestedMessageLoop := b\<rparr>\<rparr>"

definition step_after_pause :: "'w environment \<Rightarrow> SkipPauseRequest \<Rightarrow> nat option \<Rightarrow> 'w debugger_agent \<Rightarrow> 'w debugger_agent cxx" where
  "step_after_pause E result executionState a =
    (let step = (\<lambda>action. on_debugger (\<lambda>d. d_step (env_isolate E) action (d\<lparr>m_executionState := executionState\<rparr>)) a)
     in bind_cxx (case result of
          SkipStepFrame \<Rightarrow> step StepFrameAction
        | SkipStepInto \<Rightarrow> step StepInAction
        | SkipStepOut \<Rightarrow> step StepOutAction
        | _ \<Rightarrow> Val a) (\<lambda>a. Val (set_paused_state None a)))"

definition handleProgramBreak ::
  "'w environment \<Rightarrow> 'w task list \<Rightarrow> nat \<Rightarrow> nat option \<Rightarrow> v8_value option \<Rightarrow> nat list \<Rightarrow> bool \<Rightarrow> 'w debugger_agent
   \<Rightarrow> 'w pause_result" where
  "handleProgramBreak E tasks pausedScriptState executionState exception hitBreakpointNumbers isPromiseRejection a =
    (if m_runningNestedMessageLoop (a_debugger a) then Val (Some (a, tasks))
     else if \<not> a_listening a then Val (Some (a, tasks))
     else
       bind_cxx (d_currentCallFrames (env_isolate E) (a_debugger (set_paused_state (Some (pausedScriptState, executionState)) a))) (\<lambda>(callFrames, d).
       bind_cxx (didPause E pausedScriptState callFrames exception (map numberToStringImpl_digits hitBreakpointNumbers) isPromiseRejection
         (a\<lparr>a_debugger := d\<rparr>)) (\<lambda>(result, a).
         if result = NoSkip
         then bind_cxx (runMessageLoopOnPause tasks (set_nested True a)) (\<lambda>r.
           Val (map_option (\<lambda>(a, rest). (set_paused_state None (set_nested False a), rest)) r))
         else bind_cxx (step_after_pause E result executionState (set_paused_state None a)) (\<lambda>a. Val (Some (a, tasks))))))"

definition d_breakProgram ::
  "'w environment \<Rightarrow> 'w task list \<Rightarrow> nat \<Rightarrow> 'w debugger_agent \<Rightarrow> 'w pause_result" where
  "d_breakProgram E tasks executionState a =
    (case d_pausedScriptState (a_debugger a) of
       Some scriptState \<Rightarrow> handleProgramBreak E tasks scriptState (m_executionState (a_debugger a)) None [] False a
     | None \<Rightarrow>
         (if \<not> d_canBreakProgram (env_isolate E) (a_debugger a) then Val (Some (a, tasks))
          else handleProgramBreak E tasks (iso_currentScriptState (env_isolate E) (d_world (a_debugger a))) (Some executionState) None [] False a))"

definition breakProgram ::
  "'w environment \<Rightarrow> 'w task list \<Rightarrow> nat \<Rightarrow> Reason \<Rightarrow> json_object option \<Rightarrow> 'w debugger_agent \<Rightarrow> 'w pause_result" where
  "breakProgram E tasks executionState breakReason data a =
    (if m_skipAllPauses a \<or> a_pausedScriptState a \<noteq> None then Val (Some (a, tasks))
     else bind_cxx (isCallStackEmptyOrBlackboxed E a) (\<lambda>(blackboxed, a).
       if blackboxed then Val (Some (a, tasks))
       else d_breakProgram E tasks executionState
         (clearStepIntoAsync (a\<lparr>m_breakReason := breakReason, m_breakAuxData := data, m_scheduledDebuggerStep := NoStep,
            m_steppingFromFramework := False, m_pausingOnNativeEvent := False\<rparr>))))"

definition scriptExecutionBlockedByCSP ::
  "'w environment \<Rightarrow> 'w task list \<Rightarrow> nat \<Rightarrow> wstr \<Rightarrow> 'w debugger_agent \<Rightarrow> 'w pause_result" where
  "scriptExecutionBlockedByCSP E tasks executionState directiveText a =
    bind_cxx (d_pauseOnExceptionsState (a_debugger a)) (\<lambda>mode.
      if mode \<noteq> DontPauseOnExceptions
      then breakProgram E tasks executionState ReasonCSPViolation (Some (setString (lit ''directiveText'') directiveText emptyObject)) a
      else Val (Some (a, tasks)))"

section \<open>Events of V8\<close>

definition promise_events_sent :: "promise_events \<Rightarrow> 'w debugger_agent \<Rightarrow> 'w debugger_agent" where
  "promise_events_sent evs a =
    (if a_frontend a then a\<lparr>a_events := a_events a @ map (\<lambda>(e, details). PromiseUpdated e details) evs\<rparr> else a)"

text \<open>An event about a promise carries what the tracker reads when it gets it: the time and the stack.\<close>

datatype v8_event =
    AfterCompile formatted_script
  | CompileError formatted_script
  | ExceptionEvent nat nat v8_value bool
  | BreakEvent nat nat "(nat option \<times> nat) list option"
  | AsyncTaskEvent nat nat wstr wstr int
  | PromiseEvent nat nat nat "nat option" int double "ScriptCallStack option"
  | OtherEvent

definition agent_promise_event ::
  "nat \<Rightarrow> nat option \<Rightarrow> int \<Rightarrow> double \<Rightarrow> ScriptCallStack option \<Rightarrow> 'w debugger_agent \<Rightarrow> 'w debugger_agent" where
  "agent_promise_event promise parentPromise status now stack a =
    (if m_isEnabled (m_promiseTracker a)
     then (case didReceiveV8PromiseEvent promise parentPromise status now stack (m_promiseTracker a) of
             (evs, t) \<Rightarrow> promise_events_sent evs (a\<lparr>m_promiseTracker := t\<rparr>))
     else a)"

definition handleV8AsyncTaskEvent ::
  "'w environment \<Rightarrow> nat \<Rightarrow> nat \<Rightarrow> wstr \<Rightarrow> wstr \<Rightarrow> int \<Rightarrow> 'w debugger_agent \<Rightarrow> 'w debugger_agent cxx" where
  "handleV8AsyncTaskEvent E pausedScriptState executionState eventType name i a =
    bind_cxx (didReceiveV8AsyncTaskEvent (env_isolate E) pausedScriptState eventType name i
      (set_paused_state (Some (pausedScriptState, Some executionState)) a)) (\<lambda>a.
      Val (set_paused_state None a))"

definition handleV8PromiseEvent ::
  "nat \<Rightarrow> nat \<Rightarrow> nat \<Rightarrow> nat option \<Rightarrow> int \<Rightarrow> double \<Rightarrow> ScriptCallStack option \<Rightarrow> 'w debugger_agent \<Rightarrow> 'w debugger_agent" where
  "handleV8PromiseEvent pausedScriptState executionState promise parentPromise status now stack a =
    set_paused_state None (agent_promise_event promise parentPromise status now stack
      (set_paused_state (Some (pausedScriptState, Some executionState)) a))"

definition handleV8DebugEvent :: "'w environment \<Rightarrow> 'w task list \<Rightarrow> v8_event \<Rightarrow> 'w debugger_agent \<Rightarrow> 'w pause_result" where
  "handleV8DebugEvent E tasks event a =
    (if \<not> d_enabled (a_debugger a) \<or> \<not> a_listening a then Val (Some (a, tasks))
     else let done = (\<lambda>r. bind_cxx r (\<lambda>a. Val (Some (a, tasks))))
     in case event of
       AfterCompile object \<Rightarrow> done (dispatchDidParseSource E object False a)
     | CompileError object \<Rightarrow> done (dispatchDidParseSource E object True a)
     | ExceptionEvent scriptState executionState exception isPromiseRejection \<Rightarrow>
         handleProgramBreak E tasks scriptState (Some executionState) (Some exception) [] isPromiseRejection a
     | BreakEvent scriptState executionState breakPointsHit \<Rightarrow>
         handleProgramBreak E tasks scriptState (Some executionState) None (getBreakpointNumbers breakPointsHit) False a
     | AsyncTaskEvent scriptState executionState eventType name i \<Rightarrow>
         (if trackingAsyncCalls a then done (handleV8AsyncTaskEvent E scriptState executionState eventType name i a) else Val (Some (a, tasks)))
     | PromiseEvent scriptState executionState promise parentPromise status now stack \<Rightarrow>
         (if m_isEnabled (m_promiseTracker a)
          then done (Val (handleV8PromiseEvent scriptState executionState promise parentPromise status now stack a)) else Val (Some (a, tasks)))
     | OtherEvent \<Rightarrow> Val (Some (a, tasks)))"

section \<open>What the helpers leave alone\<close>

definition same_pause :: "'w debugger_agent \<Rightarrow> 'w debugger_agent \<Rightarrow> bool" where
  "same_pause a b \<longleftrightarrow>
    d_pausedScriptState (a_debugger b) = d_pausedScriptState (a_debugger a) \<and>
    m_executionState (a_debugger b) = m_executionState (a_debugger a) \<and>
    m_debuggerScript (a_debugger b) = m_debuggerScript (a_debugger a) \<and>
    m_runningNestedMessageLoop (a_debugger b) = m_runningNestedMessageLoop (a_debugger a) \<and>
    d_quitMessageLoop (a_debugger b) = d_quitMessageLoop (a_debugger a) \<and>
    a_listening b = a_listening a \<and> a_frontend b = a_frontend a"

definition same_stop :: "'w debugger_agent \<Rightarrow> 'w debugger_agent \<Rightarrow> bool" where
  "same_stop a b \<longleftrightarrow> same_pause a b \<and> a_pausedScriptState b = a_pausedScriptState a"

lemma same_stop_refl [simp]: "same_stop a a"
  by (simp add: same_stop_def same_pause_def)

lemma same_stop_trans: "same_stop a b \<Longrightarrow> same_stop b c \<Longrightarrow> same_stop a c"
  by (simp add: same_stop_def same_pause_def)

lemma on_world_stop: "same_stop a (snd (on_world f a))"
  by (simp add: on_world_def same_stop_def same_pause_def split: prod.split)

lemma script_for_stop: "same_stop a (snd (script_for E s a))"
  by (simp add: script_for_def same_stop_def same_pause_def split: prod.split)

lemma release_backtrace_stop: "same_stop a (release_backtrace E a)"
  by (simp add: release_backtrace_def same_stop_def same_pause_def split: prod.split)

lemma blackbox_only_scripts: "\<exists>scripts. snd (isCallFrameWithUnknownScriptOrBlackboxed E f a) = a\<lparr>m_scripts := scripts\<rparr>"
proof -
  have "\<exists>scripts. a = a\<lparr>m_scripts := scripts\<rparr>" by (rule exI [of _ "m_scripts a"]) simp
  thus ?thesis by (auto simp: isCallFrameWithUnknownScriptOrBlackboxed_def blackbox_script_def Let_def split: option.splits)
qed

lemma isTop_only_scripts:
  assumes "isTopCallFrameBlackboxed E a = Val (b, a')"
  obtains scripts where "a' = a\<lparr>m_scripts := scripts\<rparr>"
  using assms blackbox_only_scripts [of E _ a]
  by (auto simp: isTopCallFrameBlackboxed_def bind_cxx_eq_Val) (metis snd_conv)

lemma send_stop: "send e a = Val b \<Longrightarrow> same_stop a b"
  by (auto simp: send_def same_stop_def same_pause_def split: if_splits)

lemma flush_notifications_stop: "flush_notifications V ns a = Val b \<Longrightarrow> same_stop a b"
proof (induction V ns a rule: flush_notifications.induct)
  case (2 V operationId rest a)
  then obtain callStacks c where c: "Option.bind (hget (m_asyncOperations a) operationId) id = Some callStacks"
    "(case async_operation operationId (readable_stacks V (a_debugger a) callStacks) of
        None \<Rightarrow> Val a | Some operation \<Rightarrow> send (AsyncOperationStarted operation) a) = Val c"
    "flush_notifications V rest c = Val b"
    by (auto simp: bind_cxx_eq_Val split: option.splits)
  have "same_stop a c" using c(2) by (auto intro: send_stop split: option.splits)
  thus ?case using 2(1) [OF c(1) c(2) c(3)] same_stop_trans by blast
qed simp

lemma flush_stop: "flushAsyncOperationEvents V a = Val b \<Longrightarrow> same_stop a b"
  by (auto simp: flushAsyncOperationEvents_def bind_cxx_eq_Val split: if_splits dest!: flush_notifications_stop)
    (simp add: same_stop_def same_pause_def)

lemma script_for_world_stop: "script_for E s a = (script, b) \<Longrightarrow> on_world f b = (r, c) \<Longrightarrow> same_stop a b \<and> same_stop a c"
  using script_for_stop [of a E s] on_world_stop [of b f] same_stop_trans [of a b c] by simp

lemma currentCallFrames_stop: "same_stop a (snd (currentCallFrames E a))"
proof (cases "a_pausedScriptState a = None \<or> m_currentCallStack a = None")
  case False
  then obtain s t v where s: "a_pausedScriptState a = Some s" "m_currentCallStack a = Some (t, v)" by auto
  obtain script b where b: "script_for E s a = (script, b)" by fastforce
  obtain r c where c: "on_world (wrapCallFrames (iso_engine (env_isolate E)) v 0) b = (r, c)" by fastforce
  show ?thesis using script_for_world_stop [OF b c] s b c by (simp add: currentCallFrames_def)
qed (auto simp: currentCallFrames_def split: option.splits)

lemma stack_trace_loop_stop: "same_stop a (snd (stack_trace_loop E stacks n result a))"
proof (induction stacks arbitrary: n result a)
  case (Cons callStack callStacks)
  show ?case
  proof (cases "acs_callFrames callStack")
    case (Some p)
    obtain s v where p: "p = (s, v)" by (cases p)
    obtain script b where b: "script_for E s a = (script, b)" by fastforce
    obtain r c where c: "on_world (wrapCallFrames (iso_engine (env_isolate E)) v n) b = (r, c)" by fastforce
    note stop = script_for_world_stop [OF b c]
    have "same_stop a (snd (stack_trace_loop E callStacks (n - 1) result' b))"
      "same_stop a (snd (stack_trace_loop E callStacks (n - 1) result' c))" for result'
      using stop Cons.IH same_stop_trans by blast+
    thus ?thesis using Some p b c by (simp add: Let_def)
  qed (simp add: Cons.IH)
qed simp

lemma currentAsyncStackTrace_stop: "same_stop a (snd (currentAsyncStackTrace E a))"
  by (simp add: currentAsyncStackTrace_def stack_trace_loop_stop split: option.split)

lemma scripts_stop [simp]: "same_stop a (b\<lparr>m_scripts := scripts\<rparr>) = same_stop a b"
  by (simp add: same_stop_def same_pause_def)

lemma isTop_stop: "isTopCallFrameBlackboxed E a = Val (b, a') \<Longrightarrow> same_stop a a'"
  by (erule isTop_only_scripts) simp

lemma skip_step_frame_stop: "same_stop a (snd (skip_step_frame a))"
  by (simp add: skip_step_frame_def same_stop_def same_pause_def)

lemma skipNext_stop [simp]: "same_stop (a\<lparr>m_skipNextDebuggerStepOut := b\<rparr>) c = same_stop a c"
  "same_stop c (a\<lparr>m_skipNextDebuggerStepOut := b\<rparr>) = same_stop c a"
  by (simp_all add: same_stop_def same_pause_def)

lemma shouldSkipStepPause_stop:
  assumes "shouldSkipStepPause E a = Val (r, a')"
  shows "same_stop a a'"
proof (cases "m_steppingFromFramework a \<or> m_skipNextDebuggerStepOut a \<and> m_scheduledDebuggerStep a = StepOut")
  case False
  then obtain blackboxed b where b: "isTopCallFrameBlackboxed E (a\<lparr>m_skipNextDebuggerStepOut := False\<rparr>) = Val (blackboxed, b)"
    "(if \<not> blackboxed then (NoSkip, b) else skip_step_frame b) = (r, a')"
    using assms by (auto simp: shouldSkipStepPause_def bind_cxx_eq_Val split: if_splits)
  have "same_stop a b" using isTop_stop [OF b(1)] by simp
  moreover have "same_stop b a'" using b(2) skip_step_frame_stop [of b] by (auto split: if_splits)
  ultimately show ?thesis by (rule same_stop_trans)
qed (use assms in \<open>auto simp: shouldSkipStepPause_def split: if_splits\<close>)

lemma pause_decision_stop: "pause_decision E exception hits a = Val (r, a') \<Longrightarrow> same_stop a a'"
  by (auto simp: pause_decision_def shouldSkipExceptionPause_def bind_cxx_eq_Val split: if_splits
      dest: isTop_stop shouldSkipStepPause_stop)

lemma remove_location_breakpoint_stop: "remove_location_breakpoint E a = Val b \<Longrightarrow> same_stop a b"
  by (auto simp: remove_location_breakpoint_def on_debugger_def d_removeBreakpoint_def with_script_def native_def bind_cxx_eq_Val
      same_stop_def same_pause_def split: if_splits option.splits)

lemma break_details_stop [simp]:
  "same_stop a (b\<lparr>m_breakReason := x, m_breakAuxData := y\<rparr>) = same_stop a b"
  by (simp add: same_stop_def same_pause_def)

lemma pause_reason_stop: "pause_reason E s exception isPR a = Val b \<Longrightarrow> same_stop a b"
proof (cases exception)
  case (Some v)
  obtain script c where c: "script_for E s a = (script, c)" by fastforce
  obtain r d where d: "on_world (wrapObject (iso_engine (env_isolate E)) v backtraceObjectGroup False) c = (r, d)" by fastforce
  assume "pause_reason E s exception isPR a = Val b"
  thus ?thesis using Some script_for_world_stop [OF c d] c d
    by (cases r) (auto simp: pause_reason_def split: if_splits)
qed (auto simp: pause_reason_def)

lemma debug_command_hit_stop: "same_stop a (debug_command_hit hits a)"
  by (simp add: debug_command_hit_def same_stop_def same_pause_def)

lemma report_pause_stop:
  assumes "report_pause E hits a = Val b"
  shows "same_stop a b" "a_frontend b"
proof -
  obtain c where c: "(if m_asyncOperationNotifications a \<noteq> [] then flushAsyncOperationEvents (env_isolate E) a else Val a) = Val c"
    "(case currentCallFrames E c of (frames, a) \<Rightarrow>
       case currentAsyncStackTrace E a of (asyncStackTrace, a) \<Rightarrow>
         send (Paused frames (m_breakReason a) (m_breakAuxData a) (hitBreakpointIds a hits) asyncStackTrace) a) = Val b"
    using assms by (auto simp: report_pause_def bind_cxx_eq_Val)
  obtain frames d where d: "currentCallFrames E c = (frames, d)" by fastforce
  obtain trace e where e: "currentAsyncStackTrace E d = (trace, e)" by fastforce
  have s: "send (Paused frames (m_breakReason e) (m_breakAuxData e) (hitBreakpointIds e hits) trace) e = Val b"
    using c(2) d e by simp
  have "same_stop a c" using c(1) by (auto intro: flush_stop split: if_splits)
  moreover have "same_stop c d" "same_stop d e"
    using currentCallFrames_stop [of c E] currentAsyncStackTrace_stop [of d E] d e by simp_all
  ultimately show "same_stop a b" using send_stop [OF s] same_stop_trans by blast
  show "a_frontend b" using s by (auto simp: send_def split: if_splits)
qed

lemma end_stepping_stop: "same_stop a (end_stepping a)"
  by (simp add: end_stepping_def clearStepIntoAsync_def same_stop_def same_pause_def)

lemma enter_pause_stop:
  assumes "enter_pause E s callFrames exception hits isPR a = Val b"
  shows "same_pause a b" "a_pausedScriptState b = Some s" "a_frontend b"
proof -
  let ?a = "a\<lparr>a_pausedScriptState := Some s, m_currentCallStack := callFrames\<rparr>"
  obtain c d where c: "pause_reason E s exception isPR ?a = Val c" and d: "report_pause E hits (debug_command_hit hits c) = Val d"
    and b: "remove_location_breakpoint E (end_stepping d) = Val b"
    using assms by (auto simp: enter_pause_def bind_cxx_eq_Val)
  have "same_stop ?a b"
    using pause_reason_stop [OF c] debug_command_hit_stop report_pause_stop(1) [OF d] end_stepping_stop
      remove_location_breakpoint_stop [OF b] same_stop_trans by meson
  moreover have "a_frontend b"
    using report_pause_stop(2) [OF d] remove_location_breakpoint_stop [OF b] end_stepping_stop [of d]
    by (simp add: same_stop_def same_pause_def)
  ultimately show "same_pause a b" "a_pausedScriptState b = Some s" "a_frontend b"
    by (simp_all add: same_stop_def same_pause_def)
qed

lemma d_currentCallFrames_world:
  assumes "d_currentCallFrames V d = Val (r, d')"
  shows "\<exists>w. d' = d\<lparr>d_world := w\<rparr>" "r \<noteq> None \<Longrightarrow> d_enabled d"
proof -
  have same: "\<exists>w. d = d\<lparr>d_world := w\<rparr>" by (rule exI [of _ "d_world d"]) simp
  let ?s = "case d_pausedScriptState d of Some s \<Rightarrow> s | None \<Rightarrow> iso_currentScriptState V (d_world d)"
  have "d' = d \<and> r = None \<or> (\<exists>f v w. d_wrapCallFrames V 0 AllScopes d = Val (Some f) \<and> r = Some (?s, v) \<and> d' = d\<lparr>d_world := w\<rparr>)"
  proof (cases "iso_inContext V (d_world d) \<and> iso_hasUserFrames V (d_world d)")
    case True
    then obtain frame where frame: "d_wrapCallFrames V 0 AllScopes d = Val frame"
      using assms by (auto simp: d_currentCallFrames_def currentCallFramesInner_def bind_cxx_eq_Val)
    show ?thesis
    proof (cases frame)
      case (Some f)
      obtain v w where "iso_wrapFrame V f ?s (d_world d) = (v, w)" by fastforce
      thus ?thesis using assms True frame Some by (auto simp: d_currentCallFrames_def currentCallFramesInner_def)
    qed (use assms True frame in \<open>simp add: d_currentCallFrames_def currentCallFramesInner_def\<close>)
  qed (use assms in \<open>auto simp: d_currentCallFrames_def currentCallFramesInner_def split: if_splits\<close>)
  thus "\<exists>w. d' = d\<lparr>d_world := w\<rparr>" "r \<noteq> None \<Longrightarrow> d_enabled d"
    using same by (auto simp: d_wrapCallFrames_def with_script_def d_enabled_def split: option.splits)
qed

section \<open>Ending a pause\<close>

definition task_of :: "'w command \<Rightarrow> 'w task" where
  "task_of command a = bind_cxx (command a) (\<lambda>(_, a). Val a)"

definition unpaused :: "'w debugger_agent \<Rightarrow> bool" where
  "unpaused a \<longleftrightarrow>
    a_pausedScriptState a = None \<and> d_pausedScriptState (a_debugger a) = None \<and> m_executionState (a_debugger a) = None \<and>
    \<not> m_runningNestedMessageLoop (a_debugger a)"

text \<open>A break that pauses: what is known when the nested loop starts.\<close>

lemma handleProgramBreak_waits:
  assumes "handleProgramBreak E [] s (Some e) exception hits isPR a = Val None"
  obtains b where "same_pause (set_paused_state (Some (s, Some e)) a) b" "a_pausedScriptState b = Some s" "a_frontend b"
    "d_enabled (a_debugger b)" "a_listening b" "\<not> m_runningNestedMessageLoop (a_debugger b)"
    "\<And>tasks. handleProgramBreak E tasks s (Some e) exception hits isPR a =
      bind_cxx (runMessageLoopOnPause tasks (set_nested True b)) (\<lambda>r.
        Val (map_option (\<lambda>(a, rest). (set_paused_state None (set_nested False a), rest)) r))"
proof -
  let ?a = "set_paused_state (Some (s, Some e)) a"
  have active: "\<not> m_runningNestedMessageLoop (a_debugger a)" "a_listening a"
    using assms by (auto simp: handleProgramBreak_def split: if_splits)
  then obtain callFrames d result b where d: "d_currentCallFrames (env_isolate E) (a_debugger ?a) = Val (callFrames, d)"
    and b: "didPause E s callFrames exception (map numberToStringImpl_digits hits) isPR (a\<lparr>a_debugger := d\<rparr>) = Val (result, b)"
    using assms by (auto simp: handleProgramBreak_def bind_cxx_eq_Val)
  have result: "result = NoSkip"
    using assms active d b by (auto simp: handleProgramBreak_def bind_cxx_eq_Val split: if_splits)
  obtain w where w: "d = (a_debugger ?a)\<lparr>d_world := w\<rparr>" using d_currentCallFrames_world(1) [OF d] by blast
  obtain c where c: "pause_decision E exception (map numberToStringImpl_digits hits) (a\<lparr>a_debugger := d\<rparr>) = Val (NoSkip, c)"
    and frames: "callFrames \<noteq> None"
    and e: "enter_pause E s callFrames exception (map numberToStringImpl_digits hits) isPR (c\<lparr>m_skipNextDebuggerStepOut := False\<rparr>) = Val b"
    using b result by (auto simp: didPause_def bind_cxx_eq_Val Let_def split: if_splits)
  have "same_pause ?a (a\<lparr>a_debugger := d\<rparr>)" using w by (simp add: same_pause_def set_paused_state_def)
  hence same: "same_pause ?a b"
    using pause_decision_stop [OF c] enter_pause_stop(1) [OF e] by (simp add: same_stop_def same_pause_def)
  have "d_enabled (a_debugger b)"
    using d_currentCallFrames_world(2) [OF d frames] same by (simp add: same_pause_def d_enabled_def)
  moreover have "a_listening b" "\<not> m_runningNestedMessageLoop (a_debugger b)"
    using same active by (simp_all add: same_pause_def set_paused_state_def)
  moreover have "handleProgramBreak E tasks s (Some e) exception hits isPR a =
      bind_cxx (runMessageLoopOnPause tasks (set_nested True b)) (\<lambda>r.
        Val (map_option (\<lambda>(a, rest). (set_paused_state None (set_nested False a), rest)) r))" for tasks
    using active d b result by (simp add: handleProgramBreak_def)
  ultimately show ?thesis using that same enter_pause_stop(2,3) [OF e] by blast
qed

lemma didContinue_ends:
  assumes "a_frontend a"
  shows "\<exists>b. didContinue a = Val b \<and> unpaused (set_paused_state None (set_nested False b)) \<and> last (a_events b) = Resumed"
  using assms by (auto simp: didContinue_def send_def clearBreakDetails_def unpaused_def set_paused_state_def set_nested_def)

text \<open>A command that quits the loop ends the pause.\<close>

lemma quitting_command_ends:
  assumes waits: "handleProgramBreak E [] s (Some e) exception hits isPR a = Val None"
    and quits: "\<And>b. a_pausedScriptState b = Some s \<Longrightarrow> d_pausedScriptState (a_debugger b) = Some s \<Longrightarrow>
      m_executionState (a_debugger b) = Some e \<Longrightarrow> d_enabled (a_debugger b) \<Longrightarrow>
      \<exists>r c. command b = Val (r, c) \<and> d_quitMessageLoop (a_debugger c) \<and> a_listening c = a_listening b \<and> a_frontend c = a_frontend b"
  shows "\<exists>a'. handleProgramBreak E (task_of command # rest) s (Some e) exception hits isPR a = Val (Some (a', rest)) \<and>
    unpaused a' \<and> last (a_events a') = Resumed"
proof -
  obtain b where b: "same_pause (set_paused_state (Some (s, Some e)) a) b" "a_pausedScriptState b = Some s" "a_frontend b"
    "d_enabled (a_debugger b)" "a_listening b"
    "\<And>tasks. handleProgramBreak E tasks s (Some e) exception hits isPR a =
      bind_cxx (runMessageLoopOnPause tasks (set_nested True b)) (\<lambda>r.
        Val (map_option (\<lambda>(a, rest). (set_paused_state None (set_nested False a), rest)) r))"
    using handleProgramBreak_waits [OF waits] by blast
  let ?b = "(set_nested True b)\<lparr>a_debugger := (a_debugger (set_nested True b))\<lparr>d_quitMessageLoop := False\<rparr>\<rparr>"
  have "a_pausedScriptState ?b = Some s" "d_pausedScriptState (a_debugger ?b) = Some s" "m_executionState (a_debugger ?b) = Some e"
    "d_enabled (a_debugger ?b)"
    using b(1,2,4) by (simp_all add: set_nested_def same_pause_def set_paused_state_def d_enabled_def)
  then obtain r c where c: "command ?b = Val (r, c)" "d_quitMessageLoop (a_debugger c)" "a_listening c = a_listening ?b" "a_frontend c = a_frontend ?b"
    using quits by meson
  have "a_listening c" "a_frontend c" using c(3,4) b(3,5) by (simp_all add: set_nested_def)
  moreover obtain d where d: "didContinue c = Val d" "unpaused (set_paused_state None (set_nested False d))" "last (a_events d) = Resumed"
    using didContinue_ends [OF \<open>a_frontend c\<close>] by blast
  moreover have "runMessageLoopOnPause (task_of command # rest) (set_nested True b) = Val (Some (d, rest))"
    using c(1,2) d(1) \<open>a_listening c\<close> by (simp add: runMessageLoopOnPause_def task_of_def)
  ultimately show ?thesis by (simp add: b(6) set_paused_state_def set_nested_def)
qed

definition quits :: "'w debugger_agent \<Rightarrow> (wstr option \<times> 'w debugger_agent) cxx \<Rightarrow> bool" where
  "quits b r \<longleftrightarrow> (\<exists>e c. r = Val (e, c) \<and> d_quitMessageLoop (a_debugger c) \<and> a_listening c = a_listening b \<and> a_frontend c = a_frontend b)"

lemma resume_quits:
  assumes "a_pausedScriptState b = Some s" "d_pausedScriptState (a_debugger b) = Some s"
  shows "quits b (resume E b)"
proof -
  let ?c = "release_backtrace E (b\<lparr>m_scheduledDebuggerStep := NoStep, m_steppingFromFramework := False\<rparr>)"
  have "same_stop (b\<lparr>m_scheduledDebuggerStep := NoStep, m_steppingFromFramework := False\<rparr>) ?c" by (rule release_backtrace_stop)
  thus ?thesis using assms
    by (auto simp: quits_def resume_def assertPaused_def on_debugger_def d_continueProgram_def d_isPaused_def same_stop_def same_pause_def Let_def)
qed

lemma isTop_defined: "d_enabled (a_debugger a) \<Longrightarrow> \<exists>b a'. isTopCallFrameBlackboxed E a = Val (b, a')"
  by (auto simp: isTopCallFrameBlackboxed_def callFrameNoScopes_def with_script_def d_enabled_def)

lemma d_step_quits:
  assumes "d_isPaused d" "m_executionState d = Some e" "d_enabled d"
  shows "\<exists>d'. bind_cxx (d_step V action d) (\<lambda>d. Val (d_continueProgram d)) = Val d' \<and> d_quitMessageLoop d'"
  using assms by (auto simp: d_step_def with_script_def native_def d_continueProgram_def d_isPaused_def d_enabled_def Let_def)

lemma step_from_quits:
  assumes "\<And>d. step d = bind_cxx (d_step (env_isolate E) action d) (\<lambda>d. Val (d_continueProgram d))"
    and "d_isPaused (a_debugger b)" "m_executionState (a_debugger b) = Some e" "d_enabled (a_debugger b)"
  shows "quits b (step_from E step b)"
proof -
  obtain blackboxed c where c: "isTopCallFrameBlackboxed E b = Val (blackboxed, c)" using isTop_defined [OF assms(4)] by blast
  let ?c = "release_backtrace E (c\<lparr>m_steppingFromFramework := blackboxed\<rparr>)"
  have "same_stop b c" using isTop_stop [OF c] .
  hence same: "same_pause b ?c"
    using release_backtrace_stop [of "c\<lparr>m_steppingFromFramework := blackboxed\<rparr>" E] by (simp add: same_stop_def same_pause_def)
  hence "d_isPaused (a_debugger ?c)" "m_executionState (a_debugger ?c) = Some e" "d_enabled (a_debugger ?c)"
    using assms(2-4) by (simp_all add: same_pause_def d_isPaused_def d_enabled_def)
  from d_step_quits [OF this, of "env_isolate E" action] obtain d where "step (a_debugger ?c) = Val d" "d_quitMessageLoop d"
    using assms(1) by auto
  thus ?thesis using c same by (auto simp: quits_def step_from_def on_debugger_def same_pause_def)
qed

lemma quits_cong: "quits b' r \<Longrightarrow> a_listening b' = a_listening b \<Longrightarrow> a_frontend b' = a_frontend b \<Longrightarrow> quits b r"
  by (simp add: quits_def)

lemma stepping_quits:
  assumes "a_pausedScriptState b = Some s" "d_pausedScriptState (a_debugger b) = Some s" "m_executionState (a_debugger b) = Some e" "d_enabled (a_debugger b)"
  shows "quits b (stepInto E b)" "quits b (stepOver E b)" "quits b (stepOut E b)"
proof -
  have paused: "assertPaused b = None" "d_isPaused (a_debugger b)" using assms(1,2) by (simp_all add: assertPaused_def d_isPaused_def)
  show into: "quits b (stepInto E b)"
    using paused assms(3,4) by (simp add: stepInto_def, intro quits_cong [OF step_from_quits [where action = StepInAction]])
      (simp_all add: d_stepIntoStatement_def)
  show "quits b (stepOut E b)"
    using paused assms(3,4) by (simp add: stepOut_def, intro quits_cong [OF step_from_quits [where action = StepOutAction]])
      (simp_all add: d_stepOutOfFunction_def)
  obtain frame where frame: "callFrameNoScopes (env_isolate E) 0 (a_debugger b) = Val frame"
    using assms(4) by (cases "callFrameNoScopes (env_isolate E) 0 (a_debugger b)")
      (auto simp: callFrameNoScopes_def with_script_def d_enabled_def split: if_splits)
  have "quits b (step_from E (d_stepOverStatement (env_isolate E)) (b\<lparr>m_scheduledDebuggerStep := StepOver\<rparr>))"
    using paused assms(3,4) by (intro quits_cong [OF step_from_quits [where action = StepNextAction]]) (simp_all add: d_stepOverStatement_def)
  thus "quits b (stepOver E b)" using into paused(1) frame by (simp add: stepOver_def)
qed

text \<open>
  C6: when a break of the program pauses and waits, a command to resume or to
  step that arrives next ends the pause: the nested loop returns, leaving the
  later tasks to the outer one, the front end is told, and nothing is paused any
  more.
\<close>

theorem pause_ends:
  fixes a :: "'a debugger_agent"
  assumes "handleProgramBreak E [] s (Some e) exception hits isPR a = Val None"
    and "command \<in> {resume E, stepInto E, stepOver E, stepOut E}"
  shows "\<exists>a'. handleProgramBreak E (task_of command # rest) s (Some e) exception hits isPR a = Val (Some (a', rest)) \<and>
    unpaused a' \<and> last (a_events a') = Resumed"
proof (rule quitting_command_ends [OF assms(1)])
  fix b :: "'a debugger_agent"
  assume "a_pausedScriptState b = Some s" "d_pausedScriptState (a_debugger b) = Some s"
    "m_executionState (a_debugger b) = Some e" "d_enabled (a_debugger b)"
  hence "quits b (command b)" using assms(2) resume_quits [of b s E] stepping_quits [of b s e E] by auto
  thus "\<exists>r c. command b = Val (r, c) \<and> d_quitMessageLoop (a_debugger c) \<and> a_listening c = a_listening b \<and> a_frontend c = a_frontend b"
    by (simp add: quits_def)
qed

lemma report_pause_defined:
  assumes "a_frontend a" "m_asyncOperationNotifications a = []"
  shows "\<exists>b. report_pause E hits a = Val b"
proof -
  obtain frames d where d: "currentCallFrames E a = (frames, d)" by fastforce
  obtain trace e where e: "currentAsyncStackTrace E d = (trace, e)" by fastforce
  have "same_stop a d" "same_stop d e"
    using currentCallFrames_stop [of a E] currentAsyncStackTrace_stop [of d E] d e by simp_all
  thus ?thesis using assms d e by (simp add: report_pause_def send_def same_stop_def same_pause_def)
qed

lemma remove_location_breakpoint_defined: "d_enabled (a_debugger a) \<Longrightarrow> \<exists>b. remove_location_breakpoint E a = Val b"
  by (auto simp: remove_location_breakpoint_def on_debugger_def d_removeBreakpoint_def with_script_def d_enabled_def)

lemma enter_pause_defined:
  assumes "a_frontend a" "m_asyncOperationNotifications a = []" "d_enabled (a_debugger a)"
  shows "\<exists>b. enter_pause E s callFrames None hits isPR a = Val b"
proof -
  let ?a = "a\<lparr>a_pausedScriptState := Some s, m_currentCallStack := callFrames\<rparr>"
  obtain c where c: "pause_reason E s None isPR ?a = Val c" "m_asyncOperationNotifications c = []"
    using assms(2) by (simp add: pause_reason_def)
  have ac: "same_stop ?a (debug_command_hit hits c)"
    using pause_reason_stop [OF c(1)] debug_command_hit_stop same_stop_trans by blast
  hence "a_frontend (debug_command_hit hits c)" using assms(1) by (simp add: same_stop_def same_pause_def)
  then obtain d where d: "report_pause E hits (debug_command_hit hits c) = Val d"
    using report_pause_defined [of "debug_command_hit hits c"] c(2) by (auto simp: debug_command_hit_def split: if_splits)
  have "same_stop ?a (end_stepping d)" using ac report_pause_stop(1) [OF d] end_stepping_stop same_stop_trans by blast
  hence "d_enabled (a_debugger (end_stepping d))" using assms(3) by (simp add: same_stop_def same_pause_def d_enabled_def)
  thus ?thesis using remove_location_breakpoint_defined c(1) d by (fastforce simp: enter_pause_def)
qed

definition listening_agent :: "sample_world debugger_agent" where
  "listening_agent = (enabled_agent [block_frame])\<lparr>a_listening := True\<rparr>"

lemma d_currentCallFrames_sample:
  "sw_frames (d_world d) = [block_frame] \<Longrightarrow> d_enabled d \<Longrightarrow>
    \<exists>v w. d_currentCallFrames sample_isolate d = Val (Some v, d\<lparr>d_world := w\<rparr>)"
  by (auto simp: d_currentCallFrames_def currentCallFramesInner_def d_wrapCallFrames_def with_script_def d_enabled_def sample_isolate_def
      script_currentCallFrame_def wrapCallFrames_data_def AllScopes_def Let_def split: option.splits)

lemma sample_waits: "handleProgramBreak sample_environment [] 1 (Some 0) None [] False listening_agent = Val None"
proof -
  let ?d = "a_debugger (set_paused_state (Some (1, Some 0)) listening_agent)"
  have d: "sw_frames (d_world ?d) = [block_frame]" "d_enabled ?d"
    by (simp_all add: listening_agent_def set_paused_state_def enabled_agent_def new_agent_def new_debugger_def d_enabled_def)
  from d_currentCallFrames_sample [OF this] obtain v w where
    frames: "d_currentCallFrames sample_isolate ?d = Val (Some v, ?d\<lparr>d_world := w\<rparr>)" by blast
  let ?a = "listening_agent\<lparr>a_debugger := ?d\<lparr>d_world := w\<rparr>\<rparr>"
  obtain b where b: "enter_pause sample_environment 1 (Some v) None [] False (?a\<lparr>m_skipNextDebuggerStepOut := False\<rparr>) = Val b"
    using enter_pause_defined [of "?a\<lparr>m_skipNextDebuggerStepOut := False\<rparr>" sample_environment 1 "Some v" "[]" False] d(2)
    by (auto simp: listening_agent_def enabled_agent_def new_agent_def d_enabled_def set_paused_state_def)
  have "pause_decision sample_environment None [] ?a = Val (NoSkip, ?a)"
    by (simp add: pause_decision_def listening_agent_def enabled_agent_def new_agent_def)
  hence "didPause sample_environment 1 (Some v) None [] False ?a = Val (NoSkip, b)"
    using b by (simp add: didPause_def)
  moreover have "\<not> m_runningNestedMessageLoop (a_debugger listening_agent)" "a_listening listening_agent" "env_isolate sample_environment = sample_isolate"
    by (simp_all add: listening_agent_def enabled_agent_def new_agent_def new_debugger_def sample_environment_def)
  ultimately show ?thesis using frames by (simp add: handleProgramBreak_def runMessageLoopOnPause_def)
qed

theorem pause_ends_witness:
  "\<exists>a'. handleProgramBreak sample_environment [task_of (stepOver sample_environment), task_of (resume sample_environment)] 1 (Some 0) None [] False
     listening_agent = Val (Some (a', [task_of (resume sample_environment)])) \<and> unpaused a' \<and> last (a_events a') = Resumed"
  using pause_ends [OF sample_waits] by simp

section \<open>Skipping frames\<close>

text \<open>Pauses one after the other; V8 runs between them.\<close>

record 'w pause_input =
  pi_scriptState :: nat
  pi_callFrames :: script_value
  pi_exception :: "v8_value option"
  pi_hits :: "wstr list"
  pi_isPromiseRejection :: bool
  pi_debugger :: "'w v8_debugger"

definition pause_at :: "'w environment \<Rightarrow> 'w pause_input \<Rightarrow> 'w debugger_agent \<Rightarrow> (SkipPauseRequest \<times> 'w debugger_agent) cxx" where
  "pause_at E p a =
    didPause E (pi_scriptState p) (pi_callFrames p) (pi_exception p) (pi_hits p) (pi_isPromiseRejection p) (a\<lparr>a_debugger := pi_debugger p\<rparr>)"

fun skipped_frames :: "'w environment \<Rightarrow> 'w pause_input list \<Rightarrow> 'w debugger_agent \<Rightarrow> 'w debugger_agent option" where
  "skipped_frames E [] a = Some a"
| "skipped_frames E (p # ps) a =
    (case pause_at E p a of Val (SkipStepFrame, a) \<Rightarrow> skipped_frames E ps a | _ \<Rightarrow> None)"

lemma pause_decision_frame:
  assumes "pause_decision E exception hits a = Val (SkipStepFrame, b)"
  shows "m_skippedStepFrameCount a < maxSkipStepFrameCount \<and> m_skippedStepFrameCount b = m_skippedStepFrameCount a + 1"
proof -
  have "shouldSkipStepPause E a = Val (SkipStepFrame, b)"
    using assms by (auto simp: pause_decision_def shouldSkipExceptionPause_def bind_cxx_eq_Val split: if_splits)
  then obtain c where "isTopCallFrameBlackboxed E (a\<lparr>m_skipNextDebuggerStepOut := False\<rparr>) = Val (True, c)"
    "skip_step_frame c = (SkipStepFrame, b)"
    by (auto simp: shouldSkipStepPause_def bind_cxx_eq_Val split: if_splits)
  thus ?thesis by (auto simp: skip_step_frame_def split: if_splits elim!: isTop_only_scripts)
qed

lemma pause_at_frame:
  assumes "pause_at E p a = Val (SkipStepFrame, b)"
  shows "m_skippedStepFrameCount a < maxSkipStepFrameCount \<and> m_skippedStepFrameCount b = m_skippedStepFrameCount a + 1"
  using assms
  by (auto simp: pause_at_def didPause_def bind_cxx_eq_Val Let_def split: if_splits dest!: pause_decision_frame)

text \<open>
  C27: at most 128 pauses in a row are answered by stepping on to the next frame,
  whatever V8 does between them, and the counter of skipped frames stays within
  its bounds.
\<close>

theorem skipped_frames_bounded:
  assumes "skipped_frames E ps a = Some b" "0 \<le> m_skippedStepFrameCount a" "m_skippedStepFrameCount a \<le> maxSkipStepFrameCount"
  shows "length ps \<le> 128 \<and> m_skippedStepFrameCount b = m_skippedStepFrameCount a + int (length ps) \<and>
    m_skippedStepFrameCount b \<le> maxSkipStepFrameCount"
proof -
  have "m_skippedStepFrameCount b = m_skippedStepFrameCount a + int (length ps) \<and> m_skippedStepFrameCount b \<le> maxSkipStepFrameCount"
    using assms(1,3)
  proof (induction ps arbitrary: a)
    case (Cons p ps)
    obtain c where c: "pause_at E p a = Val (SkipStepFrame, c)" "skipped_frames E ps c = Some b"
      using Cons.prems(1) by (auto split: cxx.splits SkipPauseRequest.splits)
    show ?case using Cons.IH [OF c(2)] pause_at_frame [OF c(1)] by simp
  qed simp
  thus ?thesis using assms(2) by (simp add: maxSkipStepFrameCount_def)
qed

definition stepping_agent :: "sample_world debugger_agent" where
  "stepping_agent = listening_agent\<lparr>m_scheduledDebuggerStep := StepInto\<rparr>"

definition stepping_input :: "sample_world pause_input" where
  "stepping_input = \<lparr>pi_scriptState = 1, pi_callFrames = None, pi_exception = None, pi_hits = [], pi_isPromiseRejection = False,
    pi_debugger = a_debugger listening_agent\<rparr>"

lemma sample_frame: "\<exists>f. callFrameNoScopes sample_isolate 0 (a_debugger listening_agent) = Val (Some f)"
  by (simp add: callFrameNoScopes_def with_script_def listening_agent_def enabled_agent_def new_agent_def sample_isolate_def new_debugger_def
      currentCallFrameByIndex_def)

lemma stepping_top:
  "isTopCallFrameBlackboxed sample_environment (stepping_agent\<lparr>a_debugger := a_debugger listening_agent, m_skipNextDebuggerStepOut := False\<rparr>) =
    Val (True, stepping_agent\<lparr>a_debugger := a_debugger listening_agent, m_skipNextDebuggerStepOut := False\<rparr>)"
proof -
  have "env_isolate sample_environment = sample_isolate" "m_scripts listening_agent = []"
    by (simp_all add: sample_environment_def listening_agent_def)
  thus ?thesis using sample_frame by (auto simp: isTopCallFrameBlackboxed_def isCallFrameWithUnknownScriptOrBlackboxed_def stepping_agent_def)
qed

lemma stepping_skips: "\<exists>b. skipped_frames sample_environment [stepping_input] stepping_agent = Some b"
proof -
  have "\<not> m_skipAllPauses listening_agent" "\<not> m_steppingFromFramework listening_agent" "\<not> m_skipNextDebuggerStepOut listening_agent"
    "m_skippedStepFrameCount listening_agent = 0"
    by (simp_all add: listening_agent_def enabled_agent_def new_agent_def)
  thus ?thesis using stepping_top
    by (simp add: pause_at_def didPause_def pause_decision_def stepping_input_def shouldSkipStepPause_def skip_step_frame_def
        maxSkipStepFrameCount_def stepping_agent_def)
qed

theorem skipped_frames_bounded_witness:
  "\<exists>b. skipped_frames sample_environment [stepping_input] stepping_agent = Some b \<and> m_skippedStepFrameCount b = 1"
proof -
  obtain b where b: "skipped_frames sample_environment [stepping_input] stepping_agent = Some b" using stepping_skips ..
  have "m_skippedStepFrameCount stepping_agent = 0"
    by (simp add: stepping_agent_def listening_agent_def enabled_agent_def new_agent_def)
  thus ?thesis using skipped_frames_bounded [OF b] b by (simp add: maxSkipStepFrameCount_def)
qed

end
