(* ===== verification/Debugger_Commands.thy ===== *)
theory Debugger_Commands
  imports Debugger_Pausing
begin

text \<open>
  The commands of the debugger agent (core/inspector/InspectorDebuggerAgent.cpp,
  core/inspector/WorkerDebuggerAgent.cpp, bindings/core/v8/WorkerThreadDebugger.cpp):
  enabling, disabling and restoring it, its settings, evaluating on frames and
  running compiled scripts, inspecting objects and editing sources; and that a pause
  during which any of them arrive leaves nothing paused.
\<close>

section \<open>Listening to the debugger\<close>

definition workerContextDebugId :: wstr where
  "workerContextDebugId = lit ''[worker]''"

definition addListener :: "'w environment \<Rightarrow> 'w debugger_agent \<Rightarrow> 'w debugger_agent cxx" where
  "addListener E a =
    reportCompiledScripts E workerContextDebugId (a\<lparr>a_debugger := d_enable (env_isolate E) (a_debugger a), a_listening := True\<rparr>)"

definition removeListener :: "'w environment \<Rightarrow> 'w debugger_agent \<Rightarrow> 'w debugger_agent cxx" where
  "removeListener E a =
    on_debugger (d_disable (env_isolate E)) (a\<lparr>a_debugger := d_continueProgram (a_debugger a), a_listening := False\<rparr>)"

section \<open>Enabling and disabling the agent\<close>

definition clear_tracker :: "'w debugger_agent \<Rightarrow> 'w debugger_agent" where
  "clear_tracker a = (case tracker_clear (m_promiseTracker a) of (evs, t) \<Rightarrow> promise_events_sent evs (a\<lparr>m_promiseTracker := t\<rparr>))"

definition enable_tracker :: "bool \<Rightarrow> bool \<Rightarrow> 'w debugger_agent \<Rightarrow> 'w debugger_agent" where
  "enable_tracker enabled captureStacks a =
    (case tracker_setEnabled enabled captureStacks (m_promiseTracker a) of (evs, t) \<Rightarrow> promise_events_sent evs (a\<lparr>m_promiseTracker := t\<rparr>))"

definition a_init :: "'w debugger_agent \<Rightarrow> 'w debugger_agent" where
  "a_init a =
    (clearBreakDetails (a\<lparr>m_promiseTracker := new_tracker\<rparr>))
      \<lparr>a_state := state_setLong key_pauseOnExceptionsState DontPauseOnExceptions (a_state a)\<rparr>"

definition a_enable :: "'w environment \<Rightarrow> 'w debugger_agent \<Rightarrow> 'w debugger_agent cxx" where
  "a_enable E a =
    bind_cxx (addListener E a) (\<lambda>a.
      Val (a\<lparr>a_debugger := d_setBreakpointsActivated (env_isolate E) True (a_debugger a),
             a_state := state_setBoolean key_debuggerEnabled True (a_state a)\<rparr>))"

definition clear_stops :: "'w debugger_agent \<Rightarrow> 'w debugger_agent" where
  "clear_stops a =
    a\<lparr>a_pausedScriptState := None, m_currentCallStack := None, m_scripts := [], m_breakpointIdToDebuggerBreakpointIds := []\<rparr>"

definition clear_steps :: "'w debugger_agent \<Rightarrow> 'w debugger_agent" where
  "clear_steps a =
    (clearBreakDetails (a\<lparr>m_continueToLocationBreakpointId := []\<rparr>))
      \<lparr>m_scheduledDebuggerStep := NoStep, m_skipNextDebuggerStepOut := False, m_javaScriptPauseScheduled := False,
       m_steppingFromFramework := False, m_pausingOnNativeEvent := False, m_skippedStepFrameCount := 0,
       m_recursionLevelForStepFrame := 0, m_asyncOperationNotifications := [], m_compiledScripts := []\<rparr>"

definition a_clear :: "'w debugger_agent \<Rightarrow> 'w debugger_agent" where
  "a_clear a = clearStepIntoAsync (clear_steps (clear_tracker (internalSetAsyncCallStackDepth 0 (clear_stops a))))"

definition reset_settings :: "json_object \<Rightarrow> json_object" where
  "reset_settings properties =
    state_setBoolean key_promiseTrackerEnabled False
      (state_setLong key_asyncCallStackDepth 0
      (state_setBoolean key_skipContentScripts False
      (state_setString key_skipStackPattern []
      (state_setLong key_pauseOnExceptionsState DontPauseOnExceptions
      (state_setObject key_javaScriptBreakpoints emptyObject properties)))))"

definition a_disable :: "'w environment \<Rightarrow> 'w debugger_agent \<Rightarrow> 'w debugger_agent cxx" where
  "a_disable E a =
    bind_cxx (removeListener E (a\<lparr>a_state := reset_settings (a_state a)\<rparr>)) (\<lambda>a.
      Val ((a_clear a)\<lparr>m_skipAllPauses := False\<rparr>))"

definition enable :: "'w environment \<Rightarrow> 'w debugger_agent \<Rightarrow> 'w debugger_agent cxx" where
  "enable E a = (if a_enabled a then Val a else a_enable E a)"

definition disable :: "'w environment \<Rightarrow> 'w debugger_agent \<Rightarrow> 'w debugger_agent cxx" where
  "disable E a =
    (if \<not> a_enabled a then Val a
     else bind_cxx (a_disable E a) (\<lambda>a. Val (a\<lparr>a_state := state_setBoolean key_debuggerEnabled False (a_state a)\<rparr>)))"

definition setPauseOnExceptionsImpl :: "'w environment \<Rightarrow> int \<Rightarrow> 'w command" where
  "setPauseOnExceptionsImpl E pauseState a =
    bind_cxx (on_debugger (d_setPauseOnExceptionsState (env_isolate E) pauseState) a) (\<lambda>a.
    bind_cxx (d_pauseOnExceptionsState (a_debugger a)) (\<lambda>mode.
      Val (if mode \<noteq> pauseState then (Some (lit ''Internal error. Could not change pause on exceptions state''), a)
           else (None, a\<lparr>a_state := state_setLong key_pauseOnExceptionsState pauseState (a_state a)\<rparr>))))"

definition setPauseOnExceptions :: "'w environment \<Rightarrow> wstr \<Rightarrow> 'w command" where
  "setPauseOnExceptions E stringPauseState a =
    (case checkEnabled a of
       Some error \<Rightarrow> Val (Some error, a)
     | None \<Rightarrow>
         (if stringPauseState = lit ''none'' then setPauseOnExceptionsImpl E DontPauseOnExceptions a
          else if stringPauseState = lit ''all'' then setPauseOnExceptionsImpl E PauseOnAllExceptions a
          else if stringPauseState = lit ''uncaught'' then setPauseOnExceptionsImpl E PauseOnUncaughtExceptions a
          else Val (Some (lit ''Unknown pause on exceptions mode: '' @ stringPauseState), a)))"

text \<open>The settings that are read back when the agent is restored.\<close>

definition restore_skipping :: "'w environment \<Rightarrow> 'w debugger_agent \<Rightarrow> 'w debugger_agent" where
  "restore_skipping E a =
    (increaseCachedSkipStackGeneration
       (a\<lparr>m_cachedSkipStackRegExp := compileSkipCallFramePattern E (nonnull (state_getString (a_state a) key_skipStackPattern))\<rparr>))
      \<lparr>m_skipContentScripts := state_getBoolean (a_state a) key_skipContentScripts,
       m_skipAllPauses := state_getBoolean (a_state a) key_skipAllPauses\<rparr>"

definition restore :: "'w environment \<Rightarrow> 'w debugger_agent \<Rightarrow> 'w debugger_agent cxx" where
  "restore E a =
    (if \<not> a_enabled a then Val a
     else bind_cxx (send GlobalObjectCleared a) (\<lambda>a.
          bind_cxx (a_enable E a) (\<lambda>a.
          bind_cxx (setPauseOnExceptionsImpl E (sint (word_of_int (state_getLong (a_state a) key_pauseOnExceptionsState 0) :: 32 word)) a) (\<lambda>(_, a).
            let a = internalSetAsyncCallStackDepth
                      (sint (word_of_int (state_getLong (a_state a) key_asyncCallStackDepth 0) :: 32 word)) (restore_skipping E a)
            in Val (enable_tracker (state_getBoolean (a_state a) key_promiseTrackerEnabled)
                 (state_getBoolean (a_state a) key_promiseTrackerCaptureStacks) a)))))"

definition setBreakpointsActive :: "'w environment \<Rightarrow> bool \<Rightarrow> 'w debugger_agent \<Rightarrow> wstr option \<times> 'w debugger_agent" where
  "setBreakpointsActive E active a =
    (case checkEnabled a of
       Some error \<Rightarrow> (Some error, a)
     | None \<Rightarrow> (None, a\<lparr>a_debugger := d_setBreakpointsActivated (env_isolate E) active (a_debugger a)\<rparr>))"

definition setSkipAllPauses :: "bool \<Rightarrow> 'w debugger_agent \<Rightarrow> 'w debugger_agent" where
  "setSkipAllPauses skipped a = a\<lparr>m_skipAllPauses := skipped, a_state := state_setBoolean key_skipAllPauses skipped (a_state a)\<rparr>"

definition setAsyncCallStackDepth :: "int \<Rightarrow> 'w debugger_agent \<Rightarrow> wstr option \<times> 'w debugger_agent" where
  "setAsyncCallStackDepth depth a =
    (case checkEnabled a of
       Some error \<Rightarrow> (Some error, a)
     | None \<Rightarrow> (None, internalSetAsyncCallStackDepth depth (a\<lparr>a_state := state_setLong key_asyncCallStackDepth depth (a_state a)\<rparr>)))"

definition enablePromiseTracker :: "bool option \<Rightarrow> 'w debugger_agent \<Rightarrow> wstr option \<times> 'w debugger_agent" where
  "enablePromiseTracker captureStacks a =
    (case checkEnabled a of
       Some error \<Rightarrow> (Some error, a)
     | None \<Rightarrow> (None, enable_tracker True (captureStacks = Some True)
         (a\<lparr>a_state := state_setBoolean key_promiseTrackerCaptureStacks (captureStacks = Some True)
            (state_setBoolean key_promiseTrackerEnabled True (a_state a))\<rparr>)))"

definition disablePromiseTracker :: "'w debugger_agent \<Rightarrow> wstr option \<times> 'w debugger_agent" where
  "disablePromiseTracker a =
    (case checkEnabled a of
       Some error \<Rightarrow> (Some error, a)
     | None \<Rightarrow> (None, enable_tracker False False
         (a\<lparr>a_state := state_setBoolean key_promiseTrackerEnabled False (a_state a)\<rparr>)))"

definition reset :: "'w debugger_agent \<Rightarrow> 'w debugger_agent" where
  "reset a =
    (let a = clear_tracker (resetAsyncCallTracker
           (a\<lparr>m_scheduledDebuggerStep := NoStep, m_scripts := [], m_breakpointIdToDebuggerBreakpointIds := []\<rparr>))
     in if a_frontend a then a\<lparr>a_events := a_events a @ [GlobalObjectCleared]\<rparr> else a)"

definition resetModifiedSources :: "'w debugger_agent \<Rightarrow> 'w debugger_agent" where
  "resetModifiedSources a = a\<lparr>m_editedScripts := []\<rparr>"

definition interruptAndDispatchInspectorCommands :: "nat \<Rightarrow> 'w debugger_agent \<Rightarrow> 'w debugger_agent" where
  "interruptAndDispatchInspectorCommands task a = a\<lparr>a_debugger := interruptAndRun task (a_debugger a)\<rparr>"

section \<open>Evaluating\<close>

type_synonym ('b, 'w) reply = "((wstr + 'b) \<times> 'w debugger_agent) cxx"

definition paused_script :: "'w environment \<Rightarrow> wstr \<Rightarrow> 'w debugger_agent \<Rightarrow> (wstr + v8_value \<times> injected_script) cxx" where
  "paused_script E callFrameId a =
    (if \<not> a_isPaused a then Val (Inl (lit ''Attempt to access callframe when debugger is not on pause''))
     else case m_currentCallStack a of
       None \<Rightarrow> Val (Inl (lit ''Attempt to access callframe when debugger is not on pause''))
     | Some (_, callFrames) \<Rightarrow>
         bind_cxx (injectedScriptForObjectId (env_platform E) callFrameId (m_injectedScriptManager a)) (\<lambda>script.
           Val (if is_empty script then Inl (lit ''Inspected frame has gone'') else Inr (callFrames, script))))"

text \<open>The stacks of a chain always have frames.\<close>

definition async_call_stacks :: "'w debugger_agent \<Rightarrow> v8_value list" where
  "async_call_stacks a =
    (case m_currentAsyncCallChain a of
       None \<Rightarrow> []
     | Some callStacks \<Rightarrow> List.map_filter (\<lambda>stack. map_option snd (acs_callFrames stack)) callStacks)"

definition evaluateOnCallFrame ::
  "'w environment \<Rightarrow> wstr \<Rightarrow> wstr \<Rightarrow> wstr option \<Rightarrow> bool option \<Rightarrow> bool option \<Rightarrow> bool option \<Rightarrow> bool option \<Rightarrow>
   'w debugger_agent \<Rightarrow> (eval_result, 'w) reply" where
  "evaluateOnCallFrame E callFrameId expression objectGroup includeCommandLineAPI doNotPause returnByValue generatePreview a =
    bind_cxx (paused_script E callFrameId a) (\<lambda>r.
      (case r of
         Inl error \<Rightarrow> Val (Inl error, a)
       | Inr (callFrames, script) \<Rightarrow>
           bind_cxx (mute_exceptions (env_isolate E) (doNotPause = Some True) (a_debugger a)) (\<lambda>(previous, d).
           bind_cxx (is_evaluateOnCallFrame (iso_engine (env_isolate E)) (is_empty script) callFrames (async_call_stacks a) callFrameId expression
             (case objectGroup of None \<Rightarrow> [] | Some g \<Rightarrow> g) (includeCommandLineAPI = Some True) (returnByValue = Some True)
             (generatePreview = Some True) (d_world d)) (\<lambda>(r, w).
           bind_cxx (unmute_exceptions (env_isolate E) (doNotPause = Some True) previous (d\<lparr>d_world := w\<rparr>)) (\<lambda>d.
             Val (r, a\<lparr>a_debugger := d\<rparr>))))))"

record v8_message =
  msg_text :: "wstr option"
  msg_line :: int
  msg_column :: int
  msg_stack :: "ScriptCallStack option"

definition createExceptionDetails :: "v8_message \<Rightarrow> json_object" where
  "createExceptionDetails m =
    (let details = setValue (lit ''column'') (number_json (msg_column m))
           (setValue (lit ''line'') (number_json (msg_line m)) (setString (lit ''text'') (nonnull (msg_text m)) emptyObject))
     in case msg_stack m of
          None \<Rightarrow> details
        | Some stack \<Rightarrow> (if m_frames stack = [] then details else setArray (lit ''stackTrace'') (buildInspectorArray stack) details))"

text \<open>
  The script of the context to evaluate in, with its script state: that of the worker
  (\<open>scriptState\<close>) unless an id is given.
\<close>

definition injectedScriptForEval ::
  "'w environment \<Rightarrow> nat \<Rightarrow> int option \<Rightarrow> 'w debugger_agent \<Rightarrow> nat \<times> injected_script \<times> 'w debugger_agent" where
  "injectedScriptForEval E scriptState executionContextId a =
    (case executionContextId of
       None \<Rightarrow> (case script_for E scriptState a of (script, a) \<Rightarrow> (scriptState, script, a))
     | Some i \<Rightarrow>
         (case injectedScriptForId (iso_engine (env_isolate E)) (iso_factory (env_isolate E)) i (m_injectedScriptManager a)
                 (d_world (a_debugger a)) of
            (script, m, w) \<Rightarrow>
              (case List.find (\<lambda>(s, j). j = i) (m_scriptStateToId m) of None \<Rightarrow> scriptState | Some (s, _) \<Rightarrow> s,
               script, a\<lparr>m_injectedScriptManager := m, a_debugger := (a_debugger a)\<lparr>d_world := w\<rparr>\<rparr>)))"

text \<open>What V8 answers when it compiles and when it runs a script.\<close>

datatype compile_outcome = Compiled int v8_value | NotCompiled "v8_message option"
datatype run_outcome = Ran v8_value | RunThrew "v8_value option" "v8_message option"

definition compileScript ::
  "'w environment \<Rightarrow> (wstr \<Rightarrow> wstr \<Rightarrow> 'w \<Rightarrow> compile_outcome \<times> 'w) \<Rightarrow> nat \<Rightarrow> wstr \<Rightarrow> wstr \<Rightarrow> bool \<Rightarrow> int option \<Rightarrow> 'w debugger_agent \<Rightarrow>
   (wstr option \<times> json_object option, 'w) reply" where
  "compileScript E compile scriptState expression sourceURL persistScript executionContextId a =
    (case checkEnabled a of
       Some error \<Rightarrow> Val (Inl error, a)
     | None \<Rightarrow>
         (case injectedScriptForEval E scriptState executionContextId a of (state, script, a) \<Rightarrow>
            if is_empty script \<or> \<not> iso_contextIsValid (env_isolate E) state (d_world (a_debugger a))
            then Val (Inl (lit ''Inspected frame has gone''), a)
            else case on_world (compile expression sourceURL) a of
              (NotCompiled (Some message), a) \<Rightarrow> Val (Inr (None, Some (createExceptionDetails message)), a)
            | (NotCompiled None, a) \<Rightarrow> Val (Inl (lit ''Script compilation failed''), a)
            | (Compiled i compiled, a) \<Rightarrow>
                (if \<not> persistScript then Val (Inr (None, None), a)
                 else Val (Inr (Some (int_text i), None), a\<lparr>m_compiledScripts := hset (int_text i) compiled (m_compiledScripts a)\<rparr>))))"

definition run_compiled ::
  "'w environment \<Rightarrow> (v8_value \<Rightarrow> 'w \<Rightarrow> run_outcome \<times> 'w) \<Rightarrow> nat \<Rightarrow> wstr \<Rightarrow> wstr \<Rightarrow> 'w debugger_agent \<Rightarrow>
   (json_object option \<times> json_object option, 'w) reply" where
  "run_compiled E run state scriptId objectGroup a =
    (case hget (m_compiledScripts a) scriptId of
       None \<Rightarrow> Val (Inl (lit ''Script execution failed''), a)
     | Some compiled \<Rightarrow>
         (let a = a\<lparr>m_compiledScripts := hremove scriptId (m_compiledScripts a)\<rparr>
          in if \<not> iso_contextIsValid (env_isolate E) state (d_world (a_debugger a)) then Val (Inl (lit ''Script execution failed''), a)
             else case on_world (run compiled) a of (outcome, a) \<Rightarrow>
               (let (value, details) =
                      (case outcome of Ran v \<Rightarrow> (Some v, None) | RunThrew e m \<Rightarrow> (e, map_option createExceptionDetails m))
                in case value of
                     None \<Rightarrow> Val (Inl (lit ''Script execution failed''), a)
                   | Some v \<Rightarrow>
                       (case on_world (wrapObject (iso_engine (env_isolate E)) v objectGroup False) a of
                          (result, a) \<Rightarrow> bind_cxx result (\<lambda>result. Val (Inr (result, details), a))))))"

text \<open>The early returns of the errors skip the end of the bracket.\<close>

definition run_muted ::
  "'w environment \<Rightarrow> (v8_value \<Rightarrow> 'w \<Rightarrow> run_outcome \<times> 'w) \<Rightarrow> nat \<Rightarrow> wstr \<Rightarrow> wstr \<Rightarrow> bool \<Rightarrow> 'w debugger_agent \<Rightarrow>
   (json_object option \<times> json_object option, 'w) reply" where
  "run_muted E run state scriptId objectGroup doNotPause a =
    bind_cxx (mute_exceptions (env_isolate E) doNotPause (a_debugger a)) (\<lambda>(previous, d).
    bind_cxx (run_compiled E run state scriptId objectGroup (a\<lparr>a_debugger := d\<rparr>)) (\<lambda>(r, a).
      (case r of
         Inl error \<Rightarrow> Val (Inl error, a)
       | Inr result \<Rightarrow>
           bind_cxx (unmute_exceptions (env_isolate E) doNotPause previous (a_debugger a)) (\<lambda>d. Val (Inr result, a\<lparr>a_debugger := d\<rparr>)))))"

definition runScript ::
  "'w environment \<Rightarrow> (v8_value \<Rightarrow> 'w \<Rightarrow> run_outcome \<times> 'w) \<Rightarrow> nat \<Rightarrow> wstr \<Rightarrow> int option \<Rightarrow> wstr option \<Rightarrow> bool option \<Rightarrow> 'w debugger_agent \<Rightarrow>
   (json_object option \<times> json_object option, 'w) reply" where
  "runScript E run scriptState scriptId executionContextId objectGroup doNotPause a =
    (case checkEnabled a of
       Some error \<Rightarrow> Val (Inl error, a)
     | None \<Rightarrow>
         (case injectedScriptForEval E scriptState executionContextId a of (state, script, a) \<Rightarrow>
            if is_empty script then Val (Inl (lit ''Inspected frame has gone''), a)
            else run_muted E run state scriptId (case objectGroup of None \<Rightarrow> [] | Some g \<Rightarrow> g) (doNotPause = Some True) a))"

section \<open>Inspecting\<close>

definition engine_result :: "('w script_engine \<Rightarrow> 'w \<Rightarrow> 'b \<times> 'w) \<Rightarrow> 'w environment \<Rightarrow> 'w debugger_agent \<Rightarrow> 'b \<times> 'w debugger_agent" where
  "engine_result f E a = on_world (f (iso_engine (env_isolate E))) a"

text \<open>Without a frame id the frames are not passed to the script.\<close>

definition setVariableValue ::
  "'w environment \<Rightarrow> int \<Rightarrow> wstr \<Rightarrow> json_object \<Rightarrow> wstr option \<Rightarrow> wstr option \<Rightarrow> 'w debugger_agent \<Rightarrow> (unit, 'w) reply" where
  "setVariableValue E scopeNumber variableName newValue callFrameId functionObjectId a =
    (let assign = (\<lambda>callFrames script. bind_cxx (toJSONString (env_platform E) (JSONObject newValue)) (\<lambda>newValueString.
           Val (engine_result (\<lambda>engine. is_setVariableValue engine (is_empty script) callFrames callFrameId functionObjectId
             scopeNumber variableName newValueString) E a)))
     in case checkEnabled a of
          Some error \<Rightarrow> Val (Inl error, a)
        | None \<Rightarrow>
            (case (callFrameId, functionObjectId) of
               (Some frameId, _) \<Rightarrow>
                 bind_cxx (paused_script E frameId a) (\<lambda>r.
                   (case r of Inl error \<Rightarrow> Val (Inl error, a) | Inr (callFrames, script) \<Rightarrow> assign callFrames script))
             | (None, Some functionId) \<Rightarrow>
                 bind_cxx (injectedScriptForObjectId (env_platform E) functionId (m_injectedScriptManager a)) (\<lambda>script.
                   if is_empty script then Val (Inl (lit ''Function object id cannot be resolved''), a) else assign 0 script)
             | (None, None) \<Rightarrow> Val (Inl (lit ''Either call frame or function object must be specified''), a)))"

definition getStepInPositions :: "'w environment \<Rightarrow> wstr \<Rightarrow> 'w debugger_agent \<Rightarrow> (json list, 'w) reply" where
  "getStepInPositions E callFrameId a =
    bind_cxx (paused_script E callFrameId a) (\<lambda>r.
      (case r of
         Inl error \<Rightarrow> Val (Inl error, a)
       | Inr (callFrames, script) \<Rightarrow>
           Val (engine_result (\<lambda>engine. is_getStepInPositions engine (is_empty script) callFrames callFrameId) E a)))"

definition current_frames :: "'w environment \<Rightarrow> 'w debugger_agent \<Rightarrow> (json list \<times> json_object option) \<times> 'w debugger_agent" where
  "current_frames E a =
    (case currentCallFrames E a of (frames, a) \<Rightarrow> case currentAsyncStackTrace E a of (trace, a) \<Rightarrow> ((frames, trace), a))"

definition refresh_call_stack :: "'w environment \<Rightarrow> 'w debugger_agent \<Rightarrow> 'w debugger_agent cxx" where
  "refresh_call_stack E a =
    bind_cxx (d_currentCallFrames (env_isolate E) (a_debugger a)) (\<lambda>(callFrames, d).
      Val (a\<lparr>a_debugger := d, m_currentCallStack := callFrames\<rparr>))"

definition getBacktrace :: "'w environment \<Rightarrow> 'w debugger_agent \<Rightarrow> (json list \<times> json_object option, 'w) reply" where
  "getBacktrace E a =
    (case assertPaused a of
       Some error \<Rightarrow> Val (Inl error, a)
     | None \<Rightarrow> bind_cxx (refresh_call_stack E a) (\<lambda>a. case current_frames E a of (r, a) \<Rightarrow> Val (Inr r, a)))"

definition remember_edit :: "wstr \<Rightarrow> wstr \<Rightarrow> 'w debugger_agent \<Rightarrow> 'w debugger_agent" where
  "remember_edit scriptId newContent a =
    (case hget (m_scripts a) scriptId of
       None \<Rightarrow> a
     | Some script \<Rightarrow>
         (if nonnull (s_url script) = [] then a
          else a\<lparr>m_editedScripts := hset (nonnull (s_url script)) newContent (m_editedScripts a)\<rparr>))"

datatype source_error = SourceError wstr "(wstr \<times> int \<times> int) option"

definition setScriptSource ::
  "'w environment \<Rightarrow> wstr \<Rightarrow> wstr \<Rightarrow> bool option \<Rightarrow> 'w debugger_agent \<Rightarrow>
   ((source_error + (json list \<times> json_object option) \<times> json_object option) \<times> 'w debugger_agent) cxx" where
  "setScriptSource E scriptId newContent preview a =
    (case checkEnabled a of
       Some error \<Rightarrow> Val (Inl (SourceError error None), a)
     | None \<Rightarrow>
         bind_cxx (d_setScriptSource (env_isolate E) scriptId newContent (preview = Some True) (a_debugger a)) (\<lambda>(r, d).
           let a = a\<lparr>a_debugger := d\<rparr>
           in case r of
                SourceNotSet error data \<Rightarrow> Val (Inl (SourceError error data), a)
              | SourceSet result newCallFrames \<Rightarrow>
                  (let a = (case newCallFrames of None \<Rightarrow> a | Some frames \<Rightarrow> a\<lparr>m_currentCallStack := frames\<rparr>)
                   in case current_frames E a of (frames, a) \<Rightarrow> Val (Inr (frames, result), remember_edit scriptId newContent a))))"

text \<open>An error of the call is reported together with the new frames.\<close>

definition restartFrame ::
  "'w environment \<Rightarrow> wstr \<Rightarrow> 'w debugger_agent \<Rightarrow> ((wstr option \<times> json_object option \<times> (json list \<times> json_object option) option) \<times> 'w debugger_agent) cxx" where
  "restartFrame E callFrameId a =
    bind_cxx (paused_script E callFrameId a) (\<lambda>r.
      (case r of
         Inl error \<Rightarrow> Val ((Some error, None, None), a)
       | Inr (callFrames, script) \<Rightarrow>
           (case engine_result (\<lambda>engine. is_restartFrame engine (is_empty script) callFrames callFrameId) E a of (r, a) \<Rightarrow>
              bind_cxx (refresh_call_stack E a) (\<lambda>a.
                case current_frames E a of (frames, a) \<Rightarrow>
                  Val ((case r of Inl error \<Rightarrow> (Some error, None, Some frames) | Inr result \<Rightarrow> (None, Some result, Some frames)), a)))))"

definition object_script :: "'w environment \<Rightarrow> string \<Rightarrow> wstr \<Rightarrow> 'w debugger_agent \<Rightarrow> (wstr + injected_script) cxx" where
  "object_script E gone objectId a =
    (case checkEnabled a of
       Some error \<Rightarrow> Val (Inl error)
     | None \<Rightarrow> bind_cxx (injectedScriptForObjectId (env_platform E) objectId (m_injectedScriptManager a)) (\<lambda>script.
         Val (if is_empty script then Inl (lit gone) else Inr script)))"

definition inspect_object ::
  "'w environment \<Rightarrow> string \<Rightarrow> wstr \<Rightarrow> ('w script_engine \<Rightarrow> bool \<Rightarrow> wstr \<Rightarrow> 'w \<Rightarrow> (wstr + 'b) cxx \<times> 'w) \<Rightarrow> 'w debugger_agent \<Rightarrow> ('b, 'w) reply" where
  "inspect_object E gone objectId f a =
    bind_cxx (object_script E gone objectId a) (\<lambda>r.
      (case r of
         Inl error \<Rightarrow> Val (Inl error, a)
       | Inr script \<Rightarrow>
           (case engine_result (\<lambda>engine. f engine (is_empty script) objectId) E a of (r, a) \<Rightarrow> bind_cxx r (\<lambda>r. Val (r, a)))))"

definition getFunctionDetails :: "'w environment \<Rightarrow> wstr \<Rightarrow> 'w debugger_agent \<Rightarrow> (json_object, 'w) reply" where
  "getFunctionDetails E functionId a = inspect_object E ''Function object id is obsolete'' functionId is_getFunctionDetails a"

definition getGeneratorObjectDetails :: "'w environment \<Rightarrow> wstr \<Rightarrow> 'w debugger_agent \<Rightarrow> (json_object, 'w) reply" where
  "getGeneratorObjectDetails E objectId a = inspect_object E ''Inspected frame has gone'' objectId is_getGeneratorObjectDetails a"

definition getCollectionEntries :: "'w environment \<Rightarrow> wstr \<Rightarrow> 'w debugger_agent \<Rightarrow> (json list, 'w) reply" where
  "getCollectionEntries E objectId a = inspect_object E ''Inspected frame has gone'' objectId is_getCollectionEntries a"

text \<open>The script state of a promise is that of the worker.\<close>

definition getPromiseById :: "'w environment \<Rightarrow> nat \<Rightarrow> int \<Rightarrow> wstr option \<Rightarrow> 'w debugger_agent \<Rightarrow> (json_object option, 'w) reply" where
  "getPromiseById E scriptState i objectGroup a =
    (case checkEnabled a of
       Some error \<Rightarrow> Val (Inl error, a)
     | None \<Rightarrow>
         (if \<not> m_isEnabled (m_promiseTracker a) then Val (Inl (lit ''Promise tracking is disabled''), a)
          else case promiseById (m_promiseTracker a) i of
            None \<Rightarrow> Val (Inl (lit ''Promise with specified ID not found.''), a)
          | Some promise \<Rightarrow>
              (case script_for E scriptState a of (script, a) \<Rightarrow>
               case engine_result (\<lambda>engine. wrapObject engine promise (case objectGroup of None \<Rightarrow> [] | Some g \<Rightarrow> g) False) E a of
                 (r, a) \<Rightarrow> bind_cxx r (\<lambda>r. Val (Inr r, a)))))"

section \<open>The mode for exceptions\<close>

lemma mode_cong: "m_debuggerScript d = m_debuggerScript d' \<Longrightarrow> d_pauseOnExceptionsState d = d_pauseOnExceptionsState d'"
  by (simp add: d_pauseOnExceptionsState_def with_script_def script_pauseOnExceptionsState_def)

lemma mode_world [simp]: "d_pauseOnExceptionsState (d\<lparr>d_world := w\<rparr>) = d_pauseOnExceptionsState d"
  by (rule mode_cong) simp

lemma enabled_world [simp]: "d_enabled (d\<lparr>d_world := w\<rparr>) = d_enabled d"
  by (simp add: d_enabled_def)

lemma injectedScriptForEval_stop:
  assumes "injectedScriptForEval E s i a = (state, script, b)"
  shows "same_stop a b"
proof (cases i)
  case None
  thus ?thesis using assms script_for_stop [of a E s] by (auto simp: injectedScriptForEval_def split: prod.splits)
next
  case (Some j)
  thus ?thesis using assms by (auto simp: injectedScriptForEval_def same_stop_def same_pause_def split: prod.splits)
qed

lemma compiled_stop [simp]: "same_stop a (b\<lparr>m_compiledScripts := x\<rparr>) = same_stop a b"
  by (simp add: same_stop_def same_pause_def)

lemma run_compiled_stop:
  assumes "run_compiled E run state i g a = Val (r, b)"
  shows "same_stop a b"
proof (cases "hget (m_compiledScripts a) i")
  case None
  thus ?thesis using assms by (simp add: run_compiled_def)
next
  case (Some compiled)
  let ?a = "a\<lparr>m_compiledScripts := hremove i (m_compiledScripts a)\<rparr>"
  obtain outcome c where c: "on_world (run compiled) ?a = (outcome, c)" by fastforce
  have ac: "same_stop a c" using on_world_stop [of ?a "run compiled"] c same_stop_trans [of a ?a c] by simp
  have wrap: "same_stop a (snd (on_world f c))" for f :: "'a \<Rightarrow> json_object option cxx \<times> 'a"
    using ac on_world_stop same_stop_trans by blast
  have "b = ?a \<or> b = c \<or> (\<exists>f :: 'a \<Rightarrow> json_object option cxx \<times> 'a. b = snd (on_world f c))"
    using assms Some c
    by (auto simp: run_compiled_def Let_def bind_cxx_eq_Val split: if_splits prod.splits option.splits run_outcome.splits) (metis snd_conv)+
  thus ?thesis using ac wrap by auto
qed

lemma evaluateOnCallFrame_mode:
  assumes on: "d_enabled (a_debugger a)"
    and step: "evaluateOnCallFrame E callFrameId expression objectGroup includeAPI doNotPause returnByValue generatePreview a = Val (r, b)"
  shows "d_pauseOnExceptionsState (a_debugger b) = d_pauseOnExceptionsState (a_debugger a)"
proof -
  obtain s where s: "paused_script E callFrameId a = Val s" using step by (auto simp: evaluateOnCallFrame_def bind_cxx_eq_Val)
  show ?thesis
  proof (cases s)
    case (Inr p)
    obtain callFrames script where p: "p = (callFrames, script)" by (cases p)
    obtain previous d where d: "mute_exceptions (env_isolate E) (doNotPause = Some True) (a_debugger a) = Val (previous, d)"
      "d_pauseOnExceptionsState (a_debugger a) = Val previous" "d_enabled d"
      "d_pauseOnExceptionsState d = Val (if doNotPause = Some True then DontPauseOnExceptions else previous)"
      using mute_exceptions_Val [OF on] by metis
    obtain w d' where w: "unmute_exceptions (env_isolate E) (doNotPause = Some True) previous (d\<lparr>d_world := w\<rparr>) = Val d'" "b = a\<lparr>a_debugger := d'\<rparr>"
      using step s Inr p d(1) by (auto simp: evaluateOnCallFrame_def bind_cxx_eq_Val)
    have "d_pauseOnExceptionsState d' = Val previous"
      using unmute_exceptions_Val [of "d\<lparr>d_world := w\<rparr>" "env_isolate E" "doNotPause = Some True" previous] d(3,4) w(1)
      by (auto split: if_splits)
    thus ?thesis using w(2) d(2) by simp
  qed (use step s in \<open>simp add: evaluateOnCallFrame_def\<close>)
qed

text \<open>Running a script: the mode after each outcome.\<close>

lemma run_muted_mode:
  assumes on: "d_enabled (a_debugger a)" and step: "run_muted E run state scriptId objectGroup doNotPause a = Val (r, b)"
  shows "d_pauseOnExceptionsState (a_debugger b) =
    (if doNotPause \<and> r = Inl (lit ''Script execution failed'') then Val DontPauseOnExceptions
     else d_pauseOnExceptionsState (a_debugger a))"
proof -
  obtain previous d where d: "mute_exceptions (env_isolate E) doNotPause (a_debugger a) = Val (previous, d)"
    "d_pauseOnExceptionsState (a_debugger a) = Val previous" "d_enabled d"
    "d_pauseOnExceptionsState d = Val (if doNotPause then DontPauseOnExceptions else previous)"
    using mute_exceptions_Val [OF on] by metis
  obtain s e where e: "run_compiled E run state scriptId objectGroup (a\<lparr>a_debugger := d\<rparr>) = Val (s, e)"
    using step d(1) by (auto simp: run_muted_def bind_cxx_eq_Val)
  have e': "m_debuggerScript (a_debugger e) = m_debuggerScript d"
    using run_compiled_stop [OF e] by (simp add: same_stop_def same_pause_def)
  hence modes: "d_pauseOnExceptionsState (a_debugger e) = d_pauseOnExceptionsState d" "d_enabled (a_debugger e)"
    using d(3) by (auto intro: mode_cong simp: d_enabled_def)
  show ?thesis
  proof (cases s)
    case (Inl error)
    have "error = lit ''Script execution failed''"
      using e Inl by (auto simp: run_compiled_def Let_def bind_cxx_eq_Val split: if_splits prod.splits option.splits)
    thus ?thesis using step d e Inl modes by (auto simp: run_muted_def)
  next
    case (Inr result)
    obtain d' where d': "unmute_exceptions (env_isolate E) doNotPause previous (a_debugger e) = Val d'"
      "r = Inr result" "b = e\<lparr>a_debugger := d'\<rparr>"
      using step d(1) e Inr by (auto simp: run_muted_def bind_cxx_eq_Val)
    have "d_pauseOnExceptionsState d' = Val previous"
      using unmute_exceptions_Val [OF modes(2), of "env_isolate E" doNotPause previous] d(4) d'(1) modes(1) by (auto split: if_splits)
    thus ?thesis using d'(2,3) d(2) by simp
  qed
qed

lemma runScript_mode:
  assumes on: "d_enabled (a_debugger a)"
    and step: "runScript E run scriptState scriptId contextId objectGroup doNotPause a = Val (r, b)"
  shows "d_pauseOnExceptionsState (a_debugger b) =
    (if doNotPause = Some True \<and> r = Inl (lit ''Script execution failed'') then Val DontPauseOnExceptions
     else d_pauseOnExceptionsState (a_debugger a))"
proof (cases "checkEnabled a")
  case None
  obtain state script c where c: "injectedScriptForEval E scriptState contextId a = (state, script, c)" by (metis prod.exhaust)
  have "m_debuggerScript (a_debugger c) = m_debuggerScript (a_debugger a)"
    using injectedScriptForEval_stop [OF c] by (simp add: same_stop_def same_pause_def)
  hence mode: "d_pauseOnExceptionsState (a_debugger c) = d_pauseOnExceptionsState (a_debugger a)" "d_enabled (a_debugger c)"
    using on by (auto intro: mode_cong simp: d_enabled_def)
  show ?thesis
  proof (cases "is_empty script")
    case True
    thus ?thesis using step None c mode(1) by (auto simp: runScript_def lit_def)
  next
    case False
    hence "run_muted E run state scriptId (case objectGroup of None \<Rightarrow> [] | Some g \<Rightarrow> g) (doNotPause = Some True) c = Val (r, b)"
      using step None c by (simp add: runScript_def)
    from run_muted_mode [OF mode(2) this] show ?thesis using mode(1) by simp
  qed
qed (use step in \<open>auto simp: runScript_def checkEnabled_def lit_def split: if_splits\<close>)

text \<open>
  C23: evaluating on a call frame, successful or not, and running a script
  successfully leave the mode for pausing on exceptions as it was, also when
  exceptions are not to pause meanwhile.
\<close>

theorem evaluation_keeps_mode:
  assumes "d_enabled (a_debugger a)"
  shows "(evaluateOnCallFrame E callFrameId expression objectGroup includeAPI doNotPause returnByValue generatePreview a = Val (r, b) \<longrightarrow>
      d_pauseOnExceptionsState (a_debugger b) = d_pauseOnExceptionsState (a_debugger a)) \<and>
    (runScript E run scriptState scriptId contextId objectGroup doNotPause a = Val (Inr result, c) \<longrightarrow>
      d_pauseOnExceptionsState (a_debugger c) = d_pauseOnExceptionsState (a_debugger a))"
  using evaluateOnCallFrame_mode [OF assms] runScript_mode [OF assms] by fastforce

text \<open>
  A failed run with the request not to pause on exceptions switches pausing on
  exceptions off for good.
\<close>

lemma runScript_mode_lost:
  assumes "d_enabled (a_debugger a)"
    and "runScript E run scriptState scriptId contextId objectGroup (Some True) a = Val (Inl (lit ''Script execution failed''), b)"
  shows "d_pauseOnExceptionsState (a_debugger b) = Val DontPauseOnExceptions"
  using runScript_mode [OF assms] by simp

definition compiled_agent :: "sample_world debugger_agent" where
  "compiled_agent = (enabled_agent [])
    \<lparr>m_compiledScripts := [(lit ''1'', 5)],
     a_debugger := (a_debugger (enabled_agent []))\<lparr>m_debuggerScript := Some PauseOnAllExceptions\<rparr>\<rparr>"

lemma sample_run_compiled:
  assumes "hget (m_compiledScripts a) i = Some v"
  shows "\<exists>b. run_compiled sample_environment (\<lambda>v w. (Ran v, w)) state i g a = Val (Inr (None, None), b)"
  using assms
  by (auto simp: run_compiled_def on_world_def sample_environment_def sample_isolate_def wrapObject_def wrap_result_def
      callFunctionWithEvalEnabled_def sample_engine_def asObject_def)

lemma sample_script_for:
  assumes "m_injectedScriptManager a = createForWorker"
  shows "\<exists>script b. script_for sample_environment 1 a = (script, b) \<and> \<not> is_empty script \<and>
    m_compiledScripts b = m_compiledScripts a \<and> d_enabled (a_debugger b) = d_enabled (a_debugger a)"
  using assms
  by (simp add: script_for_def injectedScriptFor_def createForWorker_def injectedScriptIdFor_def sample_environment_def sample_isolate_def
      canAccessInspectedWorkerGlobalScope_def Let_def)

lemma compiled_agent_runs:
  "\<exists>result c. runScript sample_environment (\<lambda>v w. (Ran v, w)) 1 (lit ''1'') None None (Some True) compiled_agent = Val (Inr result, c)"
proof -
  have start: "m_injectedScriptManager compiled_agent = createForWorker" "hget (m_compiledScripts compiled_agent) (lit ''1'') = Some 5"
    "d_enabled (a_debugger compiled_agent)" "checkEnabled compiled_agent = checkEnabled (enabled_agent [])"
    by (simp_all add: compiled_agent_def enabled_agent_def new_agent_def d_enabled_def hget_def checkEnabled_def a_enabled_def)
  obtain script b where b: "script_for sample_environment 1 compiled_agent = (script, b)" "\<not> is_empty script"
    "hget (m_compiledScripts b) (lit ''1'') = Some 5" "d_enabled (a_debugger b)"
    using sample_script_for [OF start(1)] start(2,3) by auto
  obtain previous d where d: "mute_exceptions sample_isolate True (a_debugger b) = Val (previous, d)" "d_enabled d"
    using mute_exceptions_Val [OF b(4)] by blast
  obtain c where c: "run_compiled sample_environment (\<lambda>v w. (Ran v, w)) 1 (lit ''1'') [] (b\<lparr>a_debugger := d\<rparr>) = Val (Inr (None, None), c)"
    using sample_run_compiled [of "b\<lparr>a_debugger := d\<rparr>" "lit ''1''" 5 1 "[]"] b(3) by auto
  have "d_enabled (a_debugger c)" using run_compiled_stop [OF c] d(2) by (simp add: same_stop_def same_pause_def d_enabled_def)
  then obtain d' where "unmute_exceptions sample_isolate True previous (a_debugger c) = Val d'"
    using unmute_exceptions_Val by blast
  moreover have "env_isolate sample_environment = sample_isolate" by (simp add: sample_environment_def)
  ultimately show ?thesis using start(4) b(1,2) d(1) c
    by (simp add: runScript_def injectedScriptForEval_def run_muted_def)
qed

theorem evaluation_keeps_mode_witness:
  "\<exists>result c. runScript sample_environment (\<lambda>v w. (Ran v, w)) 1 (lit ''1'') None None (Some True) compiled_agent = Val (Inr result, c) \<and>
    d_pauseOnExceptionsState (a_debugger c) = Val PauseOnAllExceptions"
proof -
  obtain result c where c: "runScript sample_environment (\<lambda>v w. (Ran v, w)) 1 (lit ''1'') None None (Some True) compiled_agent = Val (Inr result, c)"
    using compiled_agent_runs by blast
  have mode: "d_enabled (a_debugger compiled_agent)" "d_pauseOnExceptionsState (a_debugger compiled_agent) = Val PauseOnAllExceptions"
    by (simp_all add: compiled_agent_def d_enabled_def d_pauseOnExceptionsState_def with_script_def script_pauseOnExceptionsState_def)
  show ?thesis using evaluation_keeps_mode [OF mode(1)] c mode(2) by metis
qed

section \<open>All commands of the front end\<close>

datatype debugger_command =
    Enable | Disable
  | SetBreakpointsActive bool
  | SetSkipAllPauses bool
  | BreakpointByUrl int "wstr option" "wstr option" "int option" "wstr option"
  | BreakpointAt json_object "wstr option"
  | BreakpointRemove wstr
  | ContinueToLocation json_object "bool option"
  | CmdStepOver | CmdStepInto | CmdStepOut | CmdStepIntoAsync | CmdPause | CmdResume
  | SetPauseOnExceptions wstr
  | EvaluateOnCallFrame wstr wstr "wstr option" "bool option" "bool option" "bool option" "bool option"
  | SetVariableValue int wstr json_object "wstr option" "wstr option"
  | GetStepInPositions wstr
  | GetBacktrace
  | SetScriptSource wstr wstr "bool option"
  | RestartFrame wstr
  | GetFunctionDetails wstr | GetGeneratorObjectDetails wstr | GetCollectionEntries wstr
  | SkipStackFrames "wstr option" "bool option"
  | SetAsyncCallStackDepth int
  | EnablePromiseTracker "bool option" | DisablePromiseTracker
  | SetAsyncOperationBreakpoint int | RemoveAsyncOperationBreakpoint int | FlushAsyncOperationEvents

definition state_of :: "('b \<times> 'w debugger_agent) cxx \<Rightarrow> 'w debugger_agent cxx" where
  "state_of r = bind_cxx r (\<lambda>(_, a). Val a)"

definition execute :: "'w environment \<Rightarrow> debugger_command \<Rightarrow> 'w task" where
  "execute E command a =
    (case command of
       Enable \<Rightarrow> enable E a
     | Disable \<Rightarrow> disable E a
     | SetBreakpointsActive active \<Rightarrow> Val (snd (setBreakpointsActive E active a))
     | SetSkipAllPauses skipped \<Rightarrow> Val (setSkipAllPauses skipped a)
     | BreakpointByUrl line url regex column condition \<Rightarrow> state_of (setBreakpointByUrl E line url regex column condition a)
     | BreakpointAt location condition \<Rightarrow> state_of (setBreakpoint E location condition a)
     | BreakpointRemove i \<Rightarrow> state_of (removeBreakpoint E i a)
     | ContinueToLocation location interstate \<Rightarrow> state_of (continueToLocation E location interstate a)
     | CmdStepOver \<Rightarrow> state_of (stepOver E a)
     | CmdStepInto \<Rightarrow> state_of (stepInto E a)
     | CmdStepOut \<Rightarrow> state_of (stepOut E a)
     | CmdStepIntoAsync \<Rightarrow> state_of (stepIntoAsync E a)
     | CmdPause \<Rightarrow> Val (snd (pause E a))
     | CmdResume \<Rightarrow> state_of (resume E a)
     | SetPauseOnExceptions mode \<Rightarrow> state_of (setPauseOnExceptions E mode a)
     | EvaluateOnCallFrame frameId expression objectGroup api doNotPause byValue preview \<Rightarrow>
         state_of (evaluateOnCallFrame E frameId expression objectGroup api doNotPause byValue preview a)
     | SetVariableValue scope name val frameId functionId \<Rightarrow> state_of (setVariableValue E scope name val frameId functionId a)
     | GetStepInPositions frameId \<Rightarrow> state_of (getStepInPositions E frameId a)
     | GetBacktrace \<Rightarrow> state_of (getBacktrace E a)
     | SetScriptSource scriptId content preview \<Rightarrow> state_of (setScriptSource E scriptId content preview a)
     | RestartFrame frameId \<Rightarrow> state_of (restartFrame E frameId a)
     | GetFunctionDetails i \<Rightarrow> state_of (getFunctionDetails E i a)
     | GetGeneratorObjectDetails i \<Rightarrow> state_of (getGeneratorObjectDetails E i a)
     | GetCollectionEntries i \<Rightarrow> state_of (getCollectionEntries E i a)
     | SkipStackFrames pattern skip \<Rightarrow> Val (snd (skipStackFrames E pattern skip a))
     | SetAsyncCallStackDepth depth \<Rightarrow> Val (snd (setAsyncCallStackDepth depth a))
     | EnablePromiseTracker captureStacks \<Rightarrow> Val (snd (enablePromiseTracker captureStacks a))
     | DisablePromiseTracker \<Rightarrow> Val (snd (disablePromiseTracker a))
     | SetAsyncOperationBreakpoint i \<Rightarrow> Val (snd (setAsyncOperationBreakpoint i a))
     | RemoveAsyncOperationBreakpoint i \<Rightarrow> Val (snd (removeAsyncOperationBreakpoint i a))
     | FlushAsyncOperationEvents \<Rightarrow> flushAsyncOperationEvents (env_isolate E) a)"

lemma state_of_Val: "state_of r = Val b \<longleftrightarrow> (\<exists>x. r = Val (x, b))"
  by (auto simp: state_of_def bind_cxx_eq_Val)

text \<open>Most commands change neither whether the agent is paused nor whether it listens.\<close>

definition keeps :: "'w debugger_agent \<Rightarrow> 'w debugger_agent \<Rightarrow> bool" where
  "keeps a b \<longleftrightarrow> a_pausedScriptState b = a_pausedScriptState a \<and> a_listening b = a_listening a"

lemma keeps_refl [simp]: "keeps a a"
  by (simp add: keeps_def)

lemma keeps_trans: "keeps a b \<Longrightarrow> keeps b c \<Longrightarrow> keeps a c"
  by (simp add: keeps_def)

lemma keeps_stop: "same_stop a b \<Longrightarrow> keeps a b"
  by (simp add: keeps_def same_stop_def same_pause_def)

lemma keeps_on_debugger: "on_debugger f a = Val b \<Longrightarrow> keeps a b"
  by (auto simp: on_debugger_def bind_cxx_eq_Val keeps_def)

lemma keeps_send: "send e a = Val b \<Longrightarrow> keeps a b"
  by (rule keeps_stop, rule send_stop)

lemma keeps_resolveBreakpoint: "resolveBreakpoint E i s bp src a = Val (l, b) \<Longrightarrow> keeps a b"
  by (erule resolveBreakpoint_cases) (simp_all add: keeps_def add_server_breakpoint_def)

lemma keeps_resolve_in_scripts: "resolve_in_scripts E i bp url r scripts a = Val (ls, b) \<Longrightarrow> keeps a b"
proof (induction scripts arbitrary: a ls)
  case (Cons p scripts)
  thus ?case by (cases p) (auto simp: bind_cxx_eq_Val split: if_splits intro: keeps_trans [OF keeps_resolveBreakpoint])
qed simp

lemma keeps_resolve_cookies: "resolve_cookies E s u cookies a = Val b \<Longrightarrow> keeps a b"
proof (induction cookies arbitrary: a)
  case (Cons p cookies)
  obtain i cookie where p: "p = (i, cookie)" by (cases p)
  obtain c where c: "resolve_cookies E s u [(i, cookie)] a = Val c" "resolve_cookies E s u cookies c = Val b"
    using Cons.prems unfolding p by (rule resolve_cookies_ConsE)
  have "keeps a c"
  proof -
    obtain isRegex url bp where k: "cookie_breakpoint cookie = Val (isRegex, url, bp)" using c(1) by (auto simp: bind_cxx_eq_Val)
    show ?thesis
    proof (cases "matches E u url isRegex")
      case True
      then obtain l d where d: "resolveBreakpoint E i s bp UserBreakpointSource a = Val (l, d)"
        "(case l of None \<Rightarrow> Val d | Some l \<Rightarrow> send (BreakpointResolved i l) d) = Val c"
        using c(1) k by (auto simp: bind_cxx_eq_Val)
      have "keeps d c" using d(2) by (cases l) (auto dest: keeps_send)
      thus ?thesis using keeps_resolveBreakpoint [OF d(1)] keeps_trans by blast
    qed (use c(1) k in simp)
  qed
  thus ?case using Cons.IH [OF c(2)] keeps_trans by blast
qed simp

lemma keeps_with_cookies:
  assumes "with_cookies a f = Val r" "\<And>cookies b. keeps a b \<Longrightarrow> f cookies b = Val r \<Longrightarrow> keeps b c"
  shows "keeps a c"
proof -
  from assms(1) obtain cookies ps where f: "f cookies (a\<lparr>a_state := ps\<rparr>) = Val r"
    by (auto simp: with_cookies_def split: prod.splits option.splits)
  have "keeps a (a\<lparr>a_state := ps\<rparr>)" by (simp add: keeps_def)
  thus ?thesis using assms(2) [OF _ f] keeps_trans by blast
qed

lemma keeps_set_cookies: "keeps (set_cookies c a) b \<Longrightarrow> keeps a b"
  by (simp add: keeps_def set_cookies_def)

lemma keeps_setBreakpointByUrl:
  assumes "setBreakpointByUrl E line url regex column condition a = Val (r, b)"
  shows "keeps a b"
proof -
  have resolve: "keeps d b" if "resolve_in_scripts E i bp u isRegex scripts (set_cookies c d) = Val (l, b)" for i bp u isRegex scripts c d l
    using keeps_resolve_in_scripts [OF that] by (rule keeps_set_cookies)
  show ?thesis using assms unfolding setBreakpointByUrl_def Let_def
    by (auto simp: bind_cxx_eq_Val split: if_splits elim!: keeps_with_cookies dest: resolve)
qed

lemma keeps_setBreakpoint: "setBreakpoint E location condition a = Val (r, b) \<Longrightarrow> keeps a b"
  unfolding setBreakpoint_def Let_def
  by (auto simp: bind_cxx_eq_Val split: sum.splits if_splits dest: keeps_resolveBreakpoint)

lemma keeps_remove_server: "remove_server_breakpoints E ids a = Val b \<Longrightarrow> keeps a b"
proof (induction ids arbitrary: a)
  case (Cons i ids)
  then obtain c where c: "on_debugger (d_removeBreakpoint (env_isolate E) i) a = Val c"
    "remove_server_breakpoints E ids (c\<lparr>m_serverBreakpoints := hremove i (m_serverBreakpoints c)\<rparr>) = Val b"
    by (auto simp: bind_cxx_eq_Val)
  show ?case using keeps_on_debugger [OF c(1)] Cons.IH [OF c(2)] by (simp add: keeps_def)
qed simp

lemma keeps_removeBreakpoint:
  assumes "removeBreakpoint E i a = Val (r, b)"
  shows "keeps a b"
proof -
  have remove: "keeps d b" if "removeBreakpoint_id E i (set_cookies c d) = Val b" for c d
  proof (rule keeps_set_cookies [of c])
    show "keeps (set_cookies c d) b"
      using that by (auto simp: removeBreakpoint_id_def bind_cxx_eq_Val split: option.splits dest!: keeps_remove_server) (simp add: keeps_def)
  qed
  show ?thesis
  proof (cases "checkEnabled a")
    case None
    show ?thesis using assms None unfolding removeBreakpoint_def
      by (auto simp: bind_cxx_eq_Val elim!: keeps_with_cookies dest: remove)
  qed (use assms in \<open>auto simp: removeBreakpoint_def\<close>)
qed

lemma keeps_resume: "resume E a = Val (r, b) \<Longrightarrow> keeps a b"
  using release_backtrace_stop [of "a\<lparr>m_scheduledDebuggerStep := NoStep, m_steppingFromFramework := False\<rparr>" E]
  by (auto simp: resume_def bind_cxx_eq_Val split: option.splits dest!: keeps_on_debugger keeps_stop) (simp add: keeps_def)

lemma keeps_step_from:
  assumes "step_from E step a = Val (r, b)"
  shows "keeps a b"
proof -
  obtain blackboxed c where c: "isTopCallFrameBlackboxed E a = Val (blackboxed, c)"
    "on_debugger step (release_backtrace E (c\<lparr>m_steppingFromFramework := blackboxed\<rparr>)) = Val b"
    using assms by (auto simp: step_from_def bind_cxx_eq_Val)
  show ?thesis
    using keeps_stop [OF isTop_stop [OF c(1)]] keeps_on_debugger [OF c(2)]
      keeps_stop [OF release_backtrace_stop [of "c\<lparr>m_steppingFromFramework := blackboxed\<rparr>" E]]
    by (simp add: keeps_def)
qed

lemma keeps_stepping:
  "stepInto E a = Val (r, b) \<Longrightarrow> keeps a b" "stepOver E a = Val (r, b) \<Longrightarrow> keeps a b"
  "stepOut E a = Val (r, b) \<Longrightarrow> keeps a b" "stepIntoAsync E a = Val (r, b) \<Longrightarrow> keeps a b"
proof -
  have into: "keeps a b" if "stepInto E a = Val (r, b)" for a
    using that by (auto simp: stepInto_def split: option.splits dest!: keeps_step_from) (simp add: keeps_def)
  thus "stepInto E a = Val (r, b) \<Longrightarrow> keeps a b" .
  show "stepOut E a = Val (r, b) \<Longrightarrow> keeps a b"
    by (auto simp: stepOut_def split: option.splits dest!: keeps_step_from) (simp add: keeps_def)
  have over: "keeps a b" if "step_from E (d_stepOverStatement (env_isolate E)) (a\<lparr>m_scheduledDebuggerStep := StepOver\<rparr>) = Val (r, b)"
    using keeps_step_from [OF that] by (simp add: keeps_def)
  show "stepOver E a = Val (r, b) \<Longrightarrow> keeps a b"
    by (cases "assertPaused a") (auto simp: stepOver_def bind_cxx_eq_Val split: if_splits dest: over into)
  show "stepIntoAsync E a = Val (r, b) \<Longrightarrow> keeps a b"
    by (auto simp: stepIntoAsync_def split: option.splits if_splits dest!: into) (simp add: keeps_def clearStepIntoAsync_def)
qed

lemma keeps_continueToLocation:
  assumes "continueToLocation E location interstate a = Val (r, b)"
  shows "keeps a b"
proof (cases "checkEnabled a")
  case None
  then obtain c where c: "remove_location_breakpoint E a = Val c"
    "(case parseLocation location of
        Inl error \<Rightarrow> Val (Some error, c)
      | Inr (scriptId, lineNumber, columnNumber) \<Rightarrow>
          bind_cxx (d_setBreakpoint (env_isolate E) scriptId
            \<lparr>sb_lineNumber = lineNumber, sb_columnNumber = columnNumber, sb_condition = []\<rparr> (interstate = Some True) (a_debugger c)) (\<lambda>(r, d).
            resume E (c\<lparr>a_debugger := d, m_continueToLocationBreakpointId := (case r of None \<Rightarrow> [] | Some (i, _, _) \<Rightarrow> i)\<rparr>))) = Val (r, b)"
    using assms by (auto simp: continueToLocation_def bind_cxx_eq_Val)
  have "keeps c b" using c(2) by (auto simp: bind_cxx_eq_Val split: sum.splits dest!: keeps_resume) (simp add: keeps_def)
  thus ?thesis using keeps_stop [OF remove_location_breakpoint_stop [OF c(1)]] keeps_trans by blast
qed (use assms in \<open>auto simp: continueToLocation_def\<close>)

lemma keeps_mode: "setPauseOnExceptions E mode a = Val (r, b) \<Longrightarrow> keeps a b"
proof -
  have impl: "keeps a b" if "setPauseOnExceptionsImpl E n a = Val (r, b)" for n r b
    using that unfolding setPauseOnExceptionsImpl_def
    by (elim bind_cxxE) (auto split: if_splits dest!: keeps_on_debugger simp: keeps_def)
  show "setPauseOnExceptions E mode a = Val (r, b) \<Longrightarrow> keeps a b"
    by (auto simp: setPauseOnExceptions_def split: option.splits if_splits dest: impl)
qed

lemma keeps_evaluate:
  "evaluateOnCallFrame E f e g api p v w a = Val (r, b) \<Longrightarrow> keeps a b"
  unfolding evaluateOnCallFrame_def
  by (elim bind_cxxE) (auto simp: bind_cxx_eq_Val keeps_def split: sum.splits)

lemma keeps_engine_result: "engine_result f E a = (r, b) \<Longrightarrow> keeps a b"
  using keeps_stop [OF on_world_stop [of a "f (iso_engine (env_isolate E))"]] by (simp add: engine_result_def)

lemma keeps_setVariableValue: "setVariableValue E n name v f g a = Val (r, b) \<Longrightarrow> keeps a b"
  unfolding setVariableValue_def Let_def
  by (auto split: option.splits elim!: bind_cxxE) (auto split: sum.splits if_splits elim!: bind_cxxE dest: keeps_engine_result)

lemma keeps_getStepInPositions: "getStepInPositions E f a = Val (r, b) \<Longrightarrow> keeps a b"
  unfolding getStepInPositions_def
  by (elim bind_cxxE) (auto split: sum.splits dest: keeps_engine_result)

lemma keeps_current_frames:
  assumes "current_frames E a = (r, b)"
  shows "keeps a b"
proof -
  obtain frames c where c: "currentCallFrames E a = (frames, c)" by fastforce
  obtain trace d where d: "currentAsyncStackTrace E c = (trace, d)" by fastforce
  have "keeps a c" "keeps c d"
    using keeps_stop [OF currentCallFrames_stop [of a E]] keeps_stop [OF currentAsyncStackTrace_stop [of c E]] c d by simp_all
  thus ?thesis using assms c d keeps_trans by (auto simp: current_frames_def)
qed

lemma keeps_refresh: "refresh_call_stack E a = Val b \<Longrightarrow> keeps a b"
  by (auto simp: refresh_call_stack_def bind_cxx_eq_Val keeps_def)

lemma keeps_getBacktrace:
  assumes "getBacktrace E a = Val (r, b)"
  shows "keeps a b"
proof (cases "assertPaused a")
  case None
  then obtain c where c: "refresh_call_stack E a = Val c" "(case current_frames E c of (r, a) \<Rightarrow> Val (Inr r, a)) = Val (r, b)"
    using assms by (auto simp: getBacktrace_def elim: bind_cxxE)
  obtain q d where d: "current_frames E c = (q, d)" by fastforce
  show ?thesis using keeps_refresh [OF c(1)] keeps_current_frames [OF d] keeps_trans c(2) d by auto
qed (use assms in \<open>auto simp: getBacktrace_def\<close>)

lemma keeps_restartFrame:
  assumes "restartFrame E f a = Val (r, b)"
  shows "keeps a b"
proof -
  obtain s where s: "paused_script E f a = Val s" using assms by (auto simp: restartFrame_def elim: bind_cxxE)
  show ?thesis
  proof (cases s)
    case (Inr p)
    obtain callFrames script where p: "p = (callFrames, script)" by (cases p)
    obtain q c where c: "engine_result (\<lambda>engine. is_restartFrame engine (is_empty script) callFrames f) E a = (q, c)" by fastforce
    then obtain d where d: "refresh_call_stack E c = Val d"
      using assms s Inr p by (auto simp: restartFrame_def elim: bind_cxxE)
    obtain fs e where e: "current_frames E d = (fs, e)" by fastforce
    have "b = e" using assms s Inr p c d e by (simp add: restartFrame_def)
    thus ?thesis using keeps_engine_result [OF c] keeps_refresh [OF d] keeps_current_frames [OF e] keeps_trans by blast
  qed (use assms s in \<open>simp add: restartFrame_def\<close>)
qed

lemma keeps_setScriptSource:
  assumes "setScriptSource E i content preview a = Val (r, b)"
  shows "keeps a b"
proof (cases "checkEnabled a")
  case None
  then obtain q d where q: "d_setScriptSource (env_isolate E) i content (preview = Some True) (a_debugger a) = Val (q, d)"
    using assms by (auto simp: setScriptSource_def bind_cxx_eq_Val)
  show ?thesis
  proof (cases q)
    case (SourceSet result frames)
    let ?c = "case frames of None \<Rightarrow> a\<lparr>a_debugger := d\<rparr> | Some f \<Rightarrow> a\<lparr>a_debugger := d, m_currentCallStack := f\<rparr>"
    obtain fs c where c: "current_frames E ?c = (fs, c)" by fastforce
    hence "b = remember_edit i content c" using assms None q SourceSet by (auto simp: setScriptSource_def Let_def split: option.splits)
    moreover have "keeps a ?c" by (simp add: keeps_def split: option.split)
    ultimately show ?thesis using keeps_current_frames [OF c] by (auto simp: keeps_def remember_edit_def split: option.splits)
  next
    case (SourceNotSet error data)
    thus ?thesis using assms None q by (auto simp: setScriptSource_def keeps_def)
  qed
qed (use assms in \<open>auto simp: setScriptSource_def\<close>)

lemma keeps_inspect:
  assumes "inspect_object E gone i f a = Val (r, b)"
  shows "keeps a b"
proof -
  obtain s where s: "object_script E gone i a = Val s" using assms by (auto simp: inspect_object_def elim: bind_cxxE)
  show ?thesis
  proof (cases s)
    case (Inr script)
    obtain q c where c: "engine_result (\<lambda>engine. f engine (is_empty script) i) E a = (q, c)" by fastforce
    hence "b = c" using assms s Inr by (auto simp: inspect_object_def elim: bind_cxxE)
    thus ?thesis using keeps_engine_result [OF c] by simp
  qed (use assms s in \<open>simp add: inspect_object_def\<close>)
qed

lemma keeps_completed: "keeps a (traceAsyncOperationCompleted n a)"
  by (simp add: keeps_def completed_defs Let_def)

lemma keeps_resetAsyncCallTracker: "keeps a (resetAsyncCallTracker a)"
proof -
  have "keeps a (clearCurrentAsyncOperation a)"
    using keeps_completed [of a "m_currentAsyncOperationId a"] by (simp add: clearCurrentAsyncOperation_def Let_def keeps_def)
  thus ?thesis by (simp add: resetAsyncCallTracker_def clearStepIntoAsync_def keeps_def)
qed

lemma keeps_depth: "keeps a (internalSetAsyncCallStackDepth depth a)"
  using keeps_resetAsyncCallTracker [of "a\<lparr>m_maxAsyncCallStackDepth := 0\<rparr>"]
  by (simp add: internalSetAsyncCallStackDepth_def keeps_def)

lemma keeps_trackers: "keeps a (clear_tracker a)" "keeps a (enable_tracker enabled captureStacks a)"
  by (simp_all add: clear_tracker_def enable_tracker_def promise_events_sent_def keeps_def split: prod.split)

lemma keeps_settings:
  "keeps a (snd (setBreakpointsActive E active a))" "keeps a (setSkipAllPauses skipped a)" "keeps a (snd (pause E a))"
  "keeps a (snd (skipStackFrames E pattern skip a))" "keeps a (snd (setAsyncCallStackDepth depth a))"
  "keeps a (snd (enablePromiseTracker captureStacks a))" "keeps a (snd (disablePromiseTracker a))"
  "keeps a (snd (setAsyncOperationBreakpoint i a))" "keeps a (snd (removeAsyncOperationBreakpoint i a))"
proof -
  show "keeps a (snd (setAsyncCallStackDepth depth a))"
    using keeps_depth [of "a\<lparr>a_state := ps\<rparr>" depth for ps] by (auto simp: setAsyncCallStackDepth_def keeps_def split: option.split)
  have tracker: "keeps a (enable_tracker x y (a\<lparr>a_state := ps\<rparr>))" for x y ps
    using keeps_trackers(2) [of "a\<lparr>a_state := ps\<rparr>" x y] by (simp add: keeps_def)
  show "keeps a (snd (enablePromiseTracker captureStacks a))" "keeps a (snd (disablePromiseTracker a))"
    using tracker by (auto simp: enablePromiseTracker_def disablePromiseTracker_def split: option.split)
  show "keeps a (snd (skipStackFrames E pattern skip a))"
    by (simp add: skipStackFrames_def increaseCachedSkipStackGeneration_def Let_def keeps_def split: option.split)
qed (simp_all add: setBreakpointsActive_def setSkipAllPauses_def pause_def pause_on_next_def clearStepIntoAsync_def clearBreakDetails_def
    setAsyncOperationBreakpoint_def removeAsyncOperationBreakpoint_def keeps_def split: option.split)

lemma keeps_didParseSource:
  assumes "didParseSource E scriptId script failed a = Val b"
  shows "keeps a b"
proof -
  obtain event s c where c: "send event a = Val c"
      "(if script_sourceURL s = [] \<or> failed then Val (c\<lparr>m_scripts := hset scriptId s (m_scripts c)\<rparr>)
        else with_cookies (c\<lparr>m_scripts := hset scriptId s (m_scripts c)\<rparr>)
          (\<lambda>cookies. resolve_cookies E scriptId (script_sourceURL s) (m_data cookies))) = Val b"
    using assms unfolding didParseSource_def Let_def bind_cxx_eq_Val by blast
  have "keeps a (c\<lparr>m_scripts := hset scriptId s (m_scripts c)\<rparr>)" using keeps_send [OF c(1)] by (simp add: keeps_def)
  moreover have "keeps (c\<lparr>m_scripts := hset scriptId s (m_scripts c)\<rparr>) b"
    using c(2) by (auto split: if_splits elim!: keeps_with_cookies dest: keeps_resolve_cookies)
  ultimately show ?thesis by (rule keeps_trans)
qed

lemma keeps_dispatch: "dispatchDidParseSource E object failed a = Val b \<Longrightarrow> keeps a b"
  by (cases "parsed_script object") (simp add: dispatchDidParseSource_def keeps_didParseSource)

lemma keeps_report_scripts: "report_scripts E objects a = Val b \<Longrightarrow> keeps a b"
  by (induction objects arbitrary: a) (auto elim!: bind_cxxE intro: keeps_trans [OF keeps_dispatch])

lemma enable_listens: "a_enable E a = Val b \<Longrightarrow> a_listening b"
  unfolding a_enable_def addListener_def reportCompiledScripts_def with_script_def
  by (elim bind_cxxE) (auto split: option.splits dest!: keeps_report_scripts simp: keeps_def)

lemma clear_unpauses: "a_pausedScriptState (a_clear a) = None"
  using keeps_depth [of "clear_stops a" 0] keeps_trackers(1) [of "internalSetAsyncCallStackDepth 0 (clear_stops a)"]
  by (simp add: a_clear_def clear_steps_def clearBreakDetails_def clearStepIntoAsync_def keeps_def clear_stops_def)

definition consistent :: "'w debugger_agent \<Rightarrow> bool" where
  "consistent a \<longleftrightarrow> (a_pausedScriptState a \<noteq> None \<longrightarrow> a_listening a)"

lemma consistent_keeps: "consistent a \<Longrightarrow> keeps a b \<Longrightarrow> consistent b"
  by (simp add: consistent_def keeps_def)

lemma execute_consistent:
  assumes "execute E command a = Val b" "consistent a"
  shows "consistent b"
proof -
  consider (enable) "enable E a = Val b" | (disable) "disable E a = Val b" | (other) "keeps a b"
    using assms(1)
    by (cases command) (auto simp: execute_def state_of_Val keeps_settings getFunctionDetails_def getGeneratorObjectDetails_def
        getCollectionEntries_def dest: keeps_setBreakpointByUrl keeps_setBreakpoint keeps_removeBreakpoint keeps_continueToLocation
        keeps_stepping keeps_resume keeps_mode keeps_evaluate keeps_setVariableValue keeps_getStepInPositions keeps_getBacktrace
        keeps_setScriptSource keeps_restartFrame keeps_inspect keeps_stop [OF flush_stop])
  thus ?thesis
  proof cases
    case enable
    thus ?thesis using assms(2) enable_listens [of E a b] by (auto simp: enable_def consistent_def split: if_splits)
  next
    case disable
    thus ?thesis using assms(2)
      by (auto simp: disable_def a_disable_def consistent_def clear_unpauses split: if_splits elim!: bind_cxxE)
  next
    case other
    thus ?thesis using assms(2) consistent_keeps by blast
  qed
qed

lemma nested_loop_consistent:
  "nested_loop (map (execute E) commands) a = Val (Some (b, rest)) \<Longrightarrow> consistent a \<Longrightarrow>
   consistent b \<and> (\<exists>n. rest = map (execute E) (drop n commands))"
proof (induction commands arbitrary: a)
  case (Cons command commands)
  obtain c where c: "execute E command a = Val c"
    "(if d_quitMessageLoop (a_debugger c) then Val (Some (c, map (execute E) commands)) else nested_loop (map (execute E) commands) c) = Val (Some (b, rest))"
    using Cons.prems(1) by (auto elim: bind_cxxE)
  have "consistent c" using execute_consistent [OF c(1) Cons.prems(2)] .
  thus ?case
  proof (cases "d_quitMessageLoop (a_debugger c)")
    case True
    thus ?thesis using c(2) \<open>consistent c\<close> by (auto intro: exI [of _ 1])
  next
    case False
    then obtain n where "consistent b" "rest = map (execute E) (drop n commands)" using Cons.IH [of c] c(2) \<open>consistent c\<close> by auto
    thus ?thesis by (auto intro: exI [of _ "Suc n"])
  qed
qed simp

lemma step_after_pause_unpaused:
  assumes "step_after_pause E result e a = Val b" "a_pausedScriptState a = None" "\<not> m_runningNestedMessageLoop (a_debugger a)"
  shows "unpaused b"
  using assms unfolding step_after_pause_def Let_def
  by (elim bind_cxxE) (auto simp: unpaused_def set_paused_state_def on_debugger_def d_step_def with_script_def native_def
      split: SkipPauseRequest.splits option.splits elim!: bind_cxxE)

lemma didPause_skips:
  assumes "didPause E s callFrames exception hits isPR a = Val (result, b)"
  shows "result \<noteq> NoSkip \<Longrightarrow> same_stop a b"
    and "result = NoSkip \<Longrightarrow> same_pause a b \<and> a_pausedScriptState b = Some s"
proof -
  obtain r c where c: "pause_decision E exception hits a = Val (r, c)"
    "(let a = c\<lparr>m_skipNextDebuggerStepOut := False\<rparr>
      in if r \<noteq> NoSkip then Val (r, a)
         else if callFrames = None then Val (SkipContinue, a)
         else bind_cxx (enter_pause E s callFrames exception hits isPR a) (\<lambda>a. Val (NoSkip, a))) = Val (result, b)"
    using assms by (auto simp: didPause_def elim: bind_cxxE)
  note stop = pause_decision_stop [OF c(1)]
  show "same_stop a b" if "result \<noteq> NoSkip"
    using c(2) that stop by (auto simp: Let_def split: if_splits elim!: bind_cxxE)
  show "same_pause a b \<and> a_pausedScriptState b = Some s" if "result = NoSkip"
    using c(2) that stop enter_pause_stop(1,2) [of E s callFrames exception hits isPR "c\<lparr>m_skipNextDebuggerStepOut := False\<rparr>" b]
    by (auto simp: Let_def same_stop_def same_pause_def split: if_splits elim!: bind_cxxE)
qed

lemma nested_pause_unpaused:
  assumes "bind_cxx (runMessageLoopOnPause (map (execute E) commands) a) (\<lambda>r.
      Val (map_option (\<lambda>(a, rest). (set_paused_state None (set_nested False a), rest)) r)) = Val (Some (b, rest))"
    and "consistent a"
  shows "unpaused b \<and> (\<exists>n. rest = map (execute E) (drop n commands))"
proof -
  obtain c where c: "runMessageLoopOnPause (map (execute E) commands) a = Val (Some (c, rest))" "b = set_paused_state None (set_nested False c)"
    using assms(1) by (auto elim!: bind_cxxE)
  let ?a = "a\<lparr>a_debugger := (a_debugger a)\<lparr>d_quitMessageLoop := False\<rparr>\<rparr>"
  obtain d where d: "nested_loop (map (execute E) commands) ?a = Val (Some (d, rest))"
    "(if a_listening d then bind_cxx (didContinue d) (\<lambda>a. Val (Some (a, rest))) else Val (Some (d, rest))) = Val (Some (c, rest))"
    using c(1) by (auto simp: runMessageLoopOnPause_def split: option.splits if_splits elim!: bind_cxxE)
  have "consistent ?a" using assms(2) by (simp add: consistent_def)
  from nested_loop_consistent [OF d(1) this] have "consistent d" "\<exists>n. rest = map (execute E) (drop n commands)" by blast+
  moreover have "a_pausedScriptState c = None"
    using d(2) \<open>consistent d\<close> by (auto simp: consistent_def didContinue_def send_def clearBreakDetails_def split: if_splits elim!: bind_cxxE)
  ultimately show ?thesis using c(2) by (simp add: unpaused_def set_paused_state_def set_nested_def)
qed

text \<open>
  C7: whatever commands arrive while the program is paused, when the pause ends
  nothing is left paused, neither in the agent nor in the debugger, and the
  commands that were not executed are a suffix of those that arrived.
\<close>

theorem pause_leaves_nothing:
  assumes "unpaused a"
    and "handleProgramBreak E (map (execute E) commands) s e exception hits isPR a = Val (Some (b, rest))"
  shows "unpaused b \<and> (\<exists>n. rest = map (execute E) (drop n commands))"
proof (cases "a_listening a")
  case False
  thus ?thesis using assms by (auto simp: handleProgramBreak_def unpaused_def intro: exI [of _ 0])
next
  case True
  let ?a = "set_paused_state (Some (s, e)) a"
  obtain callFrames d result c where d: "d_currentCallFrames (env_isolate E) (a_debugger ?a) = Val (callFrames, d)"
    and c: "didPause E s callFrames exception (map numberToStringImpl_digits hits) isPR (a\<lparr>a_debugger := d\<rparr>) = Val (result, c)"
    and rest: "(if result = NoSkip
         then bind_cxx (runMessageLoopOnPause (map (execute E) commands) (set_nested True c)) (\<lambda>r.
           Val (map_option (\<lambda>(a, rest). (set_paused_state None (set_nested False a), rest)) r))
         else bind_cxx (step_after_pause E result e (set_paused_state None c)) (\<lambda>a. Val (Some (a, map (execute E) commands)))) = Val (Some (b, rest))"
    using assms True by (auto simp: handleProgramBreak_def unpaused_def elim!: bind_cxxE)
  obtain w where w: "d = (a_debugger ?a)\<lparr>d_world := w\<rparr>" using d_currentCallFrames_world(1) [OF d] by blast
  show ?thesis
  proof (cases "result = NoSkip")
    case skip: True
    have "consistent (set_nested True c)"
      using didPause_skips(2) [OF c skip] True by (simp add: consistent_def set_nested_def same_pause_def)
    thus ?thesis using nested_pause_unpaused [of E commands "set_nested True c" b rest] rest skip by simp
  next
    case skip: False
    have "a_pausedScriptState c = None" "\<not> m_runningNestedMessageLoop (a_debugger c)"
      using didPause_skips(1) [OF c skip] w assms(1) by (simp_all add: same_stop_def same_pause_def unpaused_def set_paused_state_def)
    thus ?thesis using rest skip step_after_pause_unpaused [of E result e "set_paused_state None c" b]
      by (auto simp: set_paused_state_def intro: exI [of _ 0] elim!: bind_cxxE)
  qed
qed

lemma resume_ends_sample:
  "\<exists>b. handleProgramBreak sample_environment (map (execute sample_environment) [CmdResume, CmdPause]) 1 (Some 0) None [] False listening_agent =
    Val (Some (b, [execute sample_environment CmdPause]))"
proof -
  have task: "execute sample_environment CmdResume = task_of (resume sample_environment)"
    by (simp add: fun_eq_iff execute_def task_of_def state_of_def)
  have "\<exists>b. handleProgramBreak sample_environment (task_of (resume sample_environment) # [execute sample_environment CmdPause])
      1 (Some 0) None [] False listening_agent = Val (Some (b, [execute sample_environment CmdPause])) \<and> unpaused b \<and> last (a_events b) = Resumed"
    by (rule quitting_command_ends [OF sample_waits]) (use resume_quits in \<open>auto simp: quits_def\<close>)
  thus ?thesis using task by auto
qed

theorem pause_leaves_nothing_witness:
  "\<exists>b. handleProgramBreak sample_environment (map (execute sample_environment) [CmdResume, CmdPause]) 1 (Some 0) None [] False listening_agent =
    Val (Some (b, [execute sample_environment CmdPause])) \<and> unpaused b"
proof -
  obtain b where b: "handleProgramBreak sample_environment (map (execute sample_environment) [CmdResume, CmdPause]) 1 (Some 0) None [] False
      listening_agent = Val (Some (b, [execute sample_environment CmdPause]))"
    using resume_ends_sample ..
  have "unpaused listening_agent"
    by (simp add: unpaused_def listening_agent_def enabled_agent_def new_agent_def new_debugger_def)
  from pause_leaves_nothing [OF this b] b show ?thesis by blast
qed

section \<open>What disabling leaves behind\<close>

text \<open>
  Disabling the agent resets the stored pattern of the frames to skip, but not the
  compiled one, which is in force again when the agent is enabled; and it resets
  the member for skipping all pauses, but not the stored one, which comes back when
  the agent is restored.
\<close>

definition same_patterns :: "'w debugger_agent \<Rightarrow> 'w debugger_agent \<Rightarrow> bool" where
  "same_patterns a b \<longleftrightarrow> m_cachedSkipStackRegExp b = m_cachedSkipStackRegExp a \<and> m_skipContentScripts b = m_skipContentScripts a \<and> a_state b = a_state a"

lemma same_patterns_clear: "same_patterns a (a_clear a)"
proof -
  have completed: "same_patterns a (traceAsyncOperationCompleted n a)" for n and a :: "'a debugger_agent"
    by (simp add: same_patterns_def completed_defs Let_def)
  have current: "same_patterns a (clearCurrentAsyncOperation a)" for a :: "'a debugger_agent"
    using completed [of a "m_currentAsyncOperationId a"] by (simp add: clearCurrentAsyncOperation_def Let_def same_patterns_def)
  have "same_patterns a (internalSetAsyncCallStackDepth 0 (clear_stops a))"
    using current [of "(clear_stops a)\<lparr>m_maxAsyncCallStackDepth := 0\<rparr>"]
    by (simp add: internalSetAsyncCallStackDepth_def resetAsyncCallTracker_def clearStepIntoAsync_def clear_stops_def same_patterns_def)
  thus ?thesis
    by (simp add: a_clear_def clear_steps_def clearBreakDetails_def clearStepIntoAsync_def clear_tracker_def promise_events_sent_def
        same_patterns_def split: prod.split)
qed

lemma disable_keeps_patterns:
  assumes "disable E a = Val b" "a_enabled a"
  shows "m_cachedSkipStackRegExp b = m_cachedSkipStackRegExp a \<and> m_skipContentScripts b = m_skipContentScripts a \<and>
    state_getString (a_state b) key_skipStackPattern = Some [] \<and> \<not> m_skipAllPauses b \<and>
    state_getBoolean (a_state b) key_skipAllPauses = state_getBoolean (a_state a) key_skipAllPauses"
proof -
  obtain c where c: "removeListener E (a\<lparr>a_state := reset_settings (a_state a)\<rparr>) = Val c"
    "b = ((a_clear c)\<lparr>m_skipAllPauses := False\<rparr>)\<lparr>a_state := state_setBoolean key_debuggerEnabled False (a_state (a_clear c))\<rparr>"
    using assms by (auto simp: disable_def a_disable_def elim!: bind_cxxE)
  have "same_patterns (a\<lparr>a_state := reset_settings (a_state a)\<rparr>) c"
    using c(1) by (auto simp: removeListener_def on_debugger_def same_patterns_def elim!: bind_cxxE)
  hence "m_cachedSkipStackRegExp b = m_cachedSkipStackRegExp a" "m_skipContentScripts b = m_skipContentScripts a"
    "a_state b = state_setBoolean key_debuggerEnabled False (reset_settings (a_state a))" "\<not> m_skipAllPauses b"
    using same_patterns_clear [of c] c(2) by (simp_all add: same_patterns_def)
  moreover have "getValue (state_setBoolean key_debuggerEnabled False (reset_settings p)) key_skipStackPattern = Some (JSONString [])"
    "getValue (state_setBoolean key_debuggerEnabled False (reset_settings p)) key_skipAllPauses = getValue p key_skipAllPauses" for p
    by (simp_all add: reset_settings_def state_setBoolean_def state_setLong_def state_setString_def state_setObject_def key_defs lit_def)
  ultimately show ?thesis by (simp add: state_getString_def state_getBoolean_def)
qed

end
