(* ===== verification/Runtime_Agent.thy ===== *)
theory Runtime_Agent
  imports Debugger_Commands
begin

text \<open>
  The runtime agent of a worker (core/inspector/InspectorRuntimeAgent.cpp,
  core/inspector/WorkerRuntimeAgent.cpp) and the state of the inspector it shares with the
  debugger agent: evaluating and calling within a scope that does not pause on
  exceptions, properties, releasing objects, and announcing the context.
\<close>

section \<open>The worker and its inspector\<close>

text \<open>
  What the agents of a worker use besides the isolate: its script state, whether V8
  was asked to break, and compiling and running scripts.
\<close>

record 'w worker =
  wk_environment :: "'w environment"
  wk_scriptState :: nat
  wk_pausingOnNextStatement :: "'w \<Rightarrow> bool"
  wk_compile :: "wstr \<Rightarrow> wstr \<Rightarrow> 'w \<Rightarrow> compile_outcome \<times> 'w"
  wk_run :: "v8_value \<Rightarrow> 'w \<Rightarrow> run_outcome \<times> 'w"

abbreviation wk_isolate :: "'w worker \<Rightarrow> 'w isolate" where
  "wk_isolate W \<equiv> env_isolate (wk_environment W)"

abbreviation wk_platform :: "'w worker \<Rightarrow> platform" where
  "wk_platform W \<equiv> env_platform (wk_environment W)"

datatype runtime_event = ExecutionContextCreated json_object | ExecutionContextsCleared

text \<open>
  The runtime agent shares the debugger and the manager of the injected scripts with
  the debugger agent, so that both agents are parts of the inspector, together with
  the flag of its start.
\<close>

record runtime_agent =
  r_enabled :: bool
  r_state :: json_object
  r_frontend :: bool
  r_events :: "runtime_event list"
  r_scriptStateToId :: "(nat, int) hmap"

record 'w inspector =
  i_runtime :: runtime_agent
  i_debugger :: "'w debugger_agent"
  m_paused :: bool

definition new_runtime_agent :: runtime_agent where
  "new_runtime_agent = \<lparr>r_enabled = False, r_state = emptyObject, r_frontend = False, r_events = [], r_scriptStateToId = []\<rparr>"

definition key_runtimeEnabled :: wstr where
  "key_runtimeEnabled = lit ''runtimeEnabled''"

section \<open>The scope of a call\<close>

definition scope_setPauseOnExceptionsState :: "'w isolate \<Rightarrow> int \<Rightarrow> 'w v8_debugger \<Rightarrow> (int \<times> 'w v8_debugger) cxx" where
  "scope_setPauseOnExceptionsState V newState d =
    (if \<not> d_enabled d then Val (newState, d)
     else bind_cxx (d_pauseOnExceptionsState d) (\<lambda>presentState.
          bind_cxx (if presentState \<noteq> newState then d_setPauseOnExceptionsState V newState d else Val d) (\<lambda>d.
            Val (presentState, d))))"

definition scope_enter :: "'w isolate \<Rightarrow> bool \<Rightarrow> 'w v8_debugger \<Rightarrow> (int \<times> 'w v8_debugger) cxx" where
  "scope_enter V doNotPause d =
    (if \<not> doNotPause then Val (DontPauseOnExceptions, d) else scope_setPauseOnExceptionsState V DontPauseOnExceptions d)"

definition scope_leave :: "'w isolate \<Rightarrow> bool \<Rightarrow> int \<Rightarrow> 'w v8_debugger \<Rightarrow> 'w v8_debugger cxx" where
  "scope_leave V doNotPause previous d =
    (if \<not> doNotPause then Val d
     else bind_cxx (scope_setPauseOnExceptionsState V previous d) (\<lambda>(_, d). Val d))"

text \<open>A call of the injected script within the scope.\<close>

definition call_scoped :: "'w worker \<Rightarrow> bool \<Rightarrow> ('w \<Rightarrow> ('b \<times> 'w) cxx) \<Rightarrow> 'w debugger_agent \<Rightarrow> ('b \<times> 'w debugger_agent) cxx" where
  "call_scoped W doNotPause f a =
    bind_cxx (scope_enter (wk_isolate W) doNotPause (a_debugger a)) (\<lambda>(previous, d).
    bind_cxx (f (d_world d)) (\<lambda>(r, w).
    bind_cxx (scope_leave (wk_isolate W) doNotPause previous (d\<lparr>d_world := w\<rparr>)) (\<lambda>d.
      Val (r, a\<lparr>a_debugger := d\<rparr>))))"

section \<open>Operations\<close>

text \<open>
  The script to evaluate in.  Only an unknown id is an error: when the worker's own
  script could not be created the caller returns without one, and without a result.
\<close>

definition runtime_scriptForEval ::
  "'w worker \<Rightarrow> int option \<Rightarrow> 'w debugger_agent \<Rightarrow> (wstr + injected_script option) \<times> 'w debugger_agent" where
  "runtime_scriptForEval W executionContextId a =
    (case injectedScriptForEval (wk_environment W) (wk_scriptState W) executionContextId a of
       (_, script, a) \<Rightarrow>
         (if \<not> is_empty script then Inr (Some script)
          else case executionContextId of
            None \<Rightarrow> Inr None
          | Some _ \<Rightarrow> Inl (lit ''Execution context with given id not found.''), a))"

definition runtime_evaluate ::
  "'w worker \<Rightarrow> wstr \<Rightarrow> wstr option \<Rightarrow> bool option \<Rightarrow> bool option \<Rightarrow> int option \<Rightarrow> bool option \<Rightarrow> bool option \<Rightarrow>
   'w debugger_agent \<Rightarrow> (eval_result option, 'w) reply" where
  "runtime_evaluate W expression objectGroup includeCommandLineAPI doNotPause executionContextId returnByValue generatePreview a =
    (case runtime_scriptForEval W executionContextId a of
       (Inl error, a) \<Rightarrow> Val (Inl error, a)
     | (Inr None, a) \<Rightarrow> Val (Inr None, a)
     | (Inr (Some script), a) \<Rightarrow>
         bind_cxx (call_scoped W (doNotPause = Some True)
           (is_evaluate (iso_engine (wk_isolate W)) (is_empty script) expression (case objectGroup of None \<Rightarrow> [] | Some g \<Rightarrow> g)
             (includeCommandLineAPI = Some True) (returnByValue = Some True) (generatePreview = Some True)) a) (\<lambda>(r, a).
           Val (map_sum (\<lambda>e. e) Some r, a)))"

definition runtime_callFunctionOn ::
  "'w worker \<Rightarrow> wstr \<Rightarrow> wstr \<Rightarrow> json list option \<Rightarrow> bool option \<Rightarrow> bool option \<Rightarrow> bool option \<Rightarrow>
   'w debugger_agent \<Rightarrow> (eval_result, 'w) reply" where
  "runtime_callFunctionOn W objectId expression optionalArguments doNotPause returnByValue generatePreview a =
    bind_cxx (injectedScriptForObjectId (wk_platform W) objectId (m_injectedScriptManager a)) (\<lambda>script.
      if is_empty script then Val (Inl (lit ''Inspected frame has gone''), a)
      else bind_cxx (case optionalArguments of None \<Rightarrow> Val [] | Some args \<Rightarrow> toJSONString (wk_platform W) (JSONArray args)) (\<lambda>arguments.
        call_scoped W (doNotPause = Some True)
          (is_callFunctionOn (iso_engine (wk_isolate W)) (is_empty script) objectId expression arguments
            (returnByValue = Some True) (generatePreview = Some True)) a))"

text \<open>
  The properties and then the internal properties; an error of the second call
  replaces that of the first.
\<close>

record properties_result =
  pr_error :: wstr
  pr_result :: "json list option"
  pr_internalProperties :: "json list option"
  pr_exceptionDetails :: "json_object option"

definition properties_of ::
  "'w script_engine \<Rightarrow> wstr \<Rightarrow> bool \<Rightarrow> bool \<Rightarrow> bool \<Rightarrow> 'w \<Rightarrow> properties_result \<times> 'w" where
  "properties_of E objectId ownProperties accessorPropertiesOnly generatePreview w =
    (case is_getProperties E objectId ownProperties accessorPropertiesOnly generatePreview w of (r, w) \<Rightarrow>
      (let p = (case r of
             Inl error \<Rightarrow> \<lparr>pr_error = error, pr_result = None, pr_internalProperties = None, pr_exceptionDetails = None\<rparr>
           | Inr (ps, details) \<Rightarrow> \<lparr>pr_error = [], pr_result = Some ps, pr_internalProperties = None, pr_exceptionDetails = details\<rparr>)
       in if pr_exceptionDetails p = None \<and> \<not> accessorPropertiesOnly
          then (case is_getInternalProperties E objectId w of
                  (Inl error, w) \<Rightarrow> (p\<lparr>pr_error := error\<rparr>, w)
                | (Inr (internal, details), w) \<Rightarrow> (p\<lparr>pr_internalProperties := internal, pr_exceptionDetails := details\<rparr>, w))
          else (p, w)))"

definition runtime_getProperties ::
  "'w worker \<Rightarrow> wstr \<Rightarrow> bool option \<Rightarrow> bool option \<Rightarrow> bool option \<Rightarrow> 'w debugger_agent \<Rightarrow> (properties_result, 'w) reply" where
  "runtime_getProperties W objectId ownProperties accessorPropertiesOnly generatePreview a =
    bind_cxx (injectedScriptForObjectId (wk_platform W) objectId (m_injectedScriptManager a)) (\<lambda>script.
      if is_empty script then Val (Inl (lit ''Inspected frame has gone''), a)
      else bind_cxx (call_scoped W True
          (\<lambda>w. Val (properties_of (iso_engine (wk_isolate W)) objectId (ownProperties = Some True) (accessorPropertiesOnly = Some True)
            (generatePreview = Some True) w)) a) (\<lambda>(p, a). Val (Inr p, a)))"

text \<open>Releasing objects while V8 is not asked to break.\<close>

definition without_break :: "'w worker \<Rightarrow> ('w debugger_agent \<Rightarrow> 'w debugger_agent cxx) \<Rightarrow> 'w debugger_agent \<Rightarrow> 'w debugger_agent cxx" where
  "without_break W f a =
    (let pausing = wk_pausingOnNextStatement W (d_world (a_debugger a));
         a = (if pausing then pause_on_next (wk_isolate W) False a else a)
     in bind_cxx (f a) (\<lambda>a. Val (if pausing then pause_on_next (wk_isolate W) True a else a)))"

definition release_in_manager :: "platform \<Rightarrow> wstr \<Rightarrow> injected_manager \<Rightarrow> injected_manager cxx" where
  "release_in_manager P objectId m =
    bind_cxx (parseJSON P objectId) (\<lambda>parsedObjectId.
      (case Option.bind (Option.bind parsedObjectId asObject) (\<lambda>ob. getNumber_long ob (lit ''injectedScriptId'')) of
         None \<Rightarrow> Val m
       | Some injectedScriptId \<Rightarrow>
           (let i = sint (word_of_int injectedScriptId :: 32 word)
            in case hget (m_idToInjectedScript m) i of
                 None \<Rightarrow> Val m
               | Some script \<Rightarrow>
                   bind_cxx (releaseObject P objectId (m_native script)) (\<lambda>n.
                     Val (m\<lparr>m_idToInjectedScript := hset i (script\<lparr>m_native := n\<rparr>) (m_idToInjectedScript m)\<rparr>)))))"

definition runtime_releaseObject :: "'w worker \<Rightarrow> wstr \<Rightarrow> 'w debugger_agent \<Rightarrow> 'w debugger_agent cxx" where
  "runtime_releaseObject W objectId a =
    bind_cxx (injectedScriptForObjectId (wk_platform W) objectId (m_injectedScriptManager a)) (\<lambda>script.
      if is_empty script then Val a
      else without_break W (\<lambda>a.
        bind_cxx (release_in_manager (wk_platform W) objectId (m_injectedScriptManager a)) (\<lambda>m.
          Val (a\<lparr>m_injectedScriptManager := m\<rparr>))) a)"

definition on_manager ::
  "('w script_engine \<Rightarrow> injected_manager \<Rightarrow> 'w \<Rightarrow> injected_manager \<times> 'w) \<Rightarrow> 'w worker \<Rightarrow> 'w debugger_agent \<Rightarrow> 'w debugger_agent" where
  "on_manager f W a =
    (case f (iso_engine (wk_isolate W)) (m_injectedScriptManager a) (d_world (a_debugger a)) of
       (m, w) \<Rightarrow> a\<lparr>m_injectedScriptManager := m, a_debugger := (a_debugger a)\<lparr>d_world := w\<rparr>\<rparr>)"

definition runtime_releaseObjectGroup :: "'w worker \<Rightarrow> wstr \<Rightarrow> 'w debugger_agent \<Rightarrow> 'w debugger_agent cxx" where
  "runtime_releaseObjectGroup W objectGroup a =
    without_break W (\<lambda>a. Val (on_manager (\<lambda>E. manager_releaseObjectGroup E objectGroup) W a)) a"

definition runtime_setCustomObjectFormatterEnabled :: "'w worker \<Rightarrow> bool \<Rightarrow> 'w debugger_agent \<Rightarrow> 'w debugger_agent" where
  "runtime_setCustomObjectFormatterEnabled W enabled a = on_manager (\<lambda>E. manager_setCustomObjectFormatterEnabled E enabled) W a"

section \<open>Enabling\<close>

definition context_description :: "int \<Rightarrow> bool \<Rightarrow> wstr \<Rightarrow> wstr \<Rightarrow> json_object" where
  "context_description i isPageContext origin frameId =
    (let description = setString (lit ''frameId'') frameId (setString (lit ''origin'') origin
           (setString (lit ''name'') [] (setValue (lit ''id'') (number_json i) emptyObject)))
     in if isPageContext then setBoolean (lit ''isPageContext'') isPageContext description else description)"

definition runtime_send :: "runtime_event \<Rightarrow> 'w inspector \<Rightarrow> 'w inspector cxx" where
  "runtime_send e s =
    (if r_frontend (i_runtime s) then Val (s\<lparr>i_runtime := (i_runtime s)\<lparr>r_events := r_events (i_runtime s) @ [e]\<rparr>\<rparr>) else UB)"

definition addExecutionContextToFrontend :: "nat \<Rightarrow> bool \<Rightarrow> wstr \<Rightarrow> wstr \<Rightarrow> 'w inspector \<Rightarrow> 'w inspector cxx" where
  "addExecutionContextToFrontend scriptState isPageContext origin frameId s =
    (case injectedScriptIdFor scriptState (m_injectedScriptManager (i_debugger s)) of (i, m) \<Rightarrow>
       runtime_send (ExecutionContextCreated (context_description i isPageContext origin frameId))
         (s\<lparr>i_debugger := (i_debugger s)\<lparr>m_injectedScriptManager := m\<rparr>,
            i_runtime := (i_runtime s)\<lparr>r_scriptStateToId := hset scriptState i (r_scriptStateToId (i_runtime s))\<rparr>\<rparr>))"

definition set_runtimeEnabled :: "bool \<Rightarrow> runtime_agent \<Rightarrow> runtime_agent" where
  "set_runtimeEnabled enabled r = r\<lparr>r_enabled := enabled, r_state := state_setBoolean key_runtimeEnabled enabled (r_state r)\<rparr>"

definition context_name :: wstr where
  "context_name = lit ''WorkerRuntimeAgent::enable context name'' @ [10]"

definition runtime_enable :: "'w worker \<Rightarrow> 'w inspector \<Rightarrow> 'w inspector cxx" where
  "runtime_enable W s =
    (if r_enabled (i_runtime s) then Val s
     else addExecutionContextToFrontend (wk_scriptState W) True context_name []
            (s\<lparr>i_runtime := set_runtimeEnabled True (i_runtime s)\<rparr>))"

definition runtime_disable :: "'w inspector \<Rightarrow> 'w inspector" where
  "runtime_disable s =
    (if \<not> r_enabled (i_runtime s) then s
     else s\<lparr>i_runtime := set_runtimeEnabled False ((i_runtime s)\<lparr>r_scriptStateToId := []\<rparr>)\<rparr>)"

definition runtime_restore :: "'w worker \<Rightarrow> 'w inspector \<Rightarrow> 'w inspector cxx" where
  "runtime_restore W s =
    (if state_getBoolean (r_state (i_runtime s)) key_runtimeEnabled
     then bind_cxx (runtime_send ExecutionContextsCleared (s\<lparr>i_runtime := (i_runtime s)\<lparr>r_scriptStateToId := []\<rparr>\<rparr>)) (runtime_enable W)
     else Val s)"

definition resumeStartup :: "'w inspector \<Rightarrow> 'w inspector" where
  "resumeStartup s = s\<lparr>m_paused := False\<rparr>"

definition isRunRequired :: "'w inspector \<Rightarrow> bool" where
  "isRunRequired s = m_paused s"

definition pauseOnStart :: "'w inspector \<Rightarrow> 'w inspector" where
  "pauseOnStart s = s\<lparr>m_paused := True\<rparr>"

section \<open>What calls leave as it was\<close>

lemma scope_setPauseOnExceptionsState_Val:
  assumes "scope_setPauseOnExceptionsState V m d = Val (previous, d')"
  shows "m_debuggerScript d' = (if d_enabled d then Some m else m_debuggerScript d)"
    "if d_enabled d then m_debuggerScript d = Some previous else previous = m"
  using assms
  by (auto simp: scope_setPauseOnExceptionsState_def d_enabled_def bind_cxx_eq_Val d_pauseOnExceptionsState_def with_script_def
      script_pauseOnExceptionsState_def d_setPauseOnExceptionsState_def script_setPauseOnExceptionsState_def split: if_splits)

lemma scope_total: "\<exists>q d'. scope_setPauseOnExceptionsState V m d = Val (q, d')"
  using dm.mode_defined [of d] dm.set_mode_law [of d V m] by (cases "d_enabled d") (auto simp: scope_setPauseOnExceptionsState_def)

lemma call_scoped_mode:
  assumes "call_scoped W doNotPause f a = Val (r, b)"
  shows "m_debuggerScript (a_debugger b) = m_debuggerScript (a_debugger a)"
proof -
  obtain previous d w d' where d: "scope_enter (wk_isolate W) doNotPause (a_debugger a) = Val (previous, d)"
    "scope_leave (wk_isolate W) doNotPause previous (d\<lparr>d_world := w\<rparr>) = Val d'" "b = a\<lparr>a_debugger := d'\<rparr>"
    using assms by (auto simp: call_scoped_def bind_cxx_eq_Val)
  show ?thesis
  proof (cases doNotPause)
    case True
    then obtain q where q: "scope_setPauseOnExceptionsState (wk_isolate W) DontPauseOnExceptions (a_debugger a) = Val (previous, d)"
      "scope_setPauseOnExceptionsState (wk_isolate W) previous (d\<lparr>d_world := w\<rparr>) = Val (q, d')"
      using d by (auto simp: scope_enter_def scope_leave_def bind_cxx_eq_Val)
    show ?thesis using scope_setPauseOnExceptionsState_Val [OF q(1)] scope_setPauseOnExceptionsState_Val [OF q(2)] d(3)
      by (auto simp: d_enabled_def split: if_splits)
  qed (use d in \<open>auto simp: scope_enter_def scope_leave_def\<close>)
qed

lemma injectedScriptForEval_mode:
  "injectedScriptForEval E s i a = (state, script, b) \<Longrightarrow> m_debuggerScript (a_debugger b) = m_debuggerScript (a_debugger a)"
  using injectedScriptForEval_stop by (fastforce simp: same_stop_def same_pause_def)

lemma runtime_scriptForEval_mode:
  "runtime_scriptForEval W i a = (r, b) \<Longrightarrow> m_debuggerScript (a_debugger b) = m_debuggerScript (a_debugger a)"
  by (auto simp: runtime_scriptForEval_def dest: injectedScriptForEval_mode split: prod.splits)

lemma runtime_evaluate_mode:
  assumes "runtime_evaluate W expression objectGroup api doNotPause contextId byValue preview a = Val (r, b)"
  shows "m_debuggerScript (a_debugger b) = m_debuggerScript (a_debugger a)"
proof -
  obtain s c where c: "runtime_scriptForEval W contextId a = (s, c)" by fastforce
  note mode = runtime_scriptForEval_mode [OF c]
  show ?thesis
  proof (cases "\<exists>script. s = Inr (Some script)")
    case True
    then obtain script where "s = Inr (Some script)" by blast
    then obtain q :: "wstr + eval_result" and f where "call_scoped W (doNotPause = Some True) f c = Val (q, b)"
      using assms c by (auto simp: runtime_evaluate_def bind_cxx_eq_Val)
    from call_scoped_mode [OF this] mode show ?thesis by simp
  next
    case False
    hence "b = c" using assms c by (auto simp: runtime_evaluate_def split: sum.splits option.splits)
    thus ?thesis using mode by simp
  qed
qed

lemma runtime_callFunctionOn_mode:
  assumes "runtime_callFunctionOn W objectId expression args doNotPause byValue preview a = Val (r, b)"
  shows "m_debuggerScript (a_debugger b) = m_debuggerScript (a_debugger a)"
  using assms by (auto simp: runtime_callFunctionOn_def bind_cxx_eq_Val dest: call_scoped_mode split: if_splits)

lemma runtime_getProperties_mode:
  assumes "runtime_getProperties W objectId own accessors preview a = Val (r, b)"
  shows "m_debuggerScript (a_debugger b) = m_debuggerScript (a_debugger a)"
  using assms by (auto simp: runtime_getProperties_def bind_cxx_eq_Val dest: call_scoped_mode split: if_splits)

text \<open>
  C22: evaluating, calling a function and listing properties leave the compiled
  debugger script, and with it the mode for pausing on exceptions, as it was, on
  every path and whether or not the debugger is enabled.
\<close>

theorem runtime_calls_keep_mode:
  assumes "runtime_evaluate W expression objectGroup api doNotPause contextId byValue preview a = Val (r1, b) \<or>
    runtime_callFunctionOn W objectId declaration args doNotPause byValue preview a = Val (r2, b) \<or>
    runtime_getProperties W objectId own accessors preview a = Val (r3, b)"
  shows "m_debuggerScript (a_debugger b) = m_debuggerScript (a_debugger a)"
  using assms by (auto dest: runtime_evaluate_mode runtime_callFunctionOn_mode runtime_getProperties_mode)

definition sample_worker :: "sample_world worker" where
  "sample_worker =
    \<lparr>wk_environment = sample_environment, wk_scriptState = 1, wk_pausingOnNextStatement = sw_pauseRequested,
     wk_compile = \<lambda>e u w. (NotCompiled None, w), wk_run = \<lambda>v w. (Ran v, w)\<rparr>"

lemma sample_evaluate:
  assumes "m_injectedScriptManager a = createForWorker"
  shows "\<exists>e b. runtime_evaluate sample_worker [] None None (Some True) None None None a = Val (Inl e, b)"
proof -
  obtain script c where c: "script_for sample_environment 1 a = (script, c)" "\<not> is_empty script"
    using sample_script_for [OF assms] by blast
  obtain previous d where d: "scope_setPauseOnExceptionsState sample_isolate DontPauseOnExceptions (a_debugger c) = Val (previous, d)"
    using scope_total by blast
  obtain q d' where "scope_setPauseOnExceptionsState sample_isolate previous d = Val (q, d')"
    using scope_total by blast
  thus ?thesis using c d
    by (auto simp: runtime_evaluate_def runtime_scriptForEval_def injectedScriptForEval_def call_scoped_def scope_enter_def scope_leave_def
        sample_worker_def sample_environment_def sample_isolate_def is_evaluate_def makeEvalCall_def makeCall_def
        canAccessInspectedWorkerGlobalScope_def callFunctionWithEvalEnabled_def sample_engine_def asString_def asObject_def)
qed

theorem runtime_calls_keep_mode_witness:
  "\<exists>e b. runtime_evaluate sample_worker [] None None (Some True) None None None compiled_agent = Val (Inl e, b) \<and>
    m_debuggerScript (a_debugger b) = Some PauseOnAllExceptions"
proof -
  have "m_injectedScriptManager compiled_agent = createForWorker"
    by (simp add: compiled_agent_def enabled_agent_def new_agent_def)
  then obtain e b where b: "runtime_evaluate sample_worker [] None None (Some True) None None None compiled_agent = Val (Inl e, b)"
    using sample_evaluate by blast
  show ?thesis using runtime_calls_keep_mode [OF disjI1 [OF b]] b by (simp add: compiled_agent_def)
qed

text \<open>Releasing objects does not lose a break that was asked for.\<close>

lemma without_break_keeps_request:
  assumes "\<And>w. wk_pausingOnNextStatement W (iso_debugBreak (wk_isolate W) True w)"
    and "wk_pausingOnNextStatement W (d_world (a_debugger a))" and "without_break W f a = Val b"
  shows "wk_pausingOnNextStatement W (d_world (a_debugger b))"
  using assms by (auto simp: without_break_def bind_cxx_eq_Val pause_on_next_def d_setPauseOnNextStatement_def native_def)

text \<open>The context is announced once, under the id of its injected script.\<close>

lemma runtime_enable_announces:
  assumes "r_frontend (i_runtime s)" and "\<not> r_enabled (i_runtime s)"
  shows "\<exists>t i. runtime_enable W s = Val t \<and> runtime_enable W t = Val t \<and>
    hget (m_scriptStateToId (m_injectedScriptManager (i_debugger t))) (wk_scriptState W) = Some i \<and>
    r_events (i_runtime t) = r_events (i_runtime s) @ [ExecutionContextCreated (context_description i True context_name [])]"
proof -
  obtain i m where m: "injectedScriptIdFor (wk_scriptState W) (m_injectedScriptManager (i_debugger s)) = (i, m)" by fastforce
  hence "hget (m_scriptStateToId m) (wk_scriptState W) = Some i"
    by (auto simp: injectedScriptIdFor_def split: option.splits)
  thus ?thesis using assms m
    by (auto simp: runtime_enable_def addExecutionContextToFrontend_def runtime_send_def set_runtimeEnabled_def)
qed

end
