(* ===== verification/Frontend_Messages.thy ===== *)
theory Frontend_Messages
  imports Runtime_Agent
begin

text \<open>
  The messages of the protocol (core/InspectorFrontend.cpp, the names of enumeration
  constants of core/InspectorTypeBuilder.cpp, and the responses of
  core/InspectorBackendDispatcher.cpp): the JSON of every event and response, and that a
  message built from well-formed values can be printed.
\<close>

section \<open>Names of enumeration constants\<close>

definition enum_constant_values :: "string list" where
  "enum_constant_values =
    [''Document'', ''Stylesheet'', ''Image'', ''Media'', ''Font'', ''Script'', ''TextTrack'', ''XHR'', ''WebSocket'', ''Other'',
     ''object'', ''function'', ''undefined'', ''string'', ''number'', ''boolean'', ''symbol'', ''array'', ''null'', ''node'',
     ''regexp'', ''date'', ''map'', ''set'', ''iterator'', ''generator'', ''error'', ''accessor'', ''xml'', ''javascript'',
     ''network'', ''console-api'', ''storage'', ''appcache'', ''rendering'', ''security'', ''other'', ''deprecation'', ''log'',
     ''warning'', ''debug'', ''info'', ''revokedError'', ''dir'', ''dirxml'', ''table'', ''trace'', ''clear'', ''startGroup'',
     ''startGroupCollapsed'', ''endGroup'', ''assert'', ''profile'', ''profileEnd'', ''parser'', ''script'', ''first-line'',
     ''first-letter'', ''before'', ''after'', ''backdrop'', ''selection'', ''first-line-inherited'', ''scrollbar'',
     ''scrollbar-thumb'', ''scrollbar-button'', ''scrollbar-track'', ''scrollbar-track-piece'', ''scrollbar-corner'',
     ''resizer'', ''input-list-button'', ''user-agent'', ''author'', ''injected'', ''inspector'', ''regular'', ''mediaRule'',
     ''importRule'', ''linkedSheet'', ''inlineSheet'', ''running'', ''suspended'', ''closed'', ''global'', ''local'', ''with'',
     ''closure'', ''catch'', ''block'', ''pending'', ''resolved'', ''rejected'', ''subtree-modified'', ''attribute-modified'',
     ''node-removed'', ''stopped'', ''starting'', ''stopping'', ''new'', ''installing'', ''installed'', ''activating'',
     ''activated'', ''redundant'', ''touchPressed'', ''touchReleased'', ''touchMoved'', ''touchStationary'', ''touchCancelled'',
     ''default'', ''touch'', ''mouse'', ''RepaintsOnScroll'', ''TouchEventHandler'', ''WheelEventHandler'', ''CSSTransition'',
     ''CSSAnimation'', ''WebAnimation'', ''tristate'', ''booleanOrUndefined'', ''idref'', ''idrefList'', ''integer'', ''token'',
     ''tokenList'', ''domRelation'', ''role'', ''internalRole'', ''attribute'', ''implicit'', ''style'', ''disabled'',
     ''hidden'', ''hiddenRoot'', ''invalid'', ''live'', ''atomic'', ''relevant'', ''busy'', ''root'', ''autocomplete'',
     ''haspopup'', ''level'', ''multiselectable'', ''orientation'', ''multiline'', ''readonly'', ''required'', ''valuemin'',
     ''valuemax'', ''valuetext'', ''checked'', ''expanded'', ''pressed'', ''selected'', ''activedescendant'', ''flowto'',
     ''controls'', ''describedby'', ''labelledby'', ''owns'', ''DOM'', ''EventListener'', ''exception'', ''CSPViolation'',
     ''debugCommand'', ''promiseRejection'', ''AsyncOperation'', ''update'', ''gc'']"

definition getEnumConstantValue :: "nat \<Rightarrow> wstr cxx" where
  "getEnumConstantValue code = (if code < length enum_constant_values then Val (lit (enum_constant_values ! code)) else UB)"

fun reason_code :: "Reason \<Rightarrow> nat" where
  "reason_code ReasonXHR = 7"
| "reason_code ReasonDOM = 161"
| "reason_code ReasonEventListener = 162"
| "reason_code ReasonException = 163"
| "reason_code ReasonAssert = 51"
| "reason_code ReasonCSPViolation = 164"
| "reason_code ReasonDebugCommand = 165"
| "reason_code ReasonPromiseRejection = 166"
| "reason_code ReasonAsyncOperation = 167"
| "reason_code ReasonOther = 36"

fun event_type_code :: "EventType \<Rightarrow> nat" where
  "event_type_code New = 98"
| "event_type_code Update = 168"
| "event_type_code Gc = 169"

section \<open>Notifications\<close>

definition notification :: "string \<Rightarrow> json_object option \<Rightarrow> json_object" where
  "notification name params =
    (let jsonMessage = setString (lit ''method'') (lit name) emptyObject
     in case params of None \<Rightarrow> jsonMessage | Some paramsObject \<Rightarrow> setObject (lit ''params'') paramsObject jsonMessage)"

definition runtime_message :: "runtime_event \<Rightarrow> json_object" where
  "runtime_message e =
    (case e of
       ExecutionContextCreated context \<Rightarrow>
         notification ''Runtime.executionContextCreated'' (Some (setObject (lit ''context'') context emptyObject))
     | ExecutionContextsCleared \<Rightarrow> notification ''Runtime.executionContextsCleared'' None)"

text \<open>A flag of a script is passed only when it is set.\<close>

definition script_params :: "script_event \<Rightarrow> json_object" where
  "script_params e =
    (let p = setValue (lit ''endColumn'') (number_json (se_endColumn e)) (setValue (lit ''endLine'') (number_json (se_endLine e))
           (setValue (lit ''startColumn'') (number_json (se_startColumn e)) (setValue (lit ''startLine'') (number_json (se_startLine e))
           (setString (lit ''url'') (se_url e) (setString (lit ''scriptId'') (se_scriptId e) emptyObject)))));
         p = (if se_isContentScript e then setBoolean (lit ''isContentScript'') True p else p);
         p = (if se_isInternalScript e then setBoolean (lit ''isInternalScript'') True p else p);
         p = (case se_sourceMapURL e of None \<Rightarrow> p | Some url \<Rightarrow> setString (lit ''sourceMapURL'') url p)
     in if se_hasSourceURL e then setBoolean (lit ''hasSourceURL'') True p else p)"

definition paused_params :: "json list \<Rightarrow> wstr \<Rightarrow> json_object option \<Rightarrow> wstr list \<Rightarrow> json_object option \<Rightarrow> json_object" where
  "paused_params callFrames reason data hitBreakpoints asyncStackTrace =
    (let p = setString (lit ''reason'') reason (setArray (lit ''callFrames'') callFrames emptyObject);
         p = (case data of None \<Rightarrow> p | Some d \<Rightarrow> setObject (lit ''data'') d p);
         p = setArray (lit ''hitBreakpoints'') (map JSONString hitBreakpoints) p
     in case asyncStackTrace of None \<Rightarrow> p | Some trace \<Rightarrow> setObject (lit ''asyncStackTrace'') trace p)"

definition debugger_message :: "debugger_event \<Rightarrow> json_object cxx" where
  "debugger_message e =
    (case e of
       ScriptParsed s \<Rightarrow> Val (notification ''Debugger.scriptParsed'' (Some (script_params s)))
     | ScriptFailedToParse s \<Rightarrow> Val (notification ''Debugger.scriptFailedToParse'' (Some (script_params s)))
     | BreakpointResolved breakpointId location \<Rightarrow>
         Val (notification ''Debugger.breakpointResolved''
           (Some (setObject (lit ''location'') location (setString (lit ''breakpointId'') breakpointId emptyObject))))
     | Paused callFrames reason data hitBreakpoints asyncStackTrace \<Rightarrow>
         bind_cxx (getEnumConstantValue (reason_code reason)) (\<lambda>name.
           Val (notification ''Debugger.paused'' (Some (paused_params callFrames name data hitBreakpoints asyncStackTrace))))
     | Resumed \<Rightarrow> Val (notification ''Debugger.resumed'' None)
     | GlobalObjectCleared \<Rightarrow> Val (notification ''Debugger.globalObjectCleared'' None)
     | PromiseUpdated eventType promise \<Rightarrow>
         bind_cxx (getEnumConstantValue (event_type_code eventType)) (\<lambda>name.
           Val (notification ''Debugger.promiseUpdated''
             (Some (setObject (lit ''promise'') promise (setString (lit ''eventType'') name emptyObject)))))
     | AsyncOperationStarted operation \<Rightarrow>
         Val (notification ''Debugger.asyncOperationStarted'' (Some (setObject (lit ''operation'') operation emptyObject)))
     | AsyncOperationCompleted i \<Rightarrow>
         Val (notification ''Debugger.asyncOperationCompleted'' (Some (setValue (lit ''id'') (number_json i) emptyObject))))"

section \<open>Responses\<close>

datatype CommonErrorCode = ParseError | InvalidRequest | MethodNotFound | InvalidParams | InternalError | ServerError

fun m_commonErrors :: "CommonErrorCode \<Rightarrow> int" where
  "m_commonErrors ParseError = - 32700"
| "m_commonErrors InvalidRequest = - 32600"
| "m_commonErrors MethodNotFound = - 32601"
| "m_commonErrors InvalidParams = - 32602"
| "m_commonErrors InternalError = - 32603"
| "m_commonErrors ServerError = - 32000"

definition reportProtocolError :: "int \<Rightarrow> CommonErrorCode \<Rightarrow> wstr \<Rightarrow> json option \<Rightarrow> json_object" where
  "reportProtocolError callId code errorMessage data =
    (let error = setString (lit ''message'') errorMessage (setValue (lit ''code'') (number_json (m_commonErrors code)) emptyObject);
         error = (case data of None \<Rightarrow> error | Some d \<Rightarrow> setValue (lit ''data'') d error)
     in setValue (lit ''id'') (number_json callId) (setObject (lit ''error'') error emptyObject))"

definition sendResponse :: "int \<Rightarrow> wstr \<Rightarrow> json option \<Rightarrow> json_object \<Rightarrow> json_object" where
  "sendResponse callId invocationError errorData result =
    (if invocationError \<noteq> [] then reportProtocolError callId ServerError invocationError errorData
     else setObject (lit ''result'') result (setValue (lit ''id'') (number_json callId) emptyObject))"

section \<open>Messages can be sent\<close>

text \<open>The table of the enumeration constants has the names the protocol uses at the codes of the program.\<close>

lemma reason_names:
  "getEnumConstantValue (reason_code r) = Val (lit (case r of
     ReasonXHR \<Rightarrow> ''XHR'' | ReasonDOM \<Rightarrow> ''DOM'' | ReasonEventListener \<Rightarrow> ''EventListener'' | ReasonException \<Rightarrow> ''exception''
   | ReasonAssert \<Rightarrow> ''assert'' | ReasonCSPViolation \<Rightarrow> ''CSPViolation'' | ReasonDebugCommand \<Rightarrow> ''debugCommand''
   | ReasonPromiseRejection \<Rightarrow> ''promiseRejection'' | ReasonAsyncOperation \<Rightarrow> ''AsyncOperation'' | ReasonOther \<Rightarrow> ''other''))"
  by (cases r) (simp_all add: getEnumConstantValue_def enum_constant_values_def)

lemma event_type_names:
  "getEnumConstantValue (event_type_code t) = Val (lit (case t of New \<Rightarrow> ''new'' | Update \<Rightarrow> ''update'' | Gc \<Rightarrow> ''gc''))"
  by (cases t) (simp_all add: getEnumConstantValue_def enum_constant_values_def)

text \<open>The payload of an event is made of well-formed values.\<close>

fun event_ok :: "debugger_event \<Rightarrow> bool" where
  "event_ok (BreakpointResolved i location) = object_ok location"
| "event_ok (Paused callFrames reason data hits trace) =
    (list_all json_ok callFrames \<and> (case data of None \<Rightarrow> True | Some d \<Rightarrow> object_ok d) \<and>
     (case trace of None \<Rightarrow> True | Some t \<Rightarrow> object_ok t))"
| "event_ok (PromiseUpdated t promise) = object_ok promise"
| "event_ok (AsyncOperationStarted operation) = object_ok operation"
| "event_ok _ = True"

lemma notification_lookups [simp]:
  "getValue (notification name params) (lit ''method'') = Some (JSONString (lit name))"
  "getValue (notification name params) (lit ''id'') = None"
  by (auto simp: notification_def setString_def setObject_def Let_def split: option.splits)

lemma notification_ok [simp]: "(case params of None \<Rightarrow> True | Some p \<Rightarrow> object_ok p) \<Longrightarrow> object_ok (notification name params)"
  by (auto simp: notification_def setString_def setObject_def Let_def split: option.splits)

lemma script_params_ok [simp]: "object_ok (script_params e)"
  by (auto simp: script_params_def setString_def setBoolean_def Let_def number_json_def split: option.splits)

lemma debugger_message_ok:
  assumes "event_ok e"
  shows "\<exists>m name. debugger_message e = Val m \<and> object_ok m \<and>
    getValue m (lit ''method'') = Some (JSONString (lit name)) \<and> getValue m (lit ''id'') = None"
  using assms
  by (cases e) (auto simp: debugger_message_def reason_names event_type_names paused_params_def setString_def setObject_def setArray_def
      Let_def number_json_def list_all_iff split: option.splits)

lemma reportProtocolError_lookups [simp]:
  "getValue (reportProtocolError callId code message data) (lit ''id'') = Some (number_json callId)"
  "getValue (reportProtocolError callId code message data) (lit ''method'') = None"
  "getValue (reportProtocolError callId code message data) (lit ''result'') = None"
  by (auto simp: reportProtocolError_def setString_def setObject_def Let_def split: option.splits)

lemma sendResponse_lookups [simp]:
  "getValue (sendResponse callId error data result) (lit ''id'') = Some (number_json callId)"
  "getValue (sendResponse callId error data result) (lit ''method'') = None"
  by (auto simp: sendResponse_def setObject_def)

definition error_code :: "json_object \<Rightarrow> json option" where
  "error_code m = Option.bind (getObject m (lit ''error'')) (\<lambda>e. getValue e (lit ''code''))"

lemma error_code_report [simp]: "error_code (reportProtocolError callId code message data) = Some (number_json (m_commonErrors code))"
  by (auto simp: error_code_def reportProtocolError_def setString_def setObject_def getObject_def asObject_def Let_def split: option.splits)

lemma error_code_response: "error_code (sendResponse callId error data result) = (if error \<noteq> [] then Some (number_json (m_commonErrors ServerError)) else None)"
  by (auto simp: sendResponse_def) (auto simp: error_code_def setObject_def getObject_def)

lemma response_ok:
  assumes "object_ok result" and "case data of None \<Rightarrow> True | Some d \<Rightarrow> json_ok d"
  shows "object_ok (sendResponse callId error data result)" "object_ok (reportProtocolError callId code message data)"
  using assms
  by (auto simp: sendResponse_def reportProtocolError_def setString_def setObject_def number_json_def Let_def split: option.splits)

end
