(* ===== verification/Dispatcher_Handlers.thy ===== *)
theory Dispatcher_Handlers
  imports Frontend_Messages
begin

text \<open>
  The handlers of the backend dispatcher for the Runtime and the Debugger domain
  (core/InspectorBackendDispatcher.cpp): reading parameters with their complaints, the calls
  of the agents and what they answer; that well-typed parameters always give a call, and
  that the calls of the debugger agent change its state as its commands do.
\<close>

section \<open>Parameters\<close>

datatype param_type = PInt | PDouble | PString | PBoolean | PObject | PArray
datatype param_value = VInt int | VDouble double | VString wstr | VBoolean bool | VObject json_object | VArray "json list"
datatype param = Required (p_type: param_type) (p_name: string) | Optional (p_type: param_type) (p_name: string)

fun type_name :: "param_type \<Rightarrow> string" where
  "type_name PInt = ''Number''"
| "type_name PDouble = ''Number''"
| "type_name PString = ''String''"
| "type_name PBoolean = ''Boolean''"
| "type_name PObject = ''Object''"
| "type_name PArray = ''Array''"

fun as_method :: "param_type \<Rightarrow> json \<Rightarrow> param_value option" where
  "as_method PInt v = map_option VInt (asNumber_int v)"
| "as_method PDouble v = map_option VDouble (asNumber_double v)"
| "as_method PString v = map_option VString (asString v)"
| "as_method PBoolean v = map_option VBoolean (asBoolean v)"
| "as_method PObject v = map_option VObject (asObject v)"
| "as_method PArray v = map_option VArray (asArray v)"

fun is_required :: "param \<Rightarrow> bool" where
  "is_required (Required t n) = True"
| "is_required (Optional t n) = False"

definition quoted :: "string \<Rightarrow> wstr" where
  "quoted s = [39] @ lit s @ [39]"

text \<open>
  Reading a parameter of a message: its value, when it has one of the right type,
  and the complaints so far.  A parameter that is missing gives a complaint only
  when it is required, one of a wrong type always.
\<close>

definition getPropertyValueImpl :: "json_object option \<Rightarrow> param \<Rightarrow> json list \<Rightarrow> param_value option \<times> json list" where
  "getPropertyValueImpl ob p protocolErrors =
    (let complain = (\<lambda>e. (None, protocolErrors @ [JSONString e]));
         ofType = quoted (p_name p) @ lit '' with type '' @ quoted (type_name (p_type p))
     in case ob of
          None \<Rightarrow>
            (if is_required p then complain (quoted ''params'' @ lit '' object must contain required parameter '' @ ofType @ lit ''.'')
             else (None, protocolErrors))
        | Some ob \<Rightarrow>
            (case getValue ob (lit (p_name p)) of
               None \<Rightarrow>
                 (if is_required p then complain (lit ''Parameter '' @ ofType @ lit '' was not found.'') else (None, protocolErrors))
             | Some v \<Rightarrow>
                 (case as_method (p_type p) v of
                    None \<Rightarrow> complain (lit ''Parameter '' @ quoted (p_name p) @ lit '' has wrong type. It must be '' @
                                quoted (type_name (p_type p)) @ lit ''.'')
                  | Some x \<Rightarrow> (Some x, protocolErrors))))"

fun read_parameters :: "json_object option \<Rightarrow> param list \<Rightarrow> json list \<Rightarrow> param_value option list \<times> json list" where
  "read_parameters ob [] protocolErrors = ([], protocolErrors)"
| "read_parameters ob (p # ps) protocolErrors =
    (case getPropertyValueImpl ob p protocolErrors of
       (v, protocolErrors) \<Rightarrow>
         (case read_parameters ob ps protocolErrors of (vs, protocolErrors) \<Rightarrow> (v # vs, protocolErrors)))"

text \<open>
  What a handler passes on: a required parameter by value, with the initial value
  where none was read, an optional one as a pointer that is null when it was not found.
\<close>

fun in_int :: "param_value option \<Rightarrow> int" where
  "in_int (Some (VInt i)) = i" | "in_int _ = 0"

fun in_string :: "param_value option \<Rightarrow> wstr" where
  "in_string (Some (VString s)) = s" | "in_string _ = []"

fun in_bool :: "param_value option \<Rightarrow> bool" where
  "in_bool (Some (VBoolean b)) = b" | "in_bool _ = False"

fun opt_int :: "param_value option \<Rightarrow> int option" where
  "opt_int (Some (VInt i)) = Some i" | "opt_int _ = None"

fun opt_string :: "param_value option \<Rightarrow> wstr option" where
  "opt_string (Some (VString s)) = Some s" | "opt_string _ = None"

fun opt_bool :: "param_value option \<Rightarrow> bool option" where
  "opt_bool (Some (VBoolean b)) = Some b" | "opt_bool _ = None"

fun opt_object :: "param_value option \<Rightarrow> json_object option" where
  "opt_object (Some (VObject ob)) = Some ob" | "opt_object _ = None"

fun opt_array :: "param_value option \<Rightarrow> json list option" where
  "opt_array (Some (VArray vs)) = Some vs" | "opt_array _ = None"

section \<open>Calls of the agents\<close>

datatype call =
    Command debugger_command
  | CompileScript wstr wstr bool "int option"
  | RunScript wstr "int option" "wstr option" "bool option"
  | GetScriptSource wstr
  | SearchInContent wstr wstr "bool option" "bool option"
  | CanSetScriptSource
  | GetPromiseById int "wstr option"
  | Evaluate wstr "wstr option" "bool option" "bool option" "int option" "bool option" "bool option"
  | CallFunctionOn wstr wstr "json list option" "bool option" "bool option" "bool option"
  | GetProperties wstr "bool option" "bool option" "bool option"
  | ReleaseObject wstr
  | ReleaseObjectGroup wstr
  | Run | RuntimeEnable | RuntimeDisable | IsRunRequired
  | SetCustomObjectFormatterEnabled bool

text \<open>
  The outcome of a call: the error, empty when there is none, the data of the error
  and the members of the result.  A member that must be there and is null has no
  defined behaviour, since the message cannot be printed.
\<close>

datatype answer = Answer (ans_error: wstr) (ans_data: "json option") (ans_result: json_object)

definition need :: "'b option \<Rightarrow> ('b \<Rightarrow> 'c cxx) \<Rightarrow> 'c cxx" where
  "need v f = (case v of None \<Rightarrow> UB | Some x \<Rightarrow> f x)"

definition done_answer :: answer where
  "done_answer = Answer [] None emptyObject"

definition plain_answer :: "wstr option \<Rightarrow> answer" where
  "plain_answer error = Answer (case error of None \<Rightarrow> [] | Some e \<Rightarrow> e) None emptyObject"

text \<open>\<open>missing\<close> is the result when the error is an empty text; \<open>None\<close> stands for a null member.\<close>

definition answer_of :: "json_object option \<Rightarrow> ('b \<Rightarrow> json_object cxx) \<Rightarrow> wstr + 'b \<Rightarrow> answer cxx" where
  "answer_of missing render r =
    (case r of
       Inl error \<Rightarrow> (if error \<noteq> [] then Val (Answer error None emptyObject) else need missing (\<lambda>ob. Val (Answer [] None ob)))
     | Inr v \<Rightarrow> bind_cxx (render v) (\<lambda>ob. Val (Answer [] None ob)))"

definition reply_answer :: "(wstr + 'b \<Rightarrow> answer cxx) \<Rightarrow> ((wstr + 'b) \<times> 's) cxx \<Rightarrow> (answer \<times> 's) cxx" where
  "reply_answer f r = bind_cxx r (\<lambda>(r, s). bind_cxx (f r) (\<lambda>answer. Val (answer, s)))"

definition command_answer :: "(wstr option \<times> 's) cxx \<Rightarrow> (answer \<times> 's) cxx" where
  "command_answer r = bind_cxx r (\<lambda>(error, s). Val (plain_answer error, s))"

definition state_answer :: "'s cxx \<Rightarrow> (answer \<times> 's) cxx" where
  "state_answer r = bind_cxx r (\<lambda>s. Val (done_answer, s))"

definition optional_object :: "string \<Rightarrow> json_object option \<Rightarrow> json_object \<Rightarrow> json_object" where
  "optional_object name v ob = (case v of None \<Rightarrow> ob | Some x \<Rightarrow> setObject (lit name) x ob)"

definition eval_members :: "eval_result \<Rightarrow> json_object" where
  "eval_members r =
    optional_object ''exceptionDetails'' (er_exceptionDetails r)
      (setBoolean (lit ''wasThrown'') (er_wasThrown r) (setObject (lit ''result'') (er_result r) emptyObject))"

definition frames_members :: "json list \<times> json_object option \<Rightarrow> json_object" where
  "frames_members r = optional_object ''asyncStackTrace'' (snd r) (setArray (lit ''callFrames'') (fst r) emptyObject)"

definition source_members :: "json list \<Rightarrow> json_object option \<Rightarrow> json_object option \<Rightarrow> json_object" where
  "source_members frames trace result =
    optional_object ''asyncStackTrace'' trace (optional_object ''result'' result (setArray (lit ''callFrames'') frames emptyObject))"

definition source_error_data :: "wstr \<times> int \<times> int \<Rightarrow> json_object" where
  "source_error_data d =
    (case d of (message, line, column) \<Rightarrow>
      setObject (lit ''compileError'')
        (setValue (lit ''columnNumber'') (number_json column) (setValue (lit ''lineNumber'') (number_json line)
          (setString (lit ''message'') message emptyObject))) emptyObject)"

definition setScriptSource_answer ::
  "((source_error + (json list \<times> json_object option) \<times> json_object option) \<times> 's) cxx \<Rightarrow> (answer \<times> 's) cxx" where
  "setScriptSource_answer r =
    bind_cxx r (\<lambda>(r, s). Val
      (case r of
         Inl (SourceError error data) \<Rightarrow> Answer error (map_option (\<lambda>d. JSONObject (source_error_data d)) data) emptyObject
       | Inr ((frames, trace), result) \<Rightarrow> Answer [] None (source_members frames trace result), s))"

definition restartFrame_answer ::
  "((wstr option \<times> json_object option \<times> (json list \<times> json_object option) option) \<times> 's) cxx \<Rightarrow> (answer \<times> 's) cxx" where
  "restartFrame_answer r =
    bind_cxx r (\<lambda>((error, result, frames), s).
      (case error of
         Some (c # e) \<Rightarrow> Val (Answer (c # e) None emptyObject, s)
       | _ \<Rightarrow> need frames (\<lambda>(frames, trace). need result (\<lambda>result.
           Val (Answer [] None (source_members frames trace (Some result)), s)))))"

text \<open>The result of a debugger command that answers more than its error.\<close>

definition breakpoint_answer :: "('b \<Rightarrow> json) \<Rightarrow> string \<Rightarrow> ((wstr + wstr \<times> 'b) \<times> 's) cxx \<Rightarrow> (answer \<times> 's) cxx" where
  "breakpoint_answer f name r =
    reply_answer (answer_of None (\<lambda>(breakpointId, v).
      Val (setValue (lit name) (f v) (setString (lit ''breakpointId'') breakpointId emptyObject)))) r"

definition member_answer :: "json_object option \<Rightarrow> string \<Rightarrow> ('b \<Rightarrow> json) \<Rightarrow> ((wstr + 'b) \<times> 's) cxx \<Rightarrow> (answer \<times> 's) cxx" where
  "member_answer missing name f r = reply_answer (answer_of missing (\<lambda>v. Val (setValue (lit name) (f v) emptyObject))) r"

definition perform_command :: "'w environment \<Rightarrow> debugger_command \<Rightarrow> 'w debugger_agent \<Rightarrow> (answer \<times> 'w debugger_agent) cxx" where
  "perform_command E command a =
    (case command of
       Enable \<Rightarrow> state_answer (enable E a)
     | Disable \<Rightarrow> state_answer (disable E a)
     | SetBreakpointsActive active \<Rightarrow> command_answer (Val (setBreakpointsActive E active a))
     | SetSkipAllPauses skipped \<Rightarrow> state_answer (Val (setSkipAllPauses skipped a))
     | BreakpointByUrl line url regex column condition \<Rightarrow>
         breakpoint_answer JSONArray ''locations'' (setBreakpointByUrl E line url regex column condition a)
     | BreakpointAt location condition \<Rightarrow> breakpoint_answer JSONObject ''actualLocation'' (setBreakpoint E location condition a)
     | BreakpointRemove i \<Rightarrow> command_answer (removeBreakpoint E i a)
     | ContinueToLocation location interstate \<Rightarrow> command_answer (continueToLocation E location interstate a)
     | CmdStepOver \<Rightarrow> command_answer (stepOver E a)
     | CmdStepInto \<Rightarrow> command_answer (stepInto E a)
     | CmdStepOut \<Rightarrow> command_answer (stepOut E a)
     | CmdStepIntoAsync \<Rightarrow> command_answer (stepIntoAsync E a)
     | CmdPause \<Rightarrow> command_answer (Val (pause E a))
     | CmdResume \<Rightarrow> command_answer (resume E a)
     | SetPauseOnExceptions mode \<Rightarrow> command_answer (setPauseOnExceptions E mode a)
     | EvaluateOnCallFrame frameId expression objectGroup api doNotPause byValue preview \<Rightarrow>
         reply_answer (answer_of None (\<lambda>r. Val (eval_members r)))
           (evaluateOnCallFrame E frameId expression objectGroup api doNotPause byValue preview a)
     | SetVariableValue scope name val frameId functionId \<Rightarrow>
         reply_answer (answer_of (Some emptyObject) (\<lambda>r. Val emptyObject)) (setVariableValue E scope name val frameId functionId a)
     | GetStepInPositions frameId \<Rightarrow> member_answer (Some emptyObject) ''stepInPositions'' JSONArray (getStepInPositions E frameId a)
     | GetBacktrace \<Rightarrow> reply_answer (answer_of None (\<lambda>r. Val (frames_members r))) (getBacktrace E a)
     | SetScriptSource i content preview \<Rightarrow> setScriptSource_answer (setScriptSource E i content preview a)
     | RestartFrame frameId \<Rightarrow> restartFrame_answer (restartFrame E frameId a)
     | GetFunctionDetails i \<Rightarrow> member_answer None ''details'' JSONObject (getFunctionDetails E i a)
     | GetGeneratorObjectDetails i \<Rightarrow> member_answer None ''details'' JSONObject (getGeneratorObjectDetails E i a)
     | GetCollectionEntries i \<Rightarrow> member_answer None ''entries'' JSONArray (getCollectionEntries E i a)
     | SkipStackFrames pattern content \<Rightarrow> command_answer (Val (skipStackFrames E pattern content a))
     | SetAsyncCallStackDepth depth \<Rightarrow> command_answer (Val (setAsyncCallStackDepth depth a))
     | EnablePromiseTracker captureStacks \<Rightarrow> command_answer (Val (enablePromiseTracker captureStacks a))
     | DisablePromiseTracker \<Rightarrow> command_answer (Val (disablePromiseTracker a))
     | SetAsyncOperationBreakpoint i \<Rightarrow> command_answer (Val (setAsyncOperationBreakpoint i a))
     | RemoveAsyncOperationBreakpoint i \<Rightarrow> command_answer (Val (removeAsyncOperationBreakpoint i a))
     | FlushAsyncOperationEvents \<Rightarrow> state_answer (flushAsyncOperationEvents (env_isolate E) a))"

definition on_debugger_agent :: "('w debugger_agent \<Rightarrow> (answer \<times> 'w debugger_agent) cxx) \<Rightarrow> 'w inspector \<Rightarrow> (answer \<times> 'w inspector) cxx" where
  "on_debugger_agent f s = bind_cxx (f (i_debugger s)) (\<lambda>(answer, a). Val (answer, s\<lparr>i_debugger := a\<rparr>))"

definition compile_members :: "wstr option \<times> json_object option \<Rightarrow> json_object" where
  "compile_members r =
    optional_object ''exceptionDetails'' (snd r)
      (case fst r of None \<Rightarrow> emptyObject | Some scriptId \<Rightarrow> setString (lit ''scriptId'') scriptId emptyObject)"

definition properties_answer :: "wstr + properties_result \<Rightarrow> answer cxx" where
  "properties_answer r =
    (case r of
       Inl error \<Rightarrow> Val (Answer error None emptyObject)
     | Inr p \<Rightarrow>
         (if pr_error p \<noteq> [] then Val (Answer (pr_error p) None emptyObject)
          else need (pr_result p) (\<lambda>ps.
            let ob = setArray (lit ''result'') ps emptyObject;
                ob = (case pr_internalProperties p of None \<Rightarrow> ob | Some is \<Rightarrow> setArray (lit ''internalProperties'') is ob)
            in Val (Answer [] None (optional_object ''exceptionDetails'' (pr_exceptionDetails p) ob)))))"

definition perform :: "'w worker \<Rightarrow> call \<Rightarrow> 'w inspector \<Rightarrow> (answer \<times> 'w inspector) cxx" where
  "perform W call s =
    (case call of
       Command command \<Rightarrow> on_debugger_agent (perform_command (wk_environment W) command) s
     | CompileScript expression sourceURL persistScript contextId \<Rightarrow>
         on_debugger_agent (\<lambda>a. reply_answer (answer_of None (\<lambda>r. Val (compile_members r)))
           (compileScript (wk_environment W) (wk_compile W) (wk_scriptState W) expression sourceURL persistScript contextId a)) s
     | RunScript scriptId contextId objectGroup doNotPause \<Rightarrow>
         on_debugger_agent (\<lambda>a. reply_answer (answer_of None (\<lambda>(result, details).
             need result (\<lambda>result. Val (optional_object ''exceptionDetails'' details (setObject (lit ''result'') result emptyObject)))))
           (runScript (wk_environment W) (wk_run W) (wk_scriptState W) scriptId contextId objectGroup doNotPause a)) s
     | GetScriptSource scriptId \<Rightarrow>
         on_debugger_agent (\<lambda>a. member_answer None ''scriptSource'' JSONString (Val (getScriptSource scriptId a, a))) s
     | SearchInContent scriptId query caseSensitive isRegex \<Rightarrow>
         on_debugger_agent (\<lambda>a. member_answer None ''result'' JSONArray
           (Val (searchInContent (wk_environment W) scriptId query caseSensitive isRegex a, a))) s
     | CanSetScriptSource \<Rightarrow> Val (Answer [] None (setBoolean (lit ''result'') True emptyObject), s)
     | GetPromiseById promise_number objectGroup \<Rightarrow>
         on_debugger_agent (\<lambda>a. reply_answer (answer_of None (\<lambda>r. need r (\<lambda>promise. Val (setObject (lit ''promise'') promise emptyObject))))
           (getPromiseById (wk_environment W) (wk_scriptState W) promise_number objectGroup a)) s
     | Evaluate expression objectGroup api doNotPause contextId byValue preview \<Rightarrow>
         on_debugger_agent (\<lambda>a. reply_answer (answer_of None (\<lambda>r. need r (\<lambda>r. Val (eval_members r))))
           (runtime_evaluate W expression objectGroup api doNotPause contextId byValue preview a)) s
     | CallFunctionOn objectId declaration args doNotPause byValue preview \<Rightarrow>
         on_debugger_agent (\<lambda>a. reply_answer (answer_of None (\<lambda>r. Val (eval_members r)))
           (runtime_callFunctionOn W objectId declaration args doNotPause byValue preview a)) s
     | GetProperties objectId own accessors preview \<Rightarrow>
         on_debugger_agent (\<lambda>a. reply_answer properties_answer (runtime_getProperties W objectId own accessors preview a)) s
     | ReleaseObject objectId \<Rightarrow> on_debugger_agent (\<lambda>a. state_answer (runtime_releaseObject W objectId a)) s
     | ReleaseObjectGroup objectGroup \<Rightarrow> on_debugger_agent (\<lambda>a. state_answer (runtime_releaseObjectGroup W objectGroup a)) s
     | Run \<Rightarrow> Val (done_answer, resumeStartup s)
     | RuntimeEnable \<Rightarrow> state_answer (runtime_enable W s)
     | RuntimeDisable \<Rightarrow> Val (done_answer, runtime_disable s)
     | IsRunRequired \<Rightarrow> Val (Answer [] None (setBoolean (lit ''result'') (isRunRequired s) emptyObject), s)
     | SetCustomObjectFormatterEnabled enabled \<Rightarrow>
         on_debugger_agent (\<lambda>a. state_answer (Val (runtime_setCustomObjectFormatterEnabled W enabled a))) s)"

section \<open>Handlers\<close>

text \<open>
  A handler: the domain its agent belongs to, the name of the command, its
  parameters in the order in which they are read, and the call it makes with them
  (none through a null object).
\<close>

datatype handler = Handler (h_domain: string) (h_method: string) (h_params: "param list") (h_call: "param_value option list \<Rightarrow> call option")

definition Runtime_evaluate :: handler where
  "Runtime_evaluate = Handler ''Runtime'' ''Runtime.evaluate''
    [Required PString ''expression'', Optional PString ''objectGroup'',
      Optional PBoolean ''includeCommandLineAPI'', Optional PBoolean ''doNotPauseOnExceptionsAndMuteConsole'',
      Optional PInt ''contextId'', Optional PBoolean ''returnByValue'', Optional PBoolean ''generatePreview'']
    (\<lambda>v. Some (Evaluate (in_string (v ! 0)) (opt_string (v ! 1)) (opt_bool (v ! 2)) (opt_bool (v ! 3)) (opt_int
      (v ! 4)) (opt_bool (v ! 5)) (opt_bool (v ! 6))))"

definition Runtime_callFunctionOn :: handler where
  "Runtime_callFunctionOn = Handler ''Runtime'' ''Runtime.callFunctionOn''
    [Required PString ''objectId'', Required PString ''functionDeclaration'', Optional PArray ''arguments'',
      Optional PBoolean ''doNotPauseOnExceptionsAndMuteConsole'', Optional PBoolean ''returnByValue'',
      Optional PBoolean ''generatePreview'']
    (\<lambda>v. Some (CallFunctionOn (in_string (v ! 0)) (in_string (v ! 1)) (opt_array (v ! 2)) (opt_bool (v ! 3)) (opt_bool
      (v ! 4)) (opt_bool (v ! 5))))"

definition Runtime_getProperties :: handler where
  "Runtime_getProperties = Handler ''Runtime'' ''Runtime.getProperties''
    [Required PString ''objectId'', Optional PBoolean ''ownProperties'',
      Optional PBoolean ''accessorPropertiesOnly'', Optional PBoolean ''generatePreview'']
    (\<lambda>v. Some (GetProperties (in_string (v ! 0)) (opt_bool (v ! 1)) (opt_bool (v ! 2)) (opt_bool (v ! 3))))"

definition Runtime_releaseObject :: handler where
  "Runtime_releaseObject = Handler ''Runtime'' ''Runtime.releaseObject''
    [Required PString ''objectId'']
    (\<lambda>v. Some (ReleaseObject (in_string (v ! 0))))"

definition Runtime_releaseObjectGroup :: handler where
  "Runtime_releaseObjectGroup = Handler ''Runtime'' ''Runtime.releaseObjectGroup''
    [Required PString ''objectGroup'']
    (\<lambda>v. Some (ReleaseObjectGroup (in_string (v ! 0))))"

definition Runtime_run :: handler where
  "Runtime_run = Handler ''Runtime'' ''Runtime.run''
    []
    (\<lambda>v. Some Run)"

definition Runtime_enable :: handler where
  "Runtime_enable = Handler ''Runtime'' ''Runtime.enable''
    []
    (\<lambda>v. Some RuntimeEnable)"

definition Runtime_disable :: handler where
  "Runtime_disable = Handler ''Runtime'' ''Runtime.disable''
    []
    (\<lambda>v. Some RuntimeDisable)"

definition Runtime_isRunRequired :: handler where
  "Runtime_isRunRequired = Handler ''Runtime'' ''Runtime.isRunRequired''
    []
    (\<lambda>v. Some IsRunRequired)"

definition Runtime_setCustomObjectFormatterEnabled :: handler where
  "Runtime_setCustomObjectFormatterEnabled = Handler ''Runtime'' ''Runtime.setCustomObjectFormatterEnabled''
    [Required PBoolean ''enabled'']
    (\<lambda>v. Some (SetCustomObjectFormatterEnabled (in_bool (v ! 0))))"

definition Debugger_enable :: handler where
  "Debugger_enable = Handler ''Debugger'' ''Debugger.enable''
    []
    (\<lambda>v. Some (Command Enable))"

definition Debugger_disable :: handler where
  "Debugger_disable = Handler ''Debugger'' ''Debugger.disable''
    []
    (\<lambda>v. Some (Command Disable))"

definition Debugger_setBreakpointsActive :: handler where
  "Debugger_setBreakpointsActive = Handler ''Debugger'' ''Debugger.setBreakpointsActive''
    [Required PBoolean ''active'']
    (\<lambda>v. Some (Command (SetBreakpointsActive (in_bool (v ! 0)))))"

definition Debugger_setSkipAllPauses :: handler where
  "Debugger_setSkipAllPauses = Handler ''Debugger'' ''Debugger.setSkipAllPauses''
    [Required PBoolean ''skipped'']
    (\<lambda>v. Some (Command (SetSkipAllPauses (in_bool (v ! 0)))))"

definition Debugger_setBreakpointByUrl :: handler where
  "Debugger_setBreakpointByUrl = Handler ''Debugger'' ''Debugger.setBreakpointByUrl''
    [Required PInt ''lineNumber'', Optional PString ''url'', Optional PString ''urlRegex'',
      Optional PInt ''columnNumber'', Optional PString ''condition'']
    (\<lambda>v. Some (Command (BreakpointByUrl (in_int (v ! 0)) (opt_string (v ! 1)) (opt_string (v ! 2)) (opt_int (v ! 3))
      (opt_string (v ! 4)))))"

definition Debugger_setBreakpoint :: handler where
  "Debugger_setBreakpoint = Handler ''Debugger'' ''Debugger.setBreakpoint''
    [Required PObject ''location'', Optional PString ''condition'']
    (\<lambda>v. map_option (\<lambda>location. Command (BreakpointAt location (opt_string (v ! 1)))) (opt_object (v ! 0)))"

definition Debugger_removeBreakpoint :: handler where
  "Debugger_removeBreakpoint = Handler ''Debugger'' ''Debugger.removeBreakpoint''
    [Required PString ''breakpointId'']
    (\<lambda>v. Some (Command (BreakpointRemove (in_string (v ! 0)))))"

definition Debugger_continueToLocation :: handler where
  "Debugger_continueToLocation = Handler ''Debugger'' ''Debugger.continueToLocation''
    [Required PObject ''location'', Optional PBoolean ''interstatementLocation'']
    (\<lambda>v. map_option (\<lambda>location. Command (ContinueToLocation location (opt_bool (v ! 1)))) (opt_object (v ! 0)))"

definition Debugger_stepOver :: handler where
  "Debugger_stepOver = Handler ''Debugger'' ''Debugger.stepOver''
    []
    (\<lambda>v. Some (Command CmdStepOver))"

definition Debugger_stepInto :: handler where
  "Debugger_stepInto = Handler ''Debugger'' ''Debugger.stepInto''
    []
    (\<lambda>v. Some (Command CmdStepInto))"

definition Debugger_stepOut :: handler where
  "Debugger_stepOut = Handler ''Debugger'' ''Debugger.stepOut''
    []
    (\<lambda>v. Some (Command CmdStepOut))"

definition Debugger_pause :: handler where
  "Debugger_pause = Handler ''Debugger'' ''Debugger.pause''
    []
    (\<lambda>v. Some (Command CmdPause))"

definition Debugger_resume :: handler where
  "Debugger_resume = Handler ''Debugger'' ''Debugger.resume''
    []
    (\<lambda>v. Some (Command CmdResume))"

definition Debugger_stepIntoAsync :: handler where
  "Debugger_stepIntoAsync = Handler ''Debugger'' ''Debugger.stepIntoAsync''
    []
    (\<lambda>v. Some (Command CmdStepIntoAsync))"

definition Debugger_searchInContent :: handler where
  "Debugger_searchInContent = Handler ''Debugger'' ''Debugger.searchInContent''
    [Required PString ''scriptId'', Required PString ''query'', Optional PBoolean ''caseSensitive'',
      Optional PBoolean ''isRegex'']
    (\<lambda>v. Some (SearchInContent (in_string (v ! 0)) (in_string (v ! 1)) (opt_bool (v ! 2)) (opt_bool (v ! 3))))"

definition Debugger_canSetScriptSource :: handler where
  "Debugger_canSetScriptSource = Handler ''Debugger'' ''Debugger.canSetScriptSource''
    []
    (\<lambda>v. Some CanSetScriptSource)"

definition Debugger_setScriptSource :: handler where
  "Debugger_setScriptSource = Handler ''Debugger'' ''Debugger.setScriptSource''
    [Required PString ''scriptId'', Required PString ''scriptSource'', Optional PBoolean ''preview'']
    (\<lambda>v. Some (Command (SetScriptSource (in_string (v ! 0)) (in_string (v ! 1)) (opt_bool (v ! 2)))))"

definition Debugger_restartFrame :: handler where
  "Debugger_restartFrame = Handler ''Debugger'' ''Debugger.restartFrame''
    [Required PString ''callFrameId'']
    (\<lambda>v. Some (Command (RestartFrame (in_string (v ! 0)))))"

definition Debugger_getScriptSource :: handler where
  "Debugger_getScriptSource = Handler ''Debugger'' ''Debugger.getScriptSource''
    [Required PString ''scriptId'']
    (\<lambda>v. Some (GetScriptSource (in_string (v ! 0))))"

definition Debugger_getFunctionDetails :: handler where
  "Debugger_getFunctionDetails = Handler ''Debugger'' ''Debugger.getFunctionDetails''
    [Required PString ''functionId'']
    (\<lambda>v. Some (Command (GetFunctionDetails (in_string (v ! 0)))))"

definition Debugger_getGeneratorObjectDetails :: handler where
  "Debugger_getGeneratorObjectDetails = Handler ''Debugger'' ''Debugger.getGeneratorObjectDetails''
    [Required PString ''objectId'']
    (\<lambda>v. Some (Command (GetGeneratorObjectDetails (in_string (v ! 0)))))"

definition Debugger_getCollectionEntries :: handler where
  "Debugger_getCollectionEntries = Handler ''Debugger'' ''Debugger.getCollectionEntries''
    [Required PString ''objectId'']
    (\<lambda>v. Some (Command (GetCollectionEntries (in_string (v ! 0)))))"

definition Debugger_setPauseOnExceptions :: handler where
  "Debugger_setPauseOnExceptions = Handler ''Debugger'' ''Debugger.setPauseOnExceptions''
    [Required PString ''state'']
    (\<lambda>v. Some (Command (SetPauseOnExceptions (in_string (v ! 0)))))"

definition Debugger_evaluateOnCallFrame :: handler where
  "Debugger_evaluateOnCallFrame = Handler ''Debugger'' ''Debugger.evaluateOnCallFrame''
    [Required PString ''callFrameId'', Required PString ''expression'', Optional PString ''objectGroup'',
      Optional PBoolean ''includeCommandLineAPI'', Optional PBoolean ''doNotPauseOnExceptionsAndMuteConsole'',
      Optional PBoolean ''returnByValue'', Optional PBoolean ''generatePreview'']
    (\<lambda>v. Some (Command (EvaluateOnCallFrame (in_string (v ! 0)) (in_string (v ! 1)) (opt_string (v ! 2)) (opt_bool
      (v ! 3)) (opt_bool (v ! 4)) (opt_bool (v ! 5)) (opt_bool (v ! 6)))))"

definition Debugger_compileScript :: handler where
  "Debugger_compileScript = Handler ''Debugger'' ''Debugger.compileScript''
    [Required PString ''expression'', Required PString ''sourceURL'', Required PBoolean ''persistScript'',
      Optional PInt ''executionContextId'']
    (\<lambda>v. Some (CompileScript (in_string (v ! 0)) (in_string (v ! 1)) (in_bool (v ! 2)) (opt_int (v ! 3))))"

definition Debugger_runScript :: handler where
  "Debugger_runScript = Handler ''Debugger'' ''Debugger.runScript''
    [Required PString ''scriptId'', Optional PInt ''executionContextId'', Optional PString ''objectGroup'',
      Optional PBoolean ''doNotPauseOnExceptionsAndMuteConsole'']
    (\<lambda>v. Some (RunScript (in_string (v ! 0)) (opt_int (v ! 1)) (opt_string (v ! 2)) (opt_bool (v ! 3))))"

definition Debugger_setVariableValue :: handler where
  "Debugger_setVariableValue = Handler ''Debugger'' ''Debugger.setVariableValue''
    [Required PInt ''scopeNumber'', Required PString ''variableName'', Required PObject ''newValue'',
      Optional PString ''callFrameId'', Optional PString ''functionObjectId'']
    (\<lambda>v. map_option (\<lambda>newValue. Command (SetVariableValue (in_int (v ! 0)) (in_string (v ! 1)) newValue (opt_string (v ! 3)) (opt_string (v ! 4))))
      (opt_object (v ! 2)))"

definition Debugger_getStepInPositions :: handler where
  "Debugger_getStepInPositions = Handler ''Debugger'' ''Debugger.getStepInPositions''
    [Required PString ''callFrameId'']
    (\<lambda>v. Some (Command (GetStepInPositions (in_string (v ! 0)))))"

definition Debugger_getBacktrace :: handler where
  "Debugger_getBacktrace = Handler ''Debugger'' ''Debugger.getBacktrace''
    []
    (\<lambda>v. Some (Command GetBacktrace))"

definition Debugger_skipStackFrames :: handler where
  "Debugger_skipStackFrames = Handler ''Debugger'' ''Debugger.skipStackFrames''
    [Optional PString ''script'', Optional PBoolean ''skipContentScripts'']
    (\<lambda>v. Some (Command (SkipStackFrames (opt_string (v ! 0)) (opt_bool (v ! 1)))))"

definition Debugger_setAsyncCallStackDepth :: handler where
  "Debugger_setAsyncCallStackDepth = Handler ''Debugger'' ''Debugger.setAsyncCallStackDepth''
    [Required PInt ''maxDepth'']
    (\<lambda>v. Some (Command (SetAsyncCallStackDepth (in_int (v ! 0)))))"

definition Debugger_enablePromiseTracker :: handler where
  "Debugger_enablePromiseTracker = Handler ''Debugger'' ''Debugger.enablePromiseTracker''
    [Optional PBoolean ''captureStacks'']
    (\<lambda>v. Some (Command (EnablePromiseTracker (opt_bool (v ! 0)))))"

definition Debugger_disablePromiseTracker :: handler where
  "Debugger_disablePromiseTracker = Handler ''Debugger'' ''Debugger.disablePromiseTracker''
    []
    (\<lambda>v. Some (Command DisablePromiseTracker))"

definition Debugger_getPromiseById :: handler where
  "Debugger_getPromiseById = Handler ''Debugger'' ''Debugger.getPromiseById''
    [Required PInt ''promiseId'', Optional PString ''objectGroup'']
    (\<lambda>v. Some (GetPromiseById (in_int (v ! 0)) (opt_string (v ! 1))))"

definition Debugger_flushAsyncOperationEvents :: handler where
  "Debugger_flushAsyncOperationEvents = Handler ''Debugger'' ''Debugger.flushAsyncOperationEvents''
    []
    (\<lambda>v. Some (Command FlushAsyncOperationEvents))"

definition Debugger_setAsyncOperationBreakpoint :: handler where
  "Debugger_setAsyncOperationBreakpoint = Handler ''Debugger'' ''Debugger.setAsyncOperationBreakpoint''
    [Required PInt ''operationId'']
    (\<lambda>v. Some (Command (SetAsyncOperationBreakpoint (in_int (v ! 0)))))"

definition Debugger_removeAsyncOperationBreakpoint :: handler where
  "Debugger_removeAsyncOperationBreakpoint = Handler ''Debugger'' ''Debugger.removeAsyncOperationBreakpoint''
    [Required PInt ''operationId'']
    (\<lambda>v. Some (Command (RemoveAsyncOperationBreakpoint (in_int (v ! 0)))))"

definition runtime_handlers :: "handler list" where
  "runtime_handlers =
    [Runtime_evaluate, Runtime_callFunctionOn, Runtime_getProperties, Runtime_releaseObject,
     Runtime_releaseObjectGroup, Runtime_run, Runtime_enable, Runtime_disable, Runtime_isRunRequired,
     Runtime_setCustomObjectFormatterEnabled]"

definition debugger_handlers :: "handler list" where
  "debugger_handlers =
    [Debugger_enable, Debugger_disable, Debugger_setBreakpointsActive, Debugger_setSkipAllPauses,
     Debugger_setBreakpointByUrl, Debugger_setBreakpoint, Debugger_removeBreakpoint, Debugger_continueToLocation,
     Debugger_stepOver, Debugger_stepInto, Debugger_stepOut, Debugger_pause, Debugger_resume,
     Debugger_stepIntoAsync, Debugger_searchInContent, Debugger_canSetScriptSource, Debugger_setScriptSource,
     Debugger_restartFrame, Debugger_getScriptSource, Debugger_getFunctionDetails,
     Debugger_getGeneratorObjectDetails, Debugger_getCollectionEntries, Debugger_setPauseOnExceptions,
     Debugger_evaluateOnCallFrame, Debugger_compileScript, Debugger_runScript, Debugger_setVariableValue,
     Debugger_getStepInPositions, Debugger_getBacktrace, Debugger_skipStackFrames, Debugger_setAsyncCallStackDepth,
     Debugger_enablePromiseTracker, Debugger_disablePromiseTracker, Debugger_getPromiseById,
     Debugger_flushAsyncOperationEvents, Debugger_setAsyncOperationBreakpoint,
     Debugger_removeAsyncOperationBreakpoint]"

section \<open>Parameters have the declared types\<close>

fun has_type :: "param_type \<Rightarrow> param_value \<Rightarrow> bool" where
  "has_type PInt v = (\<exists>i. v = VInt i)"
| "has_type PDouble v = (\<exists>d. v = VDouble d)"
| "has_type PString v = (\<exists>s. v = VString s)"
| "has_type PBoolean v = (\<exists>b. v = VBoolean b)"
| "has_type PObject v = (\<exists>ob. v = VObject ob)"
| "has_type PArray v = (\<exists>vs. v = VArray vs)"

definition param_json :: "json_object option \<Rightarrow> param \<Rightarrow> json option" where
  "param_json ob p = Option.bind ob (\<lambda>ob. getValue ob (lit (p_name p)))"

definition param_read :: "json_object option \<Rightarrow> param \<Rightarrow> param_value option" where
  "param_read ob p = Option.bind (param_json ob p) (as_method (p_type p))"

definition acceptable :: "json_object option \<Rightarrow> param \<Rightarrow> bool" where
  "acceptable ob p \<longleftrightarrow> (if param_json ob p = None then \<not> is_required p else param_read ob p \<noteq> None)"

lemma as_method_typed: "as_method t v = Some x \<Longrightarrow> has_type t x"
  by (cases t) auto

lemma getPropertyValueImpl_eq:
  "\<exists>e. getPropertyValueImpl ob p errors = (param_read ob p, errors @ (if acceptable ob p then [] else [JSONString e]))"
  by (auto simp: getPropertyValueImpl_def param_read_def param_json_def acceptable_def Let_def split: option.splits)

lemma read_parameters_eq:
  "\<exists>es. read_parameters ob ps errors = (map (param_read ob) ps, errors @ map JSONString es) \<and>
    length es = length (filter (\<lambda>p. \<not> acceptable ob p) ps)"
proof (induction ps arbitrary: errors)
  case (Cons p ps)
  obtain e where e: "getPropertyValueImpl ob p errors = (param_read ob p, errors @ (if acceptable ob p then [] else [JSONString e]))"
    using getPropertyValueImpl_eq by blast
  obtain es where es: "read_parameters ob ps (errors @ (if acceptable ob p then [] else [JSONString e])) =
      (map (param_read ob) ps, (errors @ (if acceptable ob p then [] else [JSONString e])) @ map JSONString es)"
    "length es = length (filter (\<lambda>p. \<not> acceptable ob p) ps)"
    using Cons.IH by blast
  show ?case using e es by (intro exI [of _ "if acceptable ob p then es else e # es"]) auto
qed simp

lemma acceptable_typed:
  assumes "acceptable ob p"
  shows "case param_read ob p of None \<Rightarrow> \<not> is_required p \<and> param_json ob p = None | Some v \<Rightarrow> has_type (p_type p) v"
  using assms as_method_typed
  by (auto simp: acceptable_def param_read_def split: option.splits if_splits)

lemma acceptable_required: "acceptable ob (Required t n) \<Longrightarrow> \<exists>v. param_read ob (Required t n) = Some v \<and> has_type t v"
  using acceptable_typed [of ob "Required t n"] by (auto split: option.splits)

lemmas runtime_handler_defs = Runtime_evaluate_def Runtime_callFunctionOn_def Runtime_getProperties_def Runtime_releaseObject_def
  Runtime_releaseObjectGroup_def Runtime_run_def Runtime_enable_def Runtime_disable_def Runtime_isRunRequired_def
  Runtime_setCustomObjectFormatterEnabled_def

lemmas debugger_handler_defs = Debugger_enable_def Debugger_disable_def Debugger_setBreakpointsActive_def Debugger_setSkipAllPauses_def
  Debugger_setBreakpointByUrl_def Debugger_setBreakpoint_def Debugger_removeBreakpoint_def Debugger_continueToLocation_def
  Debugger_stepOver_def Debugger_stepInto_def Debugger_stepOut_def Debugger_pause_def Debugger_resume_def Debugger_stepIntoAsync_def
  Debugger_searchInContent_def Debugger_canSetScriptSource_def Debugger_setScriptSource_def Debugger_restartFrame_def
  Debugger_getScriptSource_def Debugger_getFunctionDetails_def Debugger_getGeneratorObjectDetails_def Debugger_getCollectionEntries_def
  Debugger_setPauseOnExceptions_def Debugger_evaluateOnCallFrame_def Debugger_compileScript_def Debugger_runScript_def
  Debugger_setVariableValue_def Debugger_getStepInPositions_def Debugger_getBacktrace_def Debugger_skipStackFrames_def
  Debugger_setAsyncCallStackDepth_def Debugger_enablePromiseTracker_def Debugger_disablePromiseTracker_def Debugger_getPromiseById_def
  Debugger_flushAsyncOperationEvents_def Debugger_setAsyncOperationBreakpoint_def Debugger_removeAsyncOperationBreakpoint_def

text \<open>With parameters of the declared types a handler of the two agents has a call to make.\<close>

lemma runtime_handlers_call:
  "h \<in> set runtime_handlers \<Longrightarrow> \<exists>c. h_call h vs = Some c \<and> h_domain h = ''Runtime''"
  by (auto simp: runtime_handlers_def runtime_handler_defs)

lemma debugger_handlers_call:
  assumes "h \<in> set debugger_handlers" and "list_all (acceptable ob) (h_params h)"
  shows "\<exists>c. h_call h (map (param_read ob) (h_params h)) = Some c \<and> h_domain h = ''Debugger''"
  using assms by (auto simp: debugger_handlers_def debugger_handler_defs dest!: acceptable_required)

section \<open>Calls change the state as the commands do\<close>

lemma need_Val [simp]: "need v f = Val r \<longleftrightarrow> (\<exists>x. v = Some x \<and> f x = Val r)"
  by (auto simp: need_def split: option.splits)

lemma restartFrame_answer_state:
  assumes "restartFrame_answer u = Val (x, s)"
  shows "\<exists>v. u = Val (v, s)"
proof -
  obtain e r f t where u: "u = Val ((e, r, f), t)" using assms by (cases u) (auto simp: restartFrame_answer_def)
  have "t = s" using assms u by (cases e; cases "the e") (auto simp: restartFrame_answer_def)
  thus ?thesis using u by simp
qed

lemma answer_states:
  "state_answer r = Val (x, s) \<Longrightarrow> r = Val s"
  "command_answer c = Val (x, s) \<Longrightarrow> \<exists>e. c = Val (e, s)"
  "reply_answer f q = Val (x, s) \<Longrightarrow> \<exists>v. q = Val (v, s)"
  "breakpoint_answer g name b = Val (x, s) \<Longrightarrow> \<exists>v. b = Val (v, s)"
  "member_answer missing name h m = Val (x, s) \<Longrightarrow> \<exists>v. m = Val (v, s)"
  "setScriptSource_answer t = Val (x, s) \<Longrightarrow> \<exists>v. t = Val (v, s)"
  by (auto simp: state_answer_def command_answer_def reply_answer_def breakpoint_answer_def member_answer_def setScriptSource_answer_def
      bind_cxx_eq_Val)

lemma perform_command_execute:
  assumes "perform_command E command a = Val (answer, b)"
  shows "execute E command a = Val b"
  using assms
  by (cases command)
    (auto simp: perform_command_def execute_def state_of_def dest!: answer_states restartFrame_answer_state)

end
