(* ===== verification/Command_Table.thy ===== *)
theory Command_Table
  imports Dispatcher_Handlers
begin

text \<open>
  The table of all commands of the protocol (core/InspectorBackendDispatcher.cpp): the
  handlers of the domains that have no agent in this program, the names of the commands
  with their positions, and that every name leads to its own handler.
\<close>

section \<open>Handlers without an agent\<close>

text \<open>
  No agent of these domains is ever registered with the dispatcher, so that their
  handlers read their parameters and refuse the command.
\<close>

definition absent_handler :: "string \<Rightarrow> string \<Rightarrow> param list \<Rightarrow> handler" where
  "absent_handler domain command params = Handler domain (domain @ ''.'' @ command) params (\<lambda>v. None)"

definition inspector_handlers :: "handler list" where
  "inspector_handlers =
    [absent_handler ''Inspector'' ''enable'' [],
     absent_handler ''Inspector'' ''disable'' []]"

definition memory_handlers :: "handler list" where
  "memory_handlers =
    [absent_handler ''Memory'' ''getDOMCounters'' []]"

definition page_handlers :: "handler list" where
  "page_handlers =
    [absent_handler ''Page'' ''enable'' [],
     absent_handler ''Page'' ''disable'' [],
     absent_handler ''Page'' ''addScriptToEvaluateOnLoad'' [Required PString ''scriptSource''],
     absent_handler ''Page'' ''removeScriptToEvaluateOnLoad'' [Required PString ''identifier''],
     absent_handler ''Page'' ''reload'' [Optional PBoolean ''ignoreCache'', Optional PString ''scriptToEvaluateOnLoad''],
     absent_handler ''Page'' ''navigate'' [Required PString ''url''],
     absent_handler ''Page'' ''getResourceTree'' [],
     absent_handler ''Page'' ''getResourceContent'' [Required PString ''frameId'', Required PString ''url''],
     absent_handler ''Page'' ''searchInResource'' [Required PString ''frameId'', Required PString ''url'',
        Required PString ''query'', Optional PBoolean ''caseSensitive'', Optional PBoolean ''isRegex''],
     absent_handler ''Page'' ''setDocumentContent'' [Required PString ''frameId'', Required PString ''html''],
     absent_handler ''Page'' ''setDeviceOrientationOverride'' [Required PDouble ''alpha'', Required PDouble ''beta'',
        Required PDouble ''gamma''],
     absent_handler ''Page'' ''clearDeviceOrientationOverride'' [],
     absent_handler ''Page'' ''setTouchEmulationEnabled'' [Required PBoolean ''enabled'', Optional PString ''configuration''],
     absent_handler ''Page'' ''startScreencast'' [Optional PString ''format'', Optional PInt ''quality'',
        Optional PInt ''maxWidth'', Optional PInt ''maxHeight''],
     absent_handler ''Page'' ''stopScreencast'' [],
     absent_handler ''Page'' ''setShowViewportSizeOnResize'' [Required PBoolean ''show'', Optional PBoolean ''showGrid''],
     absent_handler ''Page'' ''setOverlayMessage'' [Optional PString ''message'']]"

definition rendering_handlers :: "handler list" where
  "rendering_handlers =
    [absent_handler ''Rendering'' ''setShowPaintRects'' [Required PBoolean ''result''],
     absent_handler ''Rendering'' ''setShowDebugBorders'' [Required PBoolean ''show''],
     absent_handler ''Rendering'' ''setShowFPSCounter'' [Required PBoolean ''show''],
     absent_handler ''Rendering'' ''setContinuousPaintingEnabled'' [Required PBoolean ''enabled''],
     absent_handler ''Rendering'' ''setShowScrollBottleneckRects'' [Required PBoolean ''show'']]"

definition emulation_handlers :: "handler list" where
  "emulation_handlers =
    [absent_handler ''Emulation'' ''resetScrollAndPageScaleFactor'' [],
     absent_handler ''Emulation'' ''setPageScaleFactor'' [Required PDouble ''pageScaleFactor''],
     absent_handler ''Emulation'' ''setScriptExecutionDisabled'' [Required PBoolean ''value''],
     absent_handler ''Emulation'' ''setTouchEmulationEnabled'' [Required PBoolean ''enabled'', Optional PString ''configuration''],
     absent_handler ''Emulation'' ''setEmulatedMedia'' [Required PString ''media'']]"

definition console_handlers :: "handler list" where
  "console_handlers =
    [absent_handler ''Console'' ''enable'' [],
     absent_handler ''Console'' ''disable'' [],
     absent_handler ''Console'' ''clearMessages'' []]"

definition network_handlers :: "handler list" where
  "network_handlers =
    [absent_handler ''Network'' ''enable'' [],
     absent_handler ''Network'' ''disable'' [],
     absent_handler ''Network'' ''setUserAgentOverride'' [Required PString ''userAgent''],
     absent_handler ''Network'' ''setExtraHTTPHeaders'' [Required PObject ''headers''],
     absent_handler ''Network'' ''getResponseBody'' [Required PString ''requestId''],
     absent_handler ''Network'' ''replayXHR'' [Required PString ''requestId''],
     absent_handler ''Network'' ''setMonitoringXHREnabled'' [Required PBoolean ''enabled''],
     absent_handler ''Network'' ''canClearBrowserCache'' [],
     absent_handler ''Network'' ''canClearBrowserCookies'' [],
     absent_handler ''Network'' ''emulateNetworkConditions'' [Required PBoolean ''offline'', Required PDouble ''latency'',
        Required PDouble ''downloadThroughput'', Required PDouble ''uploadThroughput''],
     absent_handler ''Network'' ''setCacheDisabled'' [Required PBoolean ''cacheDisabled''],
     absent_handler ''Network'' ''setDataSizeLimitsForTest'' [Required PInt ''maxTotalSize'', Required PInt ''maxResourceSize'']]"

definition database_handlers :: "handler list" where
  "database_handlers =
    [absent_handler ''Database'' ''enable'' [],
     absent_handler ''Database'' ''disable'' [],
     absent_handler ''Database'' ''getDatabaseTableNames'' [Required PString ''databaseId''],
     absent_handler ''Database'' ''executeSQL'' [Required PString ''databaseId'', Required PString ''query'']]"

definition indexedDB_handlers :: "handler list" where
  "indexedDB_handlers =
    [absent_handler ''IndexedDB'' ''enable'' [],
     absent_handler ''IndexedDB'' ''disable'' [],
     absent_handler ''IndexedDB'' ''requestDatabaseNames'' [Required PString ''securityOrigin''],
     absent_handler ''IndexedDB'' ''requestDatabase'' [Required PString ''securityOrigin'', Required PString ''databaseName''],
     absent_handler ''IndexedDB'' ''requestData'' [Required PString ''securityOrigin'', Required PString ''databaseName'',
        Required PString ''objectStoreName'', Required PString ''indexName'', Required PInt ''skipCount'',
        Required PInt ''pageSize'', Optional PObject ''keyRange''],
     absent_handler ''IndexedDB'' ''clearObjectStore'' [Required PString ''securityOrigin'', Required PString ''databaseName'',
        Required PString ''objectStoreName'']]"

definition cacheStorage_handlers :: "handler list" where
  "cacheStorage_handlers =
    [absent_handler ''CacheStorage'' ''requestCacheNames'' [Required PString ''securityOrigin''],
     absent_handler ''CacheStorage'' ''requestEntries'' [Required PString ''cacheId'', Required PInt ''skipCount'',
        Required PInt ''pageSize''],
     absent_handler ''CacheStorage'' ''deleteCache'' [Required PString ''cacheId''],
     absent_handler ''CacheStorage'' ''deleteEntry'' [Required PString ''cacheId'', Required PString ''request'']]"

definition domStorage_handlers :: "handler list" where
  "domStorage_handlers =
    [absent_handler ''DOMStorage'' ''enable'' [],
     absent_handler ''DOMStorage'' ''disable'' [],
     absent_handler ''DOMStorage'' ''getDOMStorageItems'' [Required PObject ''storageId''],
     absent_handler ''DOMStorage'' ''setDOMStorageItem'' [Required PObject ''storageId'', Required PString ''key'',
        Required PString ''value''],
     absent_handler ''DOMStorage'' ''removeDOMStorageItem'' [Required PObject ''storageId'', Required PString ''key'']]"

definition applicationCache_handlers :: "handler list" where
  "applicationCache_handlers =
    [absent_handler ''ApplicationCache'' ''getFramesWithManifests'' [],
     absent_handler ''ApplicationCache'' ''enable'' [],
     absent_handler ''ApplicationCache'' ''getManifestForFrame'' [Required PString ''frameId''],
     absent_handler ''ApplicationCache'' ''getApplicationCacheForFrame'' [Required PString ''frameId'']]"

definition fileSystem_handlers :: "handler list" where
  "fileSystem_handlers =
    [absent_handler ''FileSystem'' ''enable'' [],
     absent_handler ''FileSystem'' ''disable'' [],
     absent_handler ''FileSystem'' ''requestFileSystemRoot'' [Required PString ''origin'', Required PString ''type''],
     absent_handler ''FileSystem'' ''requestDirectoryContent'' [Required PString ''url''],
     absent_handler ''FileSystem'' ''requestMetadata'' [Required PString ''url''],
     absent_handler ''FileSystem'' ''requestFileContent'' [Required PString ''url'', Required PBoolean ''readAsText'',
        Optional PInt ''start'', Optional PInt ''end'', Optional PString ''charset''],
     absent_handler ''FileSystem'' ''deleteEntry'' [Required PString ''url'']]"

definition dom_handlers :: "handler list" where
  "dom_handlers =
    [absent_handler ''DOM'' ''enable'' [],
     absent_handler ''DOM'' ''disable'' [],
     absent_handler ''DOM'' ''getDocument'' [],
     absent_handler ''DOM'' ''requestChildNodes'' [Required PInt ''nodeId'', Optional PInt ''depth''],
     absent_handler ''DOM'' ''querySelector'' [Required PInt ''nodeId'', Required PString ''selector''],
     absent_handler ''DOM'' ''querySelectorAll'' [Required PInt ''nodeId'', Required PString ''selector''],
     absent_handler ''DOM'' ''setNodeName'' [Required PInt ''nodeId'', Required PString ''name''],
     absent_handler ''DOM'' ''setNodeValue'' [Required PInt ''nodeId'', Required PString ''value''],
     absent_handler ''DOM'' ''removeNode'' [Required PInt ''nodeId''],
     absent_handler ''DOM'' ''setAttributeValue'' [Required PInt ''nodeId'', Required PString ''name'', Required PString ''value''],
     absent_handler ''DOM'' ''setAttributesAsText'' [Required PInt ''nodeId'', Required PString ''text'', Optional PString ''name''],
     absent_handler ''DOM'' ''removeAttribute'' [Required PInt ''nodeId'', Required PString ''name''],
     absent_handler ''DOM'' ''getOuterHTML'' [Required PInt ''nodeId''],
     absent_handler ''DOM'' ''setOuterHTML'' [Required PInt ''nodeId'', Required PString ''outerHTML''],
     absent_handler ''DOM'' ''performSearch'' [Required PString ''query'', Optional PBoolean ''includeUserAgentShadowDOM''],
     absent_handler ''DOM'' ''getSearchResults'' [Required PString ''searchId'', Required PInt ''fromIndex'',
        Required PInt ''toIndex''],
     absent_handler ''DOM'' ''discardSearchResults'' [Required PString ''searchId''],
     absent_handler ''DOM'' ''requestNode'' [Required PString ''objectId''],
     absent_handler ''DOM'' ''setInspectModeEnabled'' [Required PBoolean ''enabled'', Optional PBoolean ''inspectUAShadowDOM'',
        Optional PObject ''highlightConfig''],
     absent_handler ''DOM'' ''highlightRect'' [Required PInt ''x'', Required PInt ''y'', Required PInt ''width'',
        Required PInt ''height'', Optional PObject ''color'', Optional PObject ''outlineColor''],
     absent_handler ''DOM'' ''highlightQuad'' [Required PArray ''quad'', Optional PObject ''color'', Optional PObject ''outlineColor''],
     absent_handler ''DOM'' ''highlightNode'' [Required PObject ''highlightConfig'', Optional PInt ''nodeId'',
        Optional PInt ''backendNodeId'', Optional PString ''objectId''],
     absent_handler ''DOM'' ''hideHighlight'' [],
     absent_handler ''DOM'' ''highlightFrame'' [Required PString ''frameId'', Optional PObject ''contentColor'',
        Optional PObject ''contentOutlineColor''],
     absent_handler ''DOM'' ''pushNodeByPathToFrontend'' [Required PString ''path''],
     absent_handler ''DOM'' ''pushNodesByBackendIdsToFrontend'' [Required PArray ''backendNodeIds''],
     absent_handler ''DOM'' ''setInspectedNode'' [Required PInt ''nodeId''],
     absent_handler ''DOM'' ''resolveNode'' [Required PInt ''nodeId'', Optional PString ''objectGroup''],
     absent_handler ''DOM'' ''getAttributes'' [Required PInt ''nodeId''],
     absent_handler ''DOM'' ''copyTo'' [Required PInt ''nodeId'', Required PInt ''targetNodeId'', Optional PInt ''insertBeforeNodeId''],
     absent_handler ''DOM'' ''moveTo'' [Required PInt ''nodeId'', Required PInt ''targetNodeId'', Optional PInt ''insertBeforeNodeId''],
     absent_handler ''DOM'' ''undo'' [],
     absent_handler ''DOM'' ''redo'' [],
     absent_handler ''DOM'' ''markUndoableState'' [],
     absent_handler ''DOM'' ''focus'' [Required PInt ''nodeId''],
     absent_handler ''DOM'' ''setFileInputFiles'' [Required PInt ''nodeId'', Required PArray ''files''],
     absent_handler ''DOM'' ''getBoxModel'' [Required PInt ''nodeId''],
     absent_handler ''DOM'' ''getNodeForLocation'' [Required PInt ''x'', Required PInt ''y''],
     absent_handler ''DOM'' ''getRelayoutBoundary'' [Required PInt ''nodeId''],
     absent_handler ''DOM'' ''getHighlightObjectForTest'' [Required PInt ''nodeId'']]"

definition css_handlers :: "handler list" where
  "css_handlers =
    [absent_handler ''CSS'' ''enable'' [],
     absent_handler ''CSS'' ''disable'' [],
     absent_handler ''CSS'' ''getMatchedStylesForNode'' [Required PInt ''nodeId'', Optional PBoolean ''excludePseudo'',
        Optional PBoolean ''excludeInherited''],
     absent_handler ''CSS'' ''getInlineStylesForNode'' [Required PInt ''nodeId''],
     absent_handler ''CSS'' ''getComputedStyleForNode'' [Required PInt ''nodeId''],
     absent_handler ''CSS'' ''getPlatformFontsForNode'' [Required PInt ''nodeId''],
     absent_handler ''CSS'' ''getStyleSheetText'' [Required PString ''styleSheetId''],
     absent_handler ''CSS'' ''setStyleSheetText'' [Required PString ''styleSheetId'', Required PString ''text''],
     absent_handler ''CSS'' ''setPropertyText'' [Required PString ''styleSheetId'', Required PObject ''range'',
        Required PString ''text''],
     absent_handler ''CSS'' ''setRuleSelector'' [Required PString ''styleSheetId'', Required PObject ''range'',
        Required PString ''selector''],
     absent_handler ''CSS'' ''setMediaText'' [Required PString ''styleSheetId'', Required PObject ''range'', Required PString ''text''],
     absent_handler ''CSS'' ''createStyleSheet'' [Required PString ''frameId''],
     absent_handler ''CSS'' ''addRule'' [Required PString ''styleSheetId'', Required PString ''ruleText'',
        Required PObject ''location''],
     absent_handler ''CSS'' ''forcePseudoState'' [Required PInt ''nodeId'', Required PArray ''forcedPseudoClasses''],
     absent_handler ''CSS'' ''getMediaQueries'' []]"

definition timeline_handlers :: "handler list" where
  "timeline_handlers =
    [absent_handler ''Timeline'' ''enable'' [],
     absent_handler ''Timeline'' ''disable'' [],
     absent_handler ''Timeline'' ''start'' [Optional PInt ''maxCallStackDepth'', Optional PBoolean ''bufferEvents'',
        Optional PString ''liveEvents'', Optional PBoolean ''includeCounters'', Optional PBoolean ''includeGPUEvents''],
     absent_handler ''Timeline'' ''stop'' []]"

definition domDebugger_handlers :: "handler list" where
  "domDebugger_handlers =
    [absent_handler ''DOMDebugger'' ''setDOMBreakpoint'' [Required PInt ''nodeId'', Required PString ''type''],
     absent_handler ''DOMDebugger'' ''removeDOMBreakpoint'' [Required PInt ''nodeId'', Required PString ''type''],
     absent_handler ''DOMDebugger'' ''setEventListenerBreakpoint'' [Required PString ''eventName'', Optional PString ''targetName''],
     absent_handler ''DOMDebugger'' ''removeEventListenerBreakpoint'' [Required PString ''eventName'', Optional PString ''targetName''],
     absent_handler ''DOMDebugger'' ''setInstrumentationBreakpoint'' [Required PString ''eventName''],
     absent_handler ''DOMDebugger'' ''removeInstrumentationBreakpoint'' [Required PString ''eventName''],
     absent_handler ''DOMDebugger'' ''setXHRBreakpoint'' [Required PString ''url''],
     absent_handler ''DOMDebugger'' ''removeXHRBreakpoint'' [Required PString ''url''],
     absent_handler ''DOMDebugger'' ''getEventListeners'' [Required PString ''objectId'']]"

definition profiler_handlers :: "handler list" where
  "profiler_handlers =
    [absent_handler ''Profiler'' ''enable'' [],
     absent_handler ''Profiler'' ''disable'' [],
     absent_handler ''Profiler'' ''setSamplingInterval'' [Required PInt ''interval''],
     absent_handler ''Profiler'' ''start'' [],
     absent_handler ''Profiler'' ''stop'' []]"

definition heapProfiler_handlers :: "handler list" where
  "heapProfiler_handlers =
    [absent_handler ''HeapProfiler'' ''enable'' [],
     absent_handler ''HeapProfiler'' ''disable'' [],
     absent_handler ''HeapProfiler'' ''startTrackingHeapObjects'' [Optional PBoolean ''trackAllocations''],
     absent_handler ''HeapProfiler'' ''stopTrackingHeapObjects'' [Optional PBoolean ''reportProgress''],
     absent_handler ''HeapProfiler'' ''takeHeapSnapshot'' [Optional PBoolean ''reportProgress''],
     absent_handler ''HeapProfiler'' ''collectGarbage'' [],
     absent_handler ''HeapProfiler'' ''getObjectByHeapObjectId'' [Required PString ''objectId'', Optional PString ''objectGroup''],
     absent_handler ''HeapProfiler'' ''addInspectedHeapObject'' [Required PString ''heapObjectId''],
     absent_handler ''HeapProfiler'' ''getHeapObjectId'' [Required PString ''objectId'']]"

definition worker_handlers :: "handler list" where
  "worker_handlers =
    [absent_handler ''Worker'' ''enable'' [],
     absent_handler ''Worker'' ''disable'' [],
     absent_handler ''Worker'' ''sendMessageToWorker'' [Required PString ''workerId'', Required PString ''message''],
     absent_handler ''Worker'' ''connectToWorker'' [Required PString ''workerId''],
     absent_handler ''Worker'' ''disconnectFromWorker'' [Required PString ''workerId''],
     absent_handler ''Worker'' ''setAutoconnectToWorkers'' [Required PBoolean ''value'']]"

definition input_handlers :: "handler list" where
  "input_handlers =
    [absent_handler ''Input'' ''dispatchTouchEvent'' [Required PString ''type'', Required PArray ''touchPoints'',
        Optional PInt ''modifiers'', Optional PDouble ''timestamp'']]"

definition layerTree_handlers :: "handler list" where
  "layerTree_handlers =
    [absent_handler ''LayerTree'' ''enable'' [],
     absent_handler ''LayerTree'' ''disable'' [],
     absent_handler ''LayerTree'' ''compositingReasons'' [Required PString ''layerId''],
     absent_handler ''LayerTree'' ''makeSnapshot'' [Required PString ''layerId''],
     absent_handler ''LayerTree'' ''loadSnapshot'' [Required PArray ''tiles''],
     absent_handler ''LayerTree'' ''releaseSnapshot'' [Required PString ''snapshotId''],
     absent_handler ''LayerTree'' ''profileSnapshot'' [Required PString ''snapshotId'', Optional PInt ''minRepeatCount'',
        Optional PDouble ''minDuration'', Optional PObject ''clipRect''],
     absent_handler ''LayerTree'' ''replaySnapshot'' [Required PString ''snapshotId'', Optional PInt ''fromStep'',
        Optional PInt ''toStep'', Optional PDouble ''scale''],
     absent_handler ''LayerTree'' ''snapshotCommandLog'' [Required PString ''snapshotId'']]"

definition deviceOrientation_handlers :: "handler list" where
  "deviceOrientation_handlers =
    [absent_handler ''DeviceOrientation'' ''setDeviceOrientationOverride'' [Required PDouble ''alpha'',
        Required PDouble ''beta'', Required PDouble ''gamma''],
     absent_handler ''DeviceOrientation'' ''clearDeviceOrientationOverride'' []]"

definition tracing_handlers :: "handler list" where
  "tracing_handlers =
    [absent_handler ''Tracing'' ''start'' [Optional PString ''categories'', Optional PString ''options'',
        Optional PDouble ''bufferUsageReportingInterval''],
     absent_handler ''Tracing'' ''end'' []]"

definition animation_handlers :: "handler list" where
  "animation_handlers =
    [absent_handler ''Animation'' ''enable'' [],
     absent_handler ''Animation'' ''getAnimationPlayersForNode'' [Required PInt ''nodeId'',
        Required PBoolean ''includeSubtreeAnimations''],
     absent_handler ''Animation'' ''getPlaybackRate'' [],
     absent_handler ''Animation'' ''setPlaybackRate'' [Required PDouble ''playbackRate''],
     absent_handler ''Animation'' ''setCurrentTime'' [Required PDouble ''currentTime''],
     absent_handler ''Animation'' ''setTiming'' [Required PString ''playerId'', Required PDouble ''duration'',
        Required PDouble ''delay'']]"

definition accessibility_handlers :: "handler list" where
  "accessibility_handlers =
    [absent_handler ''Accessibility'' ''getAXNode'' [Required PInt ''nodeId'']]"

section \<open>The table of commands\<close>

text \<open>The handlers in the order of the numbers of their commands.\<close>

definition handlers :: "handler list" where
  "handlers =
     inspector_handlers @ memory_handlers @ page_handlers @ rendering_handlers @ emulation_handlers @
     runtime_handlers @ console_handlers @ network_handlers @ database_handlers @ indexedDB_handlers @
     cacheStorage_handlers @ domStorage_handlers @ applicationCache_handlers @ fileSystem_handlers @ dom_handlers @
     css_handlers @ timeline_handlers @ debugger_handlers @ domDebugger_handlers @ profiler_handlers @
     heapProfiler_handlers @ worker_handlers @ input_handlers @ layerTree_handlers @ deviceOrientation_handlers @
     tracing_handlers @ animation_handlers @ accessibility_handlers"

definition command_texts :: "string list" where
  "command_texts =
    [''Inspector.enable'', ''Inspector.disable'', ''Memory.getDOMCounters'', ''Page.enable'', ''Page.disable'',
     ''Page.addScriptToEvaluateOnLoad'', ''Page.removeScriptToEvaluateOnLoad'', ''Page.reload'', ''Page.navigate'',
     ''Page.getResourceTree'', ''Page.getResourceContent'', ''Page.searchInResource'', ''Page.setDocumentContent'',
     ''Page.setDeviceOrientationOverride'', ''Page.clearDeviceOrientationOverride'', ''Page.setTouchEmulationEnabled'',
     ''Page.startScreencast'', ''Page.stopScreencast'', ''Page.setShowViewportSizeOnResize'', ''Page.setOverlayMessage'',
     ''Rendering.setShowPaintRects'', ''Rendering.setShowDebugBorders'', ''Rendering.setShowFPSCounter'',
     ''Rendering.setContinuousPaintingEnabled'', ''Rendering.setShowScrollBottleneckRects'',
     ''Emulation.resetScrollAndPageScaleFactor'', ''Emulation.setPageScaleFactor'', ''Emulation.setScriptExecutionDisabled'',
     ''Emulation.setTouchEmulationEnabled'', ''Emulation.setEmulatedMedia'', ''Runtime.evaluate'', ''Runtime.callFunctionOn'',
     ''Runtime.getProperties'', ''Runtime.releaseObject'', ''Runtime.releaseObjectGroup'', ''Runtime.run'', ''Runtime.enable'',
     ''Runtime.disable'', ''Runtime.isRunRequired'', ''Runtime.setCustomObjectFormatterEnabled'', ''Console.enable'',
     ''Console.disable'', ''Console.clearMessages'', ''Network.enable'', ''Network.disable'', ''Network.setUserAgentOverride'',
     ''Network.setExtraHTTPHeaders'', ''Network.getResponseBody'', ''Network.replayXHR'', ''Network.setMonitoringXHREnabled'',
     ''Network.canClearBrowserCache'', ''Network.canClearBrowserCookies'', ''Network.emulateNetworkConditions'',
     ''Network.setCacheDisabled'', ''Network.setDataSizeLimitsForTest'', ''Database.enable'', ''Database.disable'',
     ''Database.getDatabaseTableNames'', ''Database.executeSQL'', ''IndexedDB.enable'', ''IndexedDB.disable'',
     ''IndexedDB.requestDatabaseNames'', ''IndexedDB.requestDatabase'', ''IndexedDB.requestData'',
     ''IndexedDB.clearObjectStore'', ''CacheStorage.requestCacheNames'', ''CacheStorage.requestEntries'',
     ''CacheStorage.deleteCache'', ''CacheStorage.deleteEntry'', ''DOMStorage.enable'', ''DOMStorage.disable'',
     ''DOMStorage.getDOMStorageItems'', ''DOMStorage.setDOMStorageItem'', ''DOMStorage.removeDOMStorageItem'',
     ''ApplicationCache.getFramesWithManifests'', ''ApplicationCache.enable'', ''ApplicationCache.getManifestForFrame'',
     ''ApplicationCache.getApplicationCacheForFrame'', ''FileSystem.enable'', ''FileSystem.disable'',
     ''FileSystem.requestFileSystemRoot'', ''FileSystem.requestDirectoryContent'', ''FileSystem.requestMetadata'',
     ''FileSystem.requestFileContent'', ''FileSystem.deleteEntry'', ''DOM.enable'', ''DOM.disable'', ''DOM.getDocument'',
     ''DOM.requestChildNodes'', ''DOM.querySelector'', ''DOM.querySelectorAll'', ''DOM.setNodeName'', ''DOM.setNodeValue'',
     ''DOM.removeNode'', ''DOM.setAttributeValue'', ''DOM.setAttributesAsText'', ''DOM.removeAttribute'', ''DOM.getOuterHTML'',
     ''DOM.setOuterHTML'', ''DOM.performSearch'', ''DOM.getSearchResults'', ''DOM.discardSearchResults'', ''DOM.requestNode'',
     ''DOM.setInspectModeEnabled'', ''DOM.highlightRect'', ''DOM.highlightQuad'', ''DOM.highlightNode'', ''DOM.hideHighlight'',
     ''DOM.highlightFrame'', ''DOM.pushNodeByPathToFrontend'', ''DOM.pushNodesByBackendIdsToFrontend'',
     ''DOM.setInspectedNode'', ''DOM.resolveNode'', ''DOM.getAttributes'', ''DOM.copyTo'', ''DOM.moveTo'', ''DOM.undo'',
     ''DOM.redo'', ''DOM.markUndoableState'', ''DOM.focus'', ''DOM.setFileInputFiles'', ''DOM.getBoxModel'',
     ''DOM.getNodeForLocation'', ''DOM.getRelayoutBoundary'', ''DOM.getHighlightObjectForTest'', ''CSS.enable'',
     ''CSS.disable'', ''CSS.getMatchedStylesForNode'', ''CSS.getInlineStylesForNode'', ''CSS.getComputedStyleForNode'',
     ''CSS.getPlatformFontsForNode'', ''CSS.getStyleSheetText'', ''CSS.setStyleSheetText'', ''CSS.setPropertyText'',
     ''CSS.setRuleSelector'', ''CSS.setMediaText'', ''CSS.createStyleSheet'', ''CSS.addRule'', ''CSS.forcePseudoState'',
     ''CSS.getMediaQueries'', ''Timeline.enable'', ''Timeline.disable'', ''Timeline.start'', ''Timeline.stop'',
     ''Debugger.enable'', ''Debugger.disable'', ''Debugger.setBreakpointsActive'', ''Debugger.setSkipAllPauses'',
     ''Debugger.setBreakpointByUrl'', ''Debugger.setBreakpoint'', ''Debugger.removeBreakpoint'',
     ''Debugger.continueToLocation'', ''Debugger.stepOver'', ''Debugger.stepInto'', ''Debugger.stepOut'', ''Debugger.pause'',
     ''Debugger.resume'', ''Debugger.stepIntoAsync'', ''Debugger.searchInContent'', ''Debugger.canSetScriptSource'',
     ''Debugger.setScriptSource'', ''Debugger.restartFrame'', ''Debugger.getScriptSource'', ''Debugger.getFunctionDetails'',
     ''Debugger.getGeneratorObjectDetails'', ''Debugger.getCollectionEntries'', ''Debugger.setPauseOnExceptions'',
     ''Debugger.evaluateOnCallFrame'', ''Debugger.compileScript'', ''Debugger.runScript'', ''Debugger.setVariableValue'',
     ''Debugger.getStepInPositions'', ''Debugger.getBacktrace'', ''Debugger.skipStackFrames'',
     ''Debugger.setAsyncCallStackDepth'', ''Debugger.enablePromiseTracker'', ''Debugger.disablePromiseTracker'',
     ''Debugger.getPromiseById'', ''Debugger.flushAsyncOperationEvents'', ''Debugger.setAsyncOperationBreakpoint'',
     ''Debugger.removeAsyncOperationBreakpoint'', ''DOMDebugger.setDOMBreakpoint'', ''DOMDebugger.removeDOMBreakpoint'',
     ''DOMDebugger.setEventListenerBreakpoint'', ''DOMDebugger.removeEventListenerBreakpoint'',
     ''DOMDebugger.setInstrumentationBreakpoint'', ''DOMDebugger.removeInstrumentationBreakpoint'',
     ''DOMDebugger.setXHRBreakpoint'', ''DOMDebugger.removeXHRBreakpoint'', ''DOMDebugger.getEventListeners'',
     ''Profiler.enable'', ''Profiler.disable'', ''Profiler.setSamplingInterval'', ''Profiler.start'', ''Profiler.stop'',
     ''HeapProfiler.enable'', ''HeapProfiler.disable'', ''HeapProfiler.startTrackingHeapObjects'',
     ''HeapProfiler.stopTrackingHeapObjects'', ''HeapProfiler.takeHeapSnapshot'', ''HeapProfiler.collectGarbage'',
     ''HeapProfiler.getObjectByHeapObjectId'', ''HeapProfiler.addInspectedHeapObject'', ''HeapProfiler.getHeapObjectId'',
     ''Worker.enable'', ''Worker.disable'', ''Worker.sendMessageToWorker'', ''Worker.connectToWorker'',
     ''Worker.disconnectFromWorker'', ''Worker.setAutoconnectToWorkers'', ''Input.dispatchTouchEvent'', ''LayerTree.enable'',
     ''LayerTree.disable'', ''LayerTree.compositingReasons'', ''LayerTree.makeSnapshot'', ''LayerTree.loadSnapshot'',
     ''LayerTree.releaseSnapshot'', ''LayerTree.profileSnapshot'', ''LayerTree.replaySnapshot'',
     ''LayerTree.snapshotCommandLog'', ''DeviceOrientation.setDeviceOrientationOverride'',
     ''DeviceOrientation.clearDeviceOrientationOverride'', ''Tracing.start'', ''Tracing.end'', ''Animation.enable'',
     ''Animation.getAnimationPlayersForNode'', ''Animation.getPlaybackRate'', ''Animation.setPlaybackRate'',
     ''Animation.setCurrentTime'', ''Animation.setTiming'', ''Accessibility.getAXNode'']"

text \<open>
  The names of all commands, each closed by a zero, in one text, and the position at
  which the name of each command starts.
\<close>

definition commandNames :: string where
  "commandNames = concat (map (\<lambda>name. name @ [CHR 0x00]) command_texts)"

definition commandNamesIndex :: "nat list" where
  "commandNamesIndex =
    [0, 17, 35, 57, 69, 82, 113, 147, 159, 173, 194, 218, 240, 264, 298, 334, 364, 385, 405, 438, 461, 489, 519, 547, 586, 625,
     665, 694, 731, 766, 793, 810, 833, 855, 877, 904, 916, 931, 947, 969, 1009, 1024, 1040, 1062, 1077, 1093, 1122, 1150,
     1174, 1192, 1224, 1253, 1284, 1317, 1342, 1375, 1391, 1408, 1439, 1459, 1476, 1494, 1525, 1551, 1573, 1600, 1631, 1659,
     1684, 1709, 1727, 1746, 1776, 1805, 1837, 1877, 1901, 1938, 1983, 2001, 2020, 2053, 2088, 2115, 2145, 2168, 2179, 2191,
     2207, 2229, 2247, 2268, 2284, 2301, 2316, 2338, 2362, 2382, 2399, 2416, 2434, 2455, 2480, 2496, 2522, 2540, 2558, 2576,
     2594, 2613, 2642, 2678, 2699, 2715, 2733, 2744, 2755, 2764, 2773, 2795, 2805, 2827, 2843, 2866, 2890, 2920, 2931, 2943,
     2971, 2998, 3026, 3054, 3076, 3098, 3118, 3138, 3155, 3176, 3188, 3209, 3229, 3245, 3262, 3277, 3291, 3307, 3324, 3354,
     3380, 3408, 3431, 3457, 3485, 3503, 3521, 3538, 3553, 3569, 3592, 3617, 3645, 3670, 3692, 3717, 3745, 3780, 3810, 3840,
     3869, 3892, 3911, 3937, 3965, 3987, 4012, 4044, 4074, 4105, 4129, 4164, 4201, 4241, 4270, 4302, 4341, 4383, 4424, 4468,
     4497, 4529, 4559, 4575, 4592, 4621, 4636, 4650, 4670, 4691, 4729, 4766, 4796, 4824, 4861, 4897, 4926, 4940, 4955, 4982,
     5005, 5033, 5064, 5089, 5106, 5124, 5153, 5176, 5199, 5225, 5251, 5276, 5305, 5352, 5401, 5415, 5427, 5444, 5481, 5507,
     5533, 5558, 5578]"

definition commandName :: "nat \<Rightarrow> string" where
  "commandName i = takeWhile (\<lambda>c. c \<noteq> CHR 0x00) (drop (commandNamesIndex ! i) commandNames)"

definition m_dispatchMap :: "(wstr, handler) hmap" where
  "m_dispatchMap = map (\<lambda>i. (lit (commandName i), handlers ! i)) [0..<length handlers]"

lemmas absent_handler_defs = inspector_handlers_def memory_handlers_def page_handlers_def rendering_handlers_def emulation_handlers_def
  console_handlers_def network_handlers_def database_handlers_def indexedDB_handlers_def cacheStorage_handlers_def
  domStorage_handlers_def applicationCache_handlers_def fileSystem_handlers_def dom_handlers_def css_handlers_def
  timeline_handlers_def domDebugger_handlers_def profiler_handlers_def heapProfiler_handlers_def worker_handlers_def
  input_handlers_def layerTree_handlers_def deviceOrientation_handlers_def tracing_handlers_def
  animation_handlers_def accessibility_handlers_def

section \<open>Every command reaches its handler\<close>

fun offsets :: "nat \<Rightarrow> string list \<Rightarrow> nat list" where
  "offsets k [] = []"
| "offsets k (n # ns) = k # offsets (k + length n + 1) ns"

lemma takeWhile_zero: "CHR 0x00 \<notin> set n \<Longrightarrow> takeWhile (\<lambda>c. c \<noteq> CHR 0x00) (n @ CHR 0x00 # rest) = n"
  by (subst takeWhile_append2) auto

lemma names_at_offsets:
  assumes "i < length ns" and "list_all (\<lambda>n. CHR 0x00 \<notin> set n) ns"
  shows "takeWhile (\<lambda>c. c \<noteq> CHR 0x00) (drop (offsets (length pre) ns ! i) (pre @ concat (map (\<lambda>n. n @ [CHR 0x00]) ns))) = ns ! i"
  using assms
proof (induction ns arbitrary: pre i)
  case (Cons n ns)
  show ?case
  proof (cases i)
    case 0
    thus ?thesis using Cons.prems by (simp add: takeWhile_zero)
  next
    case (Suc j)
    thus ?thesis using Cons.IH [of j "pre @ n @ [CHR 0x00]"] Cons.prems by simp
  qed
qed simp

fun skip :: "nat \<Rightarrow> string \<Rightarrow> nat" where
  "skip k [] = k + 1"
| "skip k (c # cs) = skip (k + 1) cs"

lemma skip_length: "skip k n = k + length n + 1"
  by (induction n arbitrary: k) auto

fun scan :: "nat \<Rightarrow> nat list \<Rightarrow> nat list" where
  "scan k [] = []"
| "scan k (l # ls) = k # scan (k + l) ls"

lemma offsets_scan: "offsets k ns = scan k (map (skip 0) ns)"
  by (induction k ns rule: offsets.induct) (simp_all add: skip_length add.assoc)

lemma commandNamesIndex_offsets: "commandNamesIndex = offsets 0 command_texts"
  unfolding offsets_scan by (simp add: commandNamesIndex_def command_texts_def)

lemma command_texts_zero: "list_all (\<lambda>n. CHR 0x00 \<notin> set n) command_texts"
  by (simp add: command_texts_def)

lemmas handler_defs = runtime_handlers_def debugger_handlers_def runtime_handler_defs debugger_handler_defs absent_handler_defs absent_handler_def

lemma handlers_texts: "map h_method handlers = command_texts"
  by (simp add: handlers_def command_texts_def handler_defs)

text \<open>The domain is the part of a name before the dot; names of different domains are different.\<close>

definition domain_of :: "string \<Rightarrow> string" where
  "domain_of name = takeWhile (\<lambda>c. c \<noteq> CHR ''.'') name"

lemma distinct_by_domain:
  "list_all2 (\<lambda>d hs. distinct (map h_method hs) \<and> list_all (\<lambda>h. domain_of (h_method h) = d) hs) ds hss \<Longrightarrow> distinct ds \<Longrightarrow>
   distinct (map h_method (concat hss)) \<and> (\<forall>h \<in> set (concat hss). domain_of (h_method h) \<in> set ds)"
proof (induction ds hss rule: list_all2_induct)
  case (Cons d ds hs hss)
  hence "set (map h_method hs) \<inter> set (map h_method (concat hss)) = {}"
    by (fastforce simp: list_all_iff)
  thus ?case using Cons by (auto simp: list_all_iff)
qed simp

lemma handlers_concat:
  "handlers = concat
    [inspector_handlers, memory_handlers, page_handlers, rendering_handlers, emulation_handlers, runtime_handlers,
     console_handlers, network_handlers, database_handlers, indexedDB_handlers, cacheStorage_handlers, domStorage_handlers,
     applicationCache_handlers, fileSystem_handlers, dom_handlers, css_handlers, timeline_handlers, debugger_handlers,
     domDebugger_handlers, profiler_handlers, heapProfiler_handlers, worker_handlers, input_handlers, layerTree_handlers,
     deviceOrientation_handlers, tracing_handlers, animation_handlers, accessibility_handlers]"
  by (simp add: handlers_def)

lemma handler_names_distinct: "distinct (map h_method handlers)"
  unfolding handlers_concat
proof (rule distinct_by_domain [THEN conjunct1])
  show "distinct [''Inspector'', ''Memory'', ''Page'', ''Rendering'', ''Emulation'', ''Runtime'', ''Console'', ''Network'', ''Database'',
     ''IndexedDB'', ''CacheStorage'', ''DOMStorage'', ''ApplicationCache'', ''FileSystem'', ''DOM'', ''CSS'', ''Timeline'',
     ''Debugger'', ''DOMDebugger'', ''Profiler'', ''HeapProfiler'', ''Worker'', ''Input'', ''LayerTree'',
     ''DeviceOrientation'', ''Tracing'', ''Animation'', ''Accessibility'']" by simp
qed (simp add: handler_defs domain_of_def)

lemma commandName_text: "i < length command_texts \<Longrightarrow> commandName i = command_texts ! i"
  using names_at_offsets [of i command_texts "[]"] command_texts_zero
  by (simp add: commandName_def commandNames_def commandNamesIndex_offsets)

lemma handlers_length: "length handlers = length command_texts"
  using arg_cong [OF handlers_texts, of length] by simp

lemma commandName_handler: "i < length handlers \<Longrightarrow> commandName i = h_method (handlers ! i)"
  using commandName_text [of i] handlers_length nth_map [of i handlers h_method] by (simp add: handlers_texts)

lemma m_dispatchMap_eq: "m_dispatchMap = map (\<lambda>h. (lit (h_method h), h)) handlers"
  by (rule nth_equalityI) (auto simp: m_dispatchMap_def commandName_handler)

lemma m_dispatchMap_find: "hget m_dispatchMap name = Some h \<longleftrightarrow> h \<in> set handlers \<and> name = lit (h_method h)"
proof -
  have "distinct (map fst m_dispatchMap)"
    using handler_names_distinct by (simp add: m_dispatchMap_eq distinct_map inj_on_def)
  thus ?thesis by (auto simp: hget_def map_of_eq_Some_iff) (auto simp: m_dispatchMap_eq)
qed


end
