(* ===== verification/Dispatcher.thy ===== *)
theory Dispatcher
  imports Command_Table
begin

text \<open>
  Dispatching of the messages of the front end (core/InspectorBackendDispatcher.cpp): the
  handlers run against the registered agents; that agents are called with typed
  parameters only, that every message gets one reply with its id, and that faulty
  requests are answered and change nothing.
\<close>

section \<open>Dispatching\<close>

text \<open>
  The members of the dispatcher that matter here: whether there is a channel to the
  front end, and the domains of the agents that were registered.
\<close>

record dispatcher =
  bd_channel :: bool
  bd_domains :: "string list"

definition new_dispatcher :: "bool \<Rightarrow> dispatcher" where
  "new_dispatcher channel = \<lparr>bd_channel = channel, bd_domains = []\<rparr>"

definition registerAgent :: "string \<Rightarrow> dispatcher \<Rightarrow> dispatcher" where
  "registerAgent domain D = D\<lparr>bd_domains := bd_domains D @ [domain]\<rparr>"

definition clearFrontend :: "dispatcher \<Rightarrow> dispatcher" where
  "clearFrontend D = D\<lparr>bd_channel := False\<rparr>"

definition has_agent :: "dispatcher \<Rightarrow> handler \<Rightarrow> bool" where
  "has_agent D h \<longleftrightarrow> h_domain h \<in> set (bd_domains D)"

definition InvalidParamsFormat :: "string \<Rightarrow> wstr" where
  "InvalidParamsFormat name = lit ''Some arguments of method '' @ quoted name @ lit '' can't be processed''"

definition not_available :: "string \<Rightarrow> json" where
  "not_available domain = JSONString (lit (domain @ '' handler is not available.''))"

definition run_handler :: "'w worker \<Rightarrow> dispatcher \<Rightarrow> handler \<Rightarrow> int \<Rightarrow> json_object \<Rightarrow> 'w inspector \<Rightarrow> (json_object \<times> 'w inspector) cxx" where
  "run_handler W D h callId request s =
    (case read_parameters (getObject request (lit ''params'')) (h_params h) (if has_agent D h then [] else [not_available (h_domain h)]) of
       (vs, protocolErrors) \<Rightarrow>
         (if protocolErrors \<noteq> []
          then Val (reportProtocolError callId InvalidParams (InvalidParamsFormat (h_method h)) (Some (JSONArray protocolErrors)), s)
          else need (h_call h vs) (\<lambda>call.
            bind_cxx (perform W call s) (\<lambda>(answer, s).
              Val (sendResponse callId (ans_error answer) (ans_data answer) (ans_result answer), s)))))"

definition method_not_found :: "int \<Rightarrow> wstr \<Rightarrow> json_object" where
  "method_not_found callId method =
    reportProtocolError callId MethodNotFound ([39] @ method @ [39] @ lit '' wasn't found'') None"

definition dispatch_request :: "'w worker \<Rightarrow> dispatcher \<Rightarrow> int \<Rightarrow> wstr \<Rightarrow> json_object \<Rightarrow> 'w inspector \<Rightarrow> (json_object \<times> 'w inspector) cxx" where
  "dispatch_request W D callId method request s =
    (case hget m_dispatchMap method of
       None \<Rightarrow> Val (method_not_found callId method, s)
     | Some h \<Rightarrow> run_handler W D h callId request s)"

text \<open>
  A message that is not an object, or that has no id or no method, makes the
  dispatcher use a null pointer: the assertions that exclude this are not compiled in.
\<close>

definition dispatch :: "'w worker \<Rightarrow> dispatcher \<Rightarrow> wstr \<Rightarrow> 'w inspector \<Rightarrow> (json_object list \<times> 'w inspector) cxx" where
  "dispatch W D message s =
    bind_cxx (parseJSON (wk_platform W) message) (\<lambda>parsedMessage.
      need (Option.bind parsedMessage asObject) (\<lambda>messageObject.
      need (getValue messageObject (lit ''id'')) (\<lambda>callIdValue.
      need (Option.bind (getValue messageObject (lit ''method'')) asString) (\<lambda>method.
        bind_cxx (dispatch_request W D (case asNumber_int callIdValue of None \<Rightarrow> 0 | Some i \<Rightarrow> i) method messageObject s) (\<lambda>(reply, s).
          Val (if bd_channel D then [reply] else [], s))))))"

definition getCommandName :: "platform \<Rightarrow> wstr \<Rightarrow> wstr option cxx" where
  "getCommandName P message =
    bind_cxx (parseJSON P message) (\<lambda>v. Val (Option.bind (Option.bind v asObject) (\<lambda>ob. getString ob (lit ''method''))))"

section \<open>Requests are answered\<close>

lemma handlers_set: "h \<in> set handlers \<Longrightarrow> h \<in> set runtime_handlers \<or> h \<in> set debugger_handlers \<or> h_domain h \<notin> {''Runtime'', ''Debugger''}"
  unfolding handlers_def absent_handler_defs absent_handler_def by auto

text \<open>The agents of the program; every handler of theirs has a call to make with acceptable parameters.\<close>

definition agents_only :: "dispatcher \<Rightarrow> bool" where
  "agents_only D \<longleftrightarrow> set (bd_domains D) \<subseteq> {''Runtime'', ''Debugger''}"

lemma handler_call:
  assumes "h \<in> set handlers" and "agents_only D" and "has_agent D h" and "list_all (acceptable ob) (h_params h)"
  shows "\<exists>call. h_call h (map (param_read ob) (h_params h)) = Some call"
proof -
  have "h \<in> set runtime_handlers \<or> h \<in> set debugger_handlers"
    using handlers_set [OF assms(1)] assms(2,3) by (auto simp: agents_only_def has_agent_def)
  thus ?thesis using runtime_handlers_call debugger_handlers_call assms(4) by blast
qed

definition typed_as :: "json_object option \<Rightarrow> param \<Rightarrow> param_value option \<Rightarrow> bool" where
  "typed_as ob p v \<longleftrightarrow>
    (case v of None \<Rightarrow> \<not> is_required p \<and> param_json ob p = None
     | Some x \<Rightarrow> has_type (p_type p) x \<and> Option.bind (param_json ob p) (as_method (p_type p)) = Some x)"

lemma acceptable_typed_as: "acceptable ob p \<Longrightarrow> typed_as ob p (param_read ob p)"
  using acceptable_typed [of ob p] by (auto simp: typed_as_def param_read_def split: option.splits)

lemma parameters_typed_as: "list_all (acceptable ob) ps \<Longrightarrow> list_all2 (typed_as ob) ps (map (param_read ob) ps)"
  by (induction ps) (auto simp: acceptable_typed_as)

lemma run_handler_refuses:
  assumes "\<not> (has_agent D h \<and> list_all (acceptable (getObject request (lit ''params''))) (h_params h))"
  shows "\<exists>es. run_handler W D h callId request s =
      Val (reportProtocolError callId InvalidParams (InvalidParamsFormat (h_method h)) (Some (JSONArray (map JSONString es))), s) \<and>
    length es = (if has_agent D h then 0 else 1) + length (filter (\<lambda>p. \<not> acceptable (getObject request (lit ''params'')) p) (h_params h))"
proof -
  let ?ob = "getObject request (lit ''params'')"
  obtain es where es: "read_parameters ?ob (h_params h) (if has_agent D h then [] else [not_available (h_domain h)]) =
      (map (param_read ?ob) (h_params h), (if has_agent D h then [] else [not_available (h_domain h)]) @ map JSONString es)"
    "length es = length (filter (\<lambda>p. \<not> acceptable ?ob p) (h_params h))"
    using read_parameters_eq by blast
  have "\<not> has_agent D h \<or> es \<noteq> []" using assms es(2) by (auto simp: list_all_iff filter_empty_conv)
  thus ?thesis using es
    by (intro exI [of _ "(if has_agent D h then [] else [lit (h_domain h @ '' handler is not available.'')]) @ es"])
      (auto simp: run_handler_def not_available_def)
qed

lemma run_handler_calls:
  assumes "has_agent D h" and "list_all (acceptable (getObject request (lit ''params''))) (h_params h)"
  shows "run_handler W D h callId request s =
    need (h_call h (map (param_read (getObject request (lit ''params''))) (h_params h))) (\<lambda>call.
      bind_cxx (perform W call s) (\<lambda>(answer, s).
        Val (sendResponse callId (ans_error answer) (ans_data answer) (ans_result answer), s)))"
proof -
  let ?ob = "getObject request (lit ''params'')"
  have "filter (\<lambda>p. \<not> acceptable ?ob p) (h_params h) = []" using assms(2) by (simp add: list_all_iff filter_empty_conv)
  hence "read_parameters ?ob (h_params h) [] = (map (param_read ?ob) (h_params h), [])"
    using read_parameters_eq [of ?ob "h_params h" "[]"] by auto
  thus ?thesis using assms(1) by (simp add: run_handler_def)
qed

text \<open>
  C2: an agent is called only with values that were read from the parameters of the
  request with the declared types, every required one among them, and there always is
  such a call when the parameters are acceptable.  Otherwise the request is refused
  with one complaint for each parameter that is missing or of a wrong type, and one
  for a domain without an agent, and nothing changes.
\<close>

theorem parameters_checked:
  assumes "hget m_dispatchMap method = Some h" and "agents_only D"
  shows "if has_agent D h \<and> list_all (acceptable (getObject request (lit ''params''))) (h_params h)
    then \<exists>vs call. list_all2 (typed_as (getObject request (lit ''params''))) (h_params h) vs \<and> h_call h vs = Some call \<and>
      run_handler W D h callId request s = bind_cxx (perform W call s) (\<lambda>(answer, t).
        Val (sendResponse callId (ans_error answer) (ans_data answer) (ans_result answer), t))
    else \<exists>es. run_handler W D h callId request s =
        Val (reportProtocolError callId InvalidParams (InvalidParamsFormat (h_method h)) (Some (JSONArray (map JSONString es))), s) \<and>
      length es = (if has_agent D h then 0 else 1) + length (filter (\<lambda>p. \<not> acceptable (getObject request (lit ''params'')) p) (h_params h))"
proof (cases "has_agent D h \<and> list_all (acceptable (getObject request (lit ''params''))) (h_params h)")
  case True
  obtain call where "h_call h (map (param_read (getObject request (lit ''params''))) (h_params h)) = Some call"
    using handler_call [of h D] assms True by (auto simp: m_dispatchMap_find)
  thus ?thesis using True parameters_typed_as run_handler_calls [of D h request W callId s] by (auto simp: need_def)
next
  case False
  thus ?thesis using run_handler_refuses [OF False] by auto
qed

lemma number_json_inj [simp]: "number_json i = number_json j \<longleftrightarrow> i = j"
  by (simp add: number_json_def)

definition call_id :: "json \<Rightarrow> int" where
  "call_id v = (case asNumber_int v of None \<Rightarrow> 0 | Some i \<Rightarrow> i)"

text \<open>What the dispatcher reads from a message.\<close>

definition request_of :: "platform \<Rightarrow> wstr \<Rightarrow> json_object \<Rightarrow> int \<Rightarrow> wstr \<Rightarrow> bool" where
  "request_of P message request callId method \<longleftrightarrow>
    parseJSON P message = Val (Some (JSONObject request)) \<and>
    (\<exists>v. getValue request (lit ''id'') = Some v \<and> call_id v = callId) \<and> getString request (lit ''method'') = Some method"

lemma getString_bind: "getString ob name = Option.bind (getValue ob name) asString"
  by (simp add: getString_def split: option.splits)

lemma dispatch_request_of:
  assumes "request_of (wk_platform W) message request callId method"
  shows "dispatch W D message s =
    bind_cxx (dispatch_request W D callId method request s) (\<lambda>(reply, s). Val (if bd_channel D then [reply] else [], s))"
  using assms by (auto simp: request_of_def dispatch_def need_def getString_bind call_id_def asObject_def)

lemma dispatch_defined_request:
  assumes "dispatch W D message s = Val (replies, t)"
  shows "\<exists>request callId method. request_of (wk_platform W) message request callId method"
proof -
  obtain v where v: "parseJSON (wk_platform W) message = Val v" using assms by (auto simp: dispatch_def bind_cxx_eq_Val)
  obtain request where r: "Option.bind v asObject = Some request"
    "need (getValue request (lit ''id'')) (\<lambda>callIdValue.
      need (Option.bind (getValue request (lit ''method'')) asString) (\<lambda>method.
        bind_cxx (dispatch_request W D (case asNumber_int callIdValue of None \<Rightarrow> 0 | Some i \<Rightarrow> i) method request s) (\<lambda>(reply, s).
          Val (if bd_channel D then [reply] else [], s)))) = Val (replies, t)"
    using assms v by (auto simp: dispatch_def)
  from r(1) have "v = Some (JSONObject request)" by (cases v) (auto simp: asObject_def split: json.splits)
  thus ?thesis using r(2) v by (auto simp: request_of_def getString_bind)
qed

lemma run_handler_reply:
  assumes "run_handler W D h callId request s = Val (reply, t)"
  shows "getValue reply (lit ''id'') = Some (number_json callId) \<and> getValue reply (lit ''method'') = None"
  using assms by (auto simp: run_handler_def bind_cxx_eq_Val split: prod.splits if_splits)

lemma dispatch_one_reply:
  assumes "dispatch W D message s = Val (replies, t)" and "bd_channel D"
  shows "\<exists>request callId method reply. request_of (wk_platform W) message request callId method \<and> replies = [reply] \<and>
    getValue reply (lit ''id'') = Some (number_json callId) \<and> getValue reply (lit ''method'') = None \<and>
    (error_code reply = Some (number_json (m_commonErrors MethodNotFound)) \<longleftrightarrow> hget m_dispatchMap method = None)"
proof -
  obtain request callId command where r: "request_of (wk_platform W) message request callId command"
    using dispatch_defined_request [OF assms(1)] by blast
  obtain reply where reply: "dispatch_request W D callId command request s = Val (reply, t)" "replies = [reply]"
    using assms dispatch_request_of [OF r] by (auto simp: bind_cxx_eq_Val)
  show ?thesis
  proof (cases "hget m_dispatchMap command")
    case None
    hence "reply = method_not_found callId command" using reply(1) by (simp add: dispatch_request_def)
    hence "getValue reply (lit ''id'') = Some (number_json callId)" "getValue reply (lit ''method'') = None"
      "error_code reply = Some (number_json (m_commonErrors MethodNotFound))"
      by (simp_all add: method_not_found_def)
    thus ?thesis using r reply(2) None by metis
  next
    case (Some h)
    hence h: "run_handler W D h callId request s = Val (reply, t)" using reply(1) by (simp add: dispatch_request_def)
    hence "error_code reply \<noteq> Some (number_json (m_commonErrors MethodNotFound))"
      by (auto simp: run_handler_def bind_cxx_eq_Val error_code_response split: prod.splits if_splits)
    thus ?thesis using r reply(2) run_handler_reply [OF h] Some by (metis option.distinct(1))
  qed
qed

text \<open>
  C3: when the dispatcher gets through a message it has read a request from it, and
  sends exactly one message, which has the id of the request and is no notification.
  It reports that the method was not found exactly for a name that is no command.
\<close>

theorem one_reply:
  assumes "dispatch W D message s = Val (replies, t)" and "bd_channel D"
  shows "\<exists>request callId method reply. request_of (wk_platform W) message request callId method \<and> replies = [reply] \<and>
    getValue reply (lit ''id'') = Some (number_json callId) \<and> getValue reply (lit ''method'') = None \<and>
    (error_code reply = Some (number_json (m_commonErrors MethodNotFound)) \<longleftrightarrow> hget m_dispatchMap method = None)"
  using dispatch_one_reply [OF assms] .

definition faulty :: "dispatcher \<Rightarrow> wstr \<Rightarrow> json_object \<Rightarrow> bool" where
  "faulty D method request \<longleftrightarrow>
    (case hget m_dispatchMap method of
       None \<Rightarrow> True
     | Some h \<Rightarrow> \<not> (has_agent D h \<and> list_all (acceptable (getObject request (lit ''params''))) (h_params h)))"

text \<open>
  C12: a request for an unknown method, for a domain without an agent, or with a
  parameter that is missing or of a wrong type is always answered, with the code of
  its fault, and leaves the inspector as it was.
\<close>

theorem faulty_request_answered:
  assumes "request_of (wk_platform W) message request callId method" and "bd_channel D" and "faulty D method request"
  shows "\<exists>reply. dispatch W D message s = Val ([reply], s) \<and> getValue reply (lit ''id'') = Some (number_json callId) \<and>
    error_code reply = Some (number_json (m_commonErrors (if hget m_dispatchMap method = None then MethodNotFound else InvalidParams)))"
proof (cases "hget m_dispatchMap method")
  case None
  thus ?thesis using dispatch_request_of [OF assms(1)] assms(2)
    by (auto simp: dispatch_request_def method_not_found_def)
next
  case (Some h)
  then obtain data where "run_handler W D h callId request s =
      Val (reportProtocolError callId InvalidParams (InvalidParamsFormat (h_method h)) data, s)"
    using run_handler_refuses [of D h request W callId s] assms(3) by (auto simp: faulty_def)
  thus ?thesis using dispatch_request_of [OF assms(1)] assms(2) Some
    by (auto simp: dispatch_request_def)
qed

text \<open>A text that is not the JSON of an object has no defined behaviour.\<close>

lemma malformed_message:
  assumes "parseJSON (wk_platform W) message = Val v" and "Option.bind v asObject = None"
  shows "dispatch W D message s = UB"
  using assms by (simp add: dispatch_def need_def)

section \<open>Samples\<close>

definition sample_request :: "string \<Rightarrow> json_object" where
  "sample_request name = JSONObjectBase [(lit ''id'', JSONNumber (DFin 7)), (lit ''method'', JSONString (lit name))] [lit ''id'', lit ''method'']"

definition sample_dispatcher :: dispatcher where
  "sample_dispatcher = registerAgent ''Debugger'' (registerAgent ''Runtime'' (new_dispatcher True))"

lemma sample_dispatcher_simps [simp]:
  "bd_channel sample_dispatcher" "agents_only sample_dispatcher"
  "has_agent sample_dispatcher h \<longleftrightarrow> h_domain h \<in> {''Runtime'', ''Debugger''}"
  by (auto simp: sample_dispatcher_def registerAgent_def new_dispatcher_def agents_only_def has_agent_def)

lemma sample_request_of:
  "\<exists>message. request_of sample_platform message (sample_request name) 7 (lit name)"
proof -
  have "\<exists>m. toJSONString sample_platform (JSONObject (sample_request name)) = Val m \<and>
      parseJSON sample_platform m = Val (Some (JSONObject (sample_request name)))"
    by (rule toJSONString_parses)
      (simp_all add: sample_request_def object_shape_def hkeys_def lit_simps sample_number stackLimit_def)
  then obtain m where m: "parseJSON sample_platform m = Val (Some (JSONObject (sample_request name)))" by blast
  have "double_to_signed 32 (DFin 7) = 7" using double_to_signed_of_int [of 7] by simp
  thus ?thesis using m
    by (intro exI [of _ m]) (simp add: request_of_def sample_request_def getValue_def getString_def hget_def call_id_def asNumber_int_def asString_def)
qed

lemma sample_params [simp]: "getObject (sample_request name) (lit ''params'') = None"
  by (simp add: sample_request_def getObject_def getValue_def hget_def)

lemma find_Debugger_removeBreakpoint: "hget m_dispatchMap (lit ''Debugger.removeBreakpoint'') = Some Debugger_removeBreakpoint"
  by (simp add: m_dispatchMap_find handlers_def debugger_handlers_def) (simp add: Debugger_removeBreakpoint_def)

definition sample_inspector :: "sample_world inspector" where
  "sample_inspector = \<lparr>i_runtime = new_runtime_agent, i_debugger = enabled_agent [], m_paused = False\<rparr>"

lemma sample_worker_platform [simp]: "wk_platform sample_worker = sample_platform"
  by (simp add: sample_worker_def sample_environment_def)

theorem parameters_checked_witness:
  "\<exists>es. run_handler sample_worker sample_dispatcher Debugger_removeBreakpoint 7 (sample_request ''Debugger.removeBreakpoint'') sample_inspector =
      Val (reportProtocolError 7 InvalidParams (InvalidParamsFormat ''Debugger.removeBreakpoint'') (Some (JSONArray (map JSONString es))),
        sample_inspector) \<and>
    length es = 1"
  using parameters_checked [OF find_Debugger_removeBreakpoint sample_dispatcher_simps(2), of "sample_request ''Debugger.removeBreakpoint''"
      sample_worker 7 sample_inspector]
  by (simp add: Debugger_removeBreakpoint_def acceptable_def param_json_def)

text \<open>A request to the page, which has no agent, and one to the debugger that is carried out.\<close>

lemma find_Page_enable: "hget m_dispatchMap (lit ''Page.enable'') = Some (absent_handler ''Page'' ''enable'' [])"
  by (simp add: m_dispatchMap_find handlers_def page_handlers_def) (simp add: absent_handler_def)

lemma find_Debugger_canSetScriptSource: "hget m_dispatchMap (lit ''Debugger.canSetScriptSource'') = Some Debugger_canSetScriptSource"
  by (simp add: m_dispatchMap_find handlers_def debugger_handlers_def) (simp add: Debugger_canSetScriptSource_def)

theorem faulty_request_answered_witness:
  "\<exists>message reply. dispatch sample_worker sample_dispatcher message sample_inspector = Val ([reply], sample_inspector) \<and>
    getValue reply (lit ''id'') = Some (number_json 7) \<and> error_code reply = Some (number_json (- 32602))"
proof -
  obtain message where m: "request_of sample_platform message (sample_request ''Page.enable'') 7 (lit ''Page.enable'')"
    using sample_request_of by blast
  have "faulty sample_dispatcher (lit ''Page.enable'') (sample_request ''Page.enable'')"
    by (simp add: faulty_def find_Page_enable) (simp add: absent_handler_def)
  from faulty_request_answered [of sample_worker, OF _ _ this, of message 7 sample_inspector] m
  show ?thesis by (auto simp: find_Page_enable)
qed

lemma sample_dispatch:
  "\<exists>message. \<forall>s. dispatch sample_worker sample_dispatcher message s =
    Val ([sendResponse 7 [] None (setBoolean (lit ''result'') True emptyObject)], s)"
proof -
  obtain message where m: "request_of sample_platform message (sample_request ''Debugger.canSetScriptSource'') 7 (lit ''Debugger.canSetScriptSource'')"
    using sample_request_of by blast
  have "dispatch_request sample_worker sample_dispatcher 7 (lit ''Debugger.canSetScriptSource'')
      (sample_request ''Debugger.canSetScriptSource'') s = Val (sendResponse 7 [] None (setBoolean (lit ''result'') True emptyObject), s)" for s
    by (simp add: dispatch_request_def find_Debugger_canSetScriptSource run_handler_calls)
      (simp add: Debugger_canSetScriptSource_def run_handler_def need_def perform_def)
  hence "dispatch sample_worker sample_dispatcher message s = Val ([sendResponse 7 [] None (setBoolean (lit ''result'') True emptyObject)], s)" for s
    using dispatch_request_of [of sample_worker message, OF _, of _ 7 "lit ''Debugger.canSetScriptSource''" sample_dispatcher s] m by simp
  thus ?thesis by blast
qed

theorem one_reply_witness:
  "\<exists>message reply. dispatch sample_worker sample_dispatcher message sample_inspector = Val ([reply], sample_inspector) \<and>
    getValue reply (lit ''method'') = None"
proof -
  obtain message reply where r: "dispatch sample_worker sample_dispatcher message sample_inspector = Val ([reply], sample_inspector)"
    using sample_dispatch by blast
  from one_reply [OF r sample_dispatcher_simps(1)] r show ?thesis by auto
qed

end
