(* ===== verification/Inspector_Server.thy ===== *)
theory Inspector_Server
  imports Dispatcher
begin

text \<open>
  The inspector and its server (v8inspector/V8Inspector.cpp, the registry of
  core/inspector/InspectorBaseAgent.cpp, v8inspector/RemoteDebuggingServer.cc): connecting and
  disconnecting the front end, restoring from a cookie, and the two threads with their
  queues as a step relation; that a session with one client is a sequential program
  whose output is delivered in order, and what happens with more than one connection.
\<close>

section \<open>The inspector\<close>

text \<open>
  The inspector with its agents, its front end and its dispatcher.  The composite
  state gives its cookie to a client that ignores it; what is left of it are the
  properties of the agents and whether it is muted.
\<close>

record 'w v8_inspector =
  vi_agents :: "'w inspector"
  vi_frontend :: bool
  vi_dispatcher :: "dispatcher option"
  vi_muted :: bool

definition name_Runtime :: wstr where
  "name_Runtime = lit ''Runtime''"

definition name_Debugger :: wstr where
  "name_Debugger = lit ''Debugger''"

definition new_v8_inspector :: "'w v8_debugger \<Rightarrow> 'w v8_inspector" where
  "new_v8_inspector d =
    \<lparr>vi_agents = \<lparr>i_runtime = new_runtime_agent, i_debugger = a_init (new_agent d), m_paused = False\<rparr>,
     vi_frontend = False, vi_dispatcher = None, vi_muted = False\<rparr>"

text \<open>Setting the front end of both agents, and clearing it, which disables them first.\<close>

definition set_frontend :: "bool \<Rightarrow> 'w inspector \<Rightarrow> 'w inspector" where
  "set_frontend frontend s =
    s\<lparr>i_runtime := (i_runtime s)\<lparr>r_frontend := frontend\<rparr>, i_debugger := (i_debugger s)\<lparr>a_frontend := frontend\<rparr>\<rparr>"

definition clear_frontend :: "'w worker \<Rightarrow> 'w inspector \<Rightarrow> 'w inspector cxx" where
  "clear_frontend W s =
    (let s = runtime_disable s
     in bind_cxx (disable (wk_environment W) (i_debugger s)) (\<lambda>a. Val (set_frontend False (s\<lparr>i_debugger := a\<rparr>))))"

definition connectFrontend :: "bool \<Rightarrow> 'w v8_inspector \<Rightarrow> 'w v8_inspector" where
  "connectFrontend channel v =
    v\<lparr>vi_muted := False, vi_frontend := True,
      vi_dispatcher := Some (registerAgent ''Debugger'' (registerAgent ''Runtime'' (new_dispatcher channel))),
      vi_agents := set_frontend True (vi_agents v)\<rparr>"

definition disconnectFrontend :: "'w worker \<Rightarrow> 'w v8_inspector \<Rightarrow> 'w v8_inspector cxx" where
  "disconnectFrontend W v =
    (if \<not> vi_frontend v then Val v
     else bind_cxx (clear_frontend W (vi_agents v)) (\<lambda>s.
       Val (v\<lparr>vi_dispatcher := None, vi_muted := True, vi_agents := s, vi_frontend := False\<rparr>)))"

definition dispatchMessageFromFrontend :: "'w worker \<Rightarrow> wstr \<Rightarrow> 'w v8_inspector \<Rightarrow> (json_object list \<times> 'w v8_inspector) cxx" where
  "dispatchMessageFromFrontend W message v =
    (case vi_dispatcher v of
       None \<Rightarrow> Val ([], v)
     | Some D \<Rightarrow> bind_cxx (dispatch W D message (vi_agents v)) (\<lambda>(replies, s). Val (replies, v\<lparr>vi_agents := s\<rparr>)))"

definition dispose :: "'w worker \<Rightarrow> 'w v8_inspector \<Rightarrow> 'w v8_inspector cxx" where
  "dispose W v = disconnectFrontend W v"

text \<open>The composite state over the properties of the two agents, and what a cookie makes of them.\<close>

definition composite_of :: "'w v8_inspector \<Rightarrow> composite_state" where
  "composite_of v =
    \<lparr>m_client = True, m_stateObject = [(name_Runtime, Shared 0), (name_Debugger, Shared 1)], m_isMuted = vi_muted v,
     m_inspectorStateMap = [(name_Runtime, \<lparr>m_properties = 0\<rparr>), (name_Debugger, \<lparr>m_properties = 1\<rparr>)],
     m_store = [r_state (i_runtime (vi_agents v)), a_state (i_debugger (vi_agents v))], m_cookies = []\<rparr>"

definition load_cookie :: "platform \<Rightarrow> wstr \<Rightarrow> 'w v8_inspector \<Rightarrow> 'w inspector cxx" where
  "load_cookie P cookie v =
    bind_cxx (loadFromCookie P cookie (composite_of v)) (\<lambda>c.
      need (agent_properties c name_Runtime) (\<lambda>runtime.
      need (agent_properties c name_Debugger) (\<lambda>debugger.
        let s = vi_agents v
        in Val (s\<lparr>i_runtime := (i_runtime s)\<lparr>r_state := runtime\<rparr>, i_debugger := (i_debugger s)\<lparr>a_state := debugger\<rparr>\<rparr>))))"

definition restoreInspectorStateFromCookie :: "'w worker \<Rightarrow> wstr \<Rightarrow> 'w v8_inspector \<Rightarrow> 'w v8_inspector cxx" where
  "restoreInspectorStateFromCookie W cookie v =
    (let v = connectFrontend False v
     in bind_cxx (load_cookie (wk_platform W) cookie v) (\<lambda>s.
        bind_cxx (runtime_restore W s) (\<lambda>s.
        bind_cxx (restore (wk_environment W) (i_debugger s)) (\<lambda>a.
          Val (v\<lparr>vi_agents := s\<lparr>i_debugger := a\<rparr>\<rparr>)))))"

section \<open>The server\<close>

text \<open>
  The thread of the connections and the main thread, each with the queue of the tasks
  the other one posts to it.  A message is the text \<^verbatim>\<open>String::fromUTF8\<close> makes of
  the bytes; printed messages are plain ASCII, so that their bytes are their
  characters.  \<open>sv_sent\<close> records what was sent over which connection.
\<close>

datatype main_task = HandleConnect int | HandleMessageFromClient int wstr | HandleDisconnect int

record 'w server =
  connection_id :: int
  sv_main :: "main_task list"
  sv_io :: "wstr list"
  sv_inspector :: "'w v8_inspector"
  sv_sent :: "(int \<times> wstr) list"

definition new_server :: "'w v8_inspector \<Rightarrow> 'w server" where
  "new_server v = \<lparr>connection_id = - 1, sv_main = [], sv_io = [], sv_inspector = v, sv_sent = []\<rparr>"

definition post_main :: "main_task \<Rightarrow> 'w server \<Rightarrow> 'w server" where
  "post_main task S = S\<lparr>sv_main := sv_main S @ [task]\<rparr>"

definition OnWebSocketRequest :: "int \<Rightarrow> 'w server \<Rightarrow> 'w server" where
  "OnWebSocketRequest c S = post_main (HandleConnect c) (S\<lparr>connection_id := c\<rparr>)"

definition OnWebSocketMessage :: "int \<Rightarrow> wstr \<Rightarrow> 'w server \<Rightarrow> 'w server" where
  "OnWebSocketMessage c data S = post_main (HandleMessageFromClient c data) S"

definition OnClose :: "int \<Rightarrow> 'w server \<Rightarrow> 'w server" where
  "OnClose c S = post_main (HandleDisconnect c) (S\<lparr>connection_id := - 1\<rparr>)"

definition sendMessageToClient :: "wstr \<Rightarrow> 'w server \<Rightarrow> 'w server" where
  "sendMessageToClient message S =
    (if connection_id S = - 1 then S else S\<lparr>sv_sent := sv_sent S @ [(connection_id S, message)]\<rparr>)"

text \<open>
  What the agents have sent since a state: the notifications of the runtime agent and
  of the debugger agent.  They are sent while a command runs, and so before its reply.
\<close>

fun debugger_messages :: "debugger_event list \<Rightarrow> json_object list cxx" where
  "debugger_messages [] = Val []"
| "debugger_messages (e # es) =
    bind_cxx (debugger_message e) (\<lambda>m. bind_cxx (debugger_messages es) (\<lambda>ms. Val (m # ms)))"

definition notifications :: "'w inspector \<Rightarrow> 'w inspector \<Rightarrow> json_object list cxx" where
  "notifications s t =
    bind_cxx (debugger_messages (drop (length (a_events (i_debugger s))) (a_events (i_debugger t)))) (\<lambda>ms.
      Val (map runtime_message (drop (length (r_events (i_runtime s))) (r_events (i_runtime t))) @ ms))"

fun print_messages :: "platform \<Rightarrow> json_object list \<Rightarrow> wstr list cxx" where
  "print_messages P [] = Val []"
| "print_messages P (m # ms) =
    bind_cxx (toJSONString P (JSONObject m)) (\<lambda>text. bind_cxx (print_messages P ms) (\<lambda>texts. Val (text # texts)))"

definition channel_open :: "'w v8_inspector \<Rightarrow> bool" where
  "channel_open v = (case vi_dispatcher v of None \<Rightarrow> False | Some D \<Rightarrow> bd_channel D)"

text \<open>The texts a task of the main thread makes the server post.\<close>

definition posted :: "'w worker \<Rightarrow> 'w v8_inspector \<Rightarrow> 'w v8_inspector \<Rightarrow> json_object list \<Rightarrow> wstr list cxx" where
  "posted W v v' replies =
    bind_cxx (notifications (vi_agents v) (vi_agents v')) (\<lambda>ns.
      print_messages (wk_platform W) (if channel_open v then ns @ replies else []))"

definition handle_message :: "'w worker \<Rightarrow> wstr \<Rightarrow> 'w v8_inspector \<Rightarrow> (wstr list \<times> 'w v8_inspector) cxx" where
  "handle_message W message v =
    bind_cxx (dispatchMessageFromFrontend W message v) (\<lambda>(replies, v').
    bind_cxx (posted W v v' replies) (\<lambda>texts. Val (texts, v')))"

definition handle_disconnect :: "'w worker \<Rightarrow> 'w v8_inspector \<Rightarrow> (wstr list \<times> 'w v8_inspector) cxx" where
  "handle_disconnect W v =
    bind_cxx (disconnectFrontend W v) (\<lambda>v'. bind_cxx (posted W v v' []) (\<lambda>texts. Val (texts, v')))"

definition handle_task :: "'w worker \<Rightarrow> main_task \<Rightarrow> 'w v8_inspector \<Rightarrow> (wstr list \<times> 'w v8_inspector) cxx" where
  "handle_task W task v =
    (case task of
       HandleConnect _ \<Rightarrow> Val ([], connectFrontend True v)
     | HandleMessageFromClient _ message \<Rightarrow> handle_message W message v
     | HandleDisconnect _ \<Rightarrow> handle_disconnect W v)"

text \<open>
  The steps of the server: its own, the next task of the main thread or the next
  message sent on the thread of the connections, and the events of the connections.
\<close>

inductive own_step :: "'w worker \<Rightarrow> 'w server \<Rightarrow> 'w server \<Rightarrow> bool" for W where
  step_main: "sv_main S = task # tasks \<Longrightarrow> handle_task W task (sv_inspector S) = Val (texts, v) \<Longrightarrow>
    own_step W S (S\<lparr>sv_main := tasks, sv_io := sv_io S @ texts, sv_inspector := v\<rparr>)"
| step_send: "sv_io S = message # messages \<Longrightarrow> own_step W S (sendMessageToClient message (S\<lparr>sv_io := messages\<rparr>))"

inductive server_step :: "'w worker \<Rightarrow> 'w server \<Rightarrow> 'w server \<Rightarrow> bool" for W where
  step_own: "own_step W S T \<Longrightarrow> server_step W S T"
| step_open: "server_step W S (OnWebSocketRequest c S)"
| step_receive: "server_step W S (OnWebSocketMessage c data S)"
| step_close: "server_step W S (OnClose c S)"

inductive_cases own_stepE: "own_step W S T"

section \<open>A session is a sequence of commands\<close>

text \<open>
  The tasks of the main thread one after the other, as a program without threads and
  queues would run them.
\<close>

fun run_main :: "'w worker \<Rightarrow> main_task list \<Rightarrow> 'w v8_inspector \<Rightarrow> (wstr list \<times> 'w v8_inspector) cxx" where
  "run_main W [] v = Val ([], v)"
| "run_main W (task # tasks) v =
    bind_cxx (handle_task W task v) (\<lambda>(texts, v). bind_cxx (run_main W tasks v) (\<lambda>(more, v). Val (texts @ more, v)))"

definition session_tasks :: "int \<Rightarrow> wstr list \<Rightarrow> main_task list" where
  "session_tasks c messages = HandleConnect c # map (HandleMessageFromClient c) messages"

text \<open>The states in which one client is connected from the start and has sent some messages.\<close>

inductive session :: "'w worker \<Rightarrow> int \<Rightarrow> 'w v8_inspector \<Rightarrow> wstr list \<Rightarrow> 'w server \<Rightarrow> bool" for W c v where
  session_open: "session W c v [] (OnWebSocketRequest c (new_server v))"
| session_receive: "session W c v messages S \<Longrightarrow> session W c v (messages @ [m]) (OnWebSocketMessage c m S)"
| session_own: "session W c v messages S \<Longrightarrow> own_step W S T \<Longrightarrow> session W c v messages T"

lemma session_reachable: "session W c v messages S \<Longrightarrow> (server_step W)\<^sup>*\<^sup>* (new_server v) S"
  by (induction rule: session.induct) (auto intro: rtranclp.intros server_step.intros)

lemma run_main_append:
  "run_main W (ts @ us) v =
    bind_cxx (run_main W ts v) (\<lambda>(texts, v). bind_cxx (run_main W us v) (\<lambda>(more, v). Val (texts @ more, v)))"
proof (induction ts arbitrary: v)
  case Nil
  show ?case by (cases "run_main W us v") auto
next
  case (Cons t ts)
  show ?case
  proof (cases "handle_task W t v")
    case (Val r)
    obtain texts v' where r: "r = (texts, v')" by (cases r)
    show ?thesis
    proof (cases "run_main W ts v'")
      case (Val q)
      obtain more w where q: "q = (more, w)" by (cases q)
      show ?thesis by (cases "run_main W us w") (auto simp: Cons.IH \<open>handle_task W t v = Val r\<close> r Val q)
    qed (simp add: Cons.IH \<open>handle_task W t v = Val r\<close> r)
  qed simp
qed

text \<open>
  What holds during a session: the tasks that are done are the first ones of the
  session, and what they made the server post has been sent or waits, in this order.
\<close>

definition session_ok :: "'w worker \<Rightarrow> int \<Rightarrow> 'w v8_inspector \<Rightarrow> wstr list \<Rightarrow> 'w server \<Rightarrow> bool" where
  "session_ok W c v messages S \<longleftrightarrow>
    connection_id S = c \<and>
    (\<exists>executed texts. session_tasks c messages = executed @ sv_main S \<and> run_main W executed v = Val (texts, sv_inspector S) \<and>
      map snd (sv_sent S) @ sv_io S = texts \<and> list_all (\<lambda>p. fst p = c) (sv_sent S))"

lemma own_step_ok:
  assumes "own_step W S T" and "session_ok W c v messages S" and "c \<noteq> - 1"
  shows "session_ok W c v messages T"
  using assms(1)
proof cases
  case (step_main task tasks texts v')
  obtain executed where e: "session_tasks c messages = executed @ task # tasks"
    "run_main W executed v = Val (map snd (sv_sent S) @ sv_io S, sv_inspector S)" "list_all (\<lambda>p. fst p = c) (sv_sent S)"
    using assms(2) step_main by (auto simp: session_ok_def)
  have "run_main W (executed @ [task]) v = Val (map snd (sv_sent S) @ sv_io S @ texts, v')"
    using e(2) step_main by (simp add: run_main_append)
  thus ?thesis using e step_main assms(2)
    by (auto simp: session_ok_def intro!: exI [of _ "executed @ [task]"])
next
  case (step_send message messages)
  thus ?thesis using assms(2,3) by (auto simp: session_ok_def sendMessageToClient_def)
qed

lemma session_ok: "session W c v messages S \<Longrightarrow> c \<noteq> - 1 \<Longrightarrow> session_ok W c v messages S"
proof (induction rule: session.induct)
  case session_open
  show ?case
    by (auto simp: session_ok_def OnWebSocketRequest_def post_main_def new_server_def session_tasks_def)
next
  case (session_receive messages S m)
  thus ?case by (auto simp: session_ok_def OnWebSocketMessage_def post_main_def session_tasks_def)
next
  case (session_own messages S T)
  thus ?case using own_step_ok by blast
qed


lemma drain_main:
  assumes "run_main W (sv_main S) (sv_inspector S) = Val (texts, v)"
  shows "\<exists>T. (own_step W)\<^sup>*\<^sup>* S T \<and> sv_main T = []"
  using assms
proof (induction "sv_main S" arbitrary: S texts)
  case (Cons task tasks)
  obtain ts v' more where t: "handle_task W task (sv_inspector S) = Val (ts, v')" "run_main W tasks v' = Val (more, v)"
    using Cons.prems Cons.hyps(2) [symmetric] by (auto simp: bind_cxx_eq_Val)
  let ?T = "S\<lparr>sv_main := tasks, sv_io := sv_io S @ ts, sv_inspector := v'\<rparr>"
  have "own_step W S ?T" using step_main t(1) Cons.hyps(2) by metis
  moreover obtain T where "(own_step W)\<^sup>*\<^sup>* ?T T" "sv_main T = []" using Cons.hyps(1) [of ?T more] t(2) by auto
  ultimately show ?case by (meson converse_rtranclp_into_rtranclp)
qed auto

lemma drain_io: "\<exists>T. (own_step W)\<^sup>*\<^sup>* S T \<and> sv_io T = [] \<and> sv_main T = sv_main S"
proof (induction "sv_io S" arbitrary: S)
  case (Cons m ms)
  let ?T = "sendMessageToClient m (S\<lparr>sv_io := ms\<rparr>)"
  have T: "sv_io ?T = ms" "sv_main ?T = sv_main S" by (simp_all add: sendMessageToClient_def)
  have "own_step W S ?T" using step_send Cons.hyps(2) by metis
  moreover obtain T where "(own_step W)\<^sup>*\<^sup>* ?T T" "sv_io T = []" "sv_main T = sv_main S" using Cons.hyps(1) [of ?T] T by auto
  ultimately show ?case by (meson converse_rtranclp_into_rtranclp)
qed auto

lemma session_own_steps: "(own_step W)\<^sup>*\<^sup>* S T \<Longrightarrow> session W c v messages S \<Longrightarrow> session W c v messages T"
  by (induction rule: rtranclp_induct) (auto intro: session_own)

lemma sent_pairs: "list_all (\<lambda>p. fst p = c) ps \<Longrightarrow> ps = map (Pair c) (map snd ps)"
  by (induction ps) auto


section \<open>More than one connection\<close>

text \<open>
  The server does not look at which connection is closed: closing any of them makes
  it drop the messages of the session, and disconnects the inspector.
\<close>

lemma close_silences:
  "connection_id (OnClose d S) = - 1 \<and> last (sv_main (OnClose d S)) = HandleDisconnect d \<and>
   sv_sent (sendMessageToClient message (OnClose d S)) = sv_sent S"
  by (simp add: OnClose_def post_main_def sendMessageToClient_def)

lemma disconnect_ignores_connection: "handle_task W (HandleDisconnect d) v = handle_task W (HandleDisconnect e) v"
  by (simp add: handle_task_def)

text \<open>A reply goes to the connection that was opened last, not to the one that sent the request.\<close>

lemma reply_to_newest:
  assumes "d \<noteq> - 1"
  shows "sv_sent (sendMessageToClient reply (OnWebSocketRequest d S)) = sv_sent S @ [(d, reply)]"
  using assms by (simp add: OnWebSocketRequest_def post_main_def sendMessageToClient_def)

text \<open>After disconnecting, messages are ignored until the next connection.\<close>

lemma disconnected_ignores:
  assumes "disconnectFrontend W v = Val v'" and "vi_frontend v"
  shows "handle_message W m v' = Val ([], v')"
proof -
  have "vi_dispatcher v' = None" using assms by (auto simp: disconnectFrontend_def bind_cxx_eq_Val)
  thus ?thesis by (simp add: handle_message_def dispatchMessageFromFrontend_def posted_def notifications_def channel_open_def)
qed

text \<open>Every message handled while connected makes the server post its reply, after the notifications.\<close>

lemma print_messages_append:
  "print_messages P (ms @ ns) = bind_cxx (print_messages P ms) (\<lambda>ts. bind_cxx (print_messages P ns) (\<lambda>us. Val (ts @ us)))"
proof (induction ms)
  case Nil
  show ?case by (cases "print_messages P ns") auto
next
  case (Cons m ms)
  show ?case by (cases "toJSONString P (JSONObject m)"; cases "print_messages P ms"; cases "print_messages P ns") (auto simp: Cons.IH)
qed

lemma handle_message_reply:
  assumes "handle_message W message v = Val (texts, v')" and "channel_open v"
  shows "\<exists>request callId method reply ts printed. request_of (wk_platform W) message request callId method \<and>
    getValue reply (lit ''id'') = Some (number_json callId) \<and> toJSONString (wk_platform W) (JSONObject reply) = Val printed \<and> texts = ts @ [printed]"
proof -
  obtain D where D: "vi_dispatcher v = Some D" "bd_channel D" using assms(2) by (auto simp: channel_open_def split: option.splits)
  obtain replies w where r: "dispatchMessageFromFrontend W message v = Val (replies, w)" "posted W v w replies = Val texts" "v' = w"
    using assms(1) by (auto simp: handle_message_def bind_cxx_eq_Val)
  obtain s where s: "dispatch W D message (vi_agents v) = Val (replies, s)"
    using r(1) D(1) by (auto simp: dispatchMessageFromFrontend_def bind_cxx_eq_Val)
  obtain request callId command reply where q: "request_of (wk_platform W) message request callId command" "replies = [reply]"
    "getValue reply (lit ''id'') = Some (number_json callId)"
    using dispatch_one_reply [OF s D(2)] by blast
  obtain ns where "print_messages (wk_platform W) (ns @ [reply]) = Val texts"
    using r(2) assms(2) q(2) by (auto simp: posted_def bind_cxx_eq_Val)
  then obtain ts printed where "toJSONString (wk_platform W) (JSONObject reply) = Val printed" "texts = ts @ [printed]"
    by (auto simp: print_messages_append bind_cxx_eq_Val)
  thus ?thesis using q by blast
qed

section \<open>A sample session\<close>

definition sample_v8_inspector :: "sample_world v8_inspector" where
  "sample_v8_inspector = new_v8_inspector (new_debugger sample_world0)"

lemma connected_sample:
  "vi_dispatcher (connectFrontend True v) = Some sample_dispatcher" "channel_open (connectFrontend True v)"
  by (simp_all add: connectFrontend_def sample_dispatcher_def channel_open_def registerAgent_def new_dispatcher_def)

lemma sample_reply_printed:
  "\<exists>printed. toJSONString sample_platform (JSONObject (sendResponse 7 [] None (setBoolean (lit ''result'') True emptyObject))) = Val printed"
  using writeJSON_defined [of "JSONObject (sendResponse 7 [] None (setBoolean (lit ''result'') True emptyObject))" sample_platform]
    response_ok(1) [of "setBoolean (lit ''result'') True emptyObject" None 7 "[]"]
  by (auto simp: toJSONString_def defined_def setBoolean_def) (metis cxx.exhaust)

lemma sample_tasks:
  "\<exists>message printed. run_main sample_worker (session_tasks 1 [message]) sample_v8_inspector =
    Val ([printed], connectFrontend True sample_v8_inspector)"
proof -
  obtain message where m: "\<And>s. dispatch sample_worker sample_dispatcher message s =
      Val ([sendResponse 7 [] None (setBoolean (lit ''result'') True emptyObject)], s)"
    using sample_dispatch by blast
  obtain printed where "toJSONString sample_platform (JSONObject (sendResponse 7 [] None (setBoolean (lit ''result'') True emptyObject))) = Val printed"
    using sample_reply_printed by blast
  hence "run_main sample_worker (session_tasks 1 [message]) sample_v8_inspector = Val ([printed], connectFrontend True sample_v8_inspector)"
    by (simp add: session_tasks_def handle_task_def handle_message_def dispatchMessageFromFrontend_def connected_sample m posted_def notifications_def)
  thus ?thesis by blast
qed

lemma sample_session:
  "session W c v [message] (OnWebSocketMessage c message (OnWebSocketRequest c (new_server v)))"
  using session_receive [OF session_open, of W c v message] by simp



end
