(* ===== verification/Hash_Table.thy ===== *)
theory Hash_Table
  imports Prelude
begin

text \<open>
  The open-addressing table \<^verbatim>\<open>WTF::HashTable\<close> (wtf/HashTable.h): double hashing over a
  power of two of buckets, deleted buckets that are reused, growing, shrinking and
  rehashing.  The probe sequence visits every bucket, so that the loops end; the
  lemmas of the last section say what each operation does to the table's content.
\<close>

section \<open>Buckets and probing\<close>

text \<open>
  The empty and the deleted value that the hash traits reserve are constructors
  of their own: no key of a call is one of them, so that comparing a bucket with
  a key before or after testing for them, which the flag
  \<^verbatim>\<open>safeToCompareToEmptyOrDeleted\<close> selects, gives the same result.
\<close>

datatype ('k, 'v) bucket = EmptyBucket | DeletedBucket | Bucket 'k 'v

text \<open>
  A null \<^verbatim>\<open>m_table\<close> is the empty list.  The counters are natural numbers; where the
  source multiplies them the product is taken at the 32 bits of \<^verbatim>\<open>unsigned\<close>.
\<close>

record ('k, 'v) hash_table =
  m_table :: "('k, 'v) bucket list"
  m_tableSize :: nat
  m_keyCount :: nat
  m_deletedCount :: nat

definition HashTable_new :: "('k, 'v) hash_table" where
  "HashTable_new = \<lparr> m_table = [], m_tableSize = 0, m_keyCount = 0, m_deletedCount = 0 \<rparr>"

definition minimumTableSize :: nat where
  "minimumTableSize = 8"

definition m_maxLoad :: nat where "m_maxLoad = 2"

definition m_minLoad :: nat where "m_minLoad = 6"

definition isEmptyBucket :: "('k, 'v) bucket \<Rightarrow> bool" where
  "isEmptyBucket b = (case b of EmptyBucket \<Rightarrow> True | _ \<Rightarrow> False)"

definition isDeletedBucket :: "('k, 'v) bucket \<Rightarrow> bool" where
  "isDeletedBucket b = (case b of DeletedBucket \<Rightarrow> True | _ \<Rightarrow> False)"

definition isEmptyOrDeletedBucket :: "('k, 'v) bucket \<Rightarrow> bool" where
  "isEmptyOrDeletedBucket b \<longleftrightarrow> isEmptyBucket b \<or> isDeletedBucket b"

definition holds_key :: "'k \<Rightarrow> ('k, 'v) bucket \<Rightarrow> bool" where
  "holds_key key b = (case b of Bucket k v \<Rightarrow> k = key | _ \<Rightarrow> False)"

definition doubleHash :: "32 word \<Rightarrow> 32 word" where
  "doubleHash key0 =
    (let key1 = NOT key0 + drop_bit 23 key0;
         key2 = key1 XOR push_bit 12 key1;
         key3 = key2 XOR drop_bit 7 key2;
         key4 = key3 XOR push_bit 2 key3
     in key4 XOR drop_bit 20 key4)"

definition tableSizeMask :: "('k, 'v) hash_table \<Rightarrow> nat" where
  "tableSizeMask t = m_tableSize t - 1"

definition next_step :: "32 word \<Rightarrow> nat \<Rightarrow> nat" where
  "next_step h k = (if k = 0 then unat (1 OR doubleHash h) else k)"

text \<open>
  The loops have no bound of their own.  The value \<open>None\<close> stands for a loop that
  does not end or leaves the buffer, and in the operations below also for a
  failed \<^verbatim>\<open>RELEASE_ASSERT\<close>; a found position is an index into the buffer.
\<close>

partial_function (option) lookup_loop ::
    "('k, 'v) bucket list \<Rightarrow> nat \<Rightarrow> 'k \<Rightarrow> 32 word \<Rightarrow> nat \<Rightarrow> nat \<Rightarrow> nat option option" where
  "lookup_loop table sizeMask key h k i =
    (if length table \<le> i then None
     else if isEmptyBucket (table ! i) then Some None
     else if holds_key key (table ! i) then Some (Some i)
     else lookup_loop table sizeMask key h (next_step h k) ((i + next_step h k) AND sizeMask))"

definition HashTable_lookup :: "('k \<Rightarrow> 32 word) \<Rightarrow> 'k \<Rightarrow> ('k, 'v) hash_table \<Rightarrow> nat option option" where
  "HashTable_lookup hash key t =
    (if m_table t = [] then Some None
     else lookup_loop (m_table t) (tableSizeMask t) key (hash key) 0 (unat (hash key) AND tableSizeMask t))"

text \<open>
  The loop that \<^verbatim>\<open>lookupForWriting\<close>, \<^verbatim>\<open>fullLookupForWriting\<close> and \<^verbatim>\<open>add\<close> contain in three
  copies.  It remembers the last deleted bucket it passed.
\<close>

partial_function (option) writing_loop ::
    "('k, 'v) bucket list \<Rightarrow> nat \<Rightarrow> 'k \<Rightarrow> 32 word \<Rightarrow> nat option \<Rightarrow> nat \<Rightarrow> nat \<Rightarrow>
     (nat option \<times> nat \<times> bool) option" where
  "writing_loop table sizeMask key h deletedEntry k i =
    (if length table \<le> i then None
     else if isEmptyBucket (table ! i) then Some (deletedEntry, i, False)
     else if holds_key key (table ! i) then Some (deletedEntry, i, True)
     else writing_loop table sizeMask key h (if isDeletedBucket (table ! i) then Some i else deletedEntry)
            (next_step h k) ((i + next_step h k) AND sizeMask))"

definition probe_for_writing :: "('k \<Rightarrow> 32 word) \<Rightarrow> 'k \<Rightarrow> ('k, 'v) hash_table \<Rightarrow> (nat option \<times> nat \<times> bool) option" where
  "probe_for_writing hash key t =
    writing_loop (m_table t) (tableSizeMask t) key (hash key) None 0 (unat (hash key) AND tableSizeMask t)"

definition lookupForWriting :: "('k \<Rightarrow> 32 word) \<Rightarrow> 'k \<Rightarrow> ('k, 'v) hash_table \<Rightarrow> (nat \<times> bool) option" where
  "lookupForWriting hash key t =
    map_option (\<lambda>(deletedEntry, entry, found).
        if found then (entry, True)
        else (case deletedEntry of Some d \<Rightarrow> d | None \<Rightarrow> entry, False)) (probe_for_writing hash key t)"

definition fullLookupForWriting :: "('k \<Rightarrow> 32 word) \<Rightarrow> 'k \<Rightarrow> ('k, 'v) hash_table \<Rightarrow> (nat \<times> bool \<times> 32 word) option" where
  "fullLookupForWriting hash key t =
    map_option (\<lambda>(position, found). (position, found, hash key)) (lookupForWriting hash key t)"

section \<open>Growing and shrinking\<close>

definition shouldExpand :: "('k, 'v) hash_table \<Rightarrow> bool" where
  "shouldExpand t \<longleftrightarrow> m_tableSize t \<le> ((m_keyCount t + m_deletedCount t) * m_maxLoad) mod 2 ^ 32"

definition mustRehashInPlace :: "('k, 'v) hash_table \<Rightarrow> bool" where
  "mustRehashInPlace t \<longleftrightarrow> (m_keyCount t * m_minLoad) mod 2 ^ 32 < (m_tableSize t * 2) mod 2 ^ 32"

definition shouldShrink :: "('k, 'v) hash_table \<Rightarrow> bool" where
  "shouldShrink t \<longleftrightarrow> (m_keyCount t * m_minLoad) mod 2 ^ 32 < m_tableSize t \<and> minimumTableSize < m_tableSize t"

definition allocateTable :: "nat \<Rightarrow> ('k, 'v) bucket list" where
  "allocateTable n = replicate n EmptyBucket"

text \<open>
  The entry pointers that \<^verbatim>\<open>rehash\<close> passes along are indices: the one of the new entry
  in the old table on the way in, its place in the new table on the way out.  The
  allocator is \<^verbatim>\<open>DefaultAllocator\<close>, which is not garbage collected and always allows
  an allocation.
\<close>

definition reinsert :: "('k \<Rightarrow> 32 word) \<Rightarrow> 'k \<Rightarrow> 'v \<Rightarrow> ('k, 'v) hash_table \<Rightarrow> (('k, 'v) hash_table \<times> nat) option" where
  "reinsert hash key v t =
    map_option (\<lambda>(newEntry, found). (t\<lparr>m_table := (m_table t)[newEntry := Bucket key v]\<rparr>, newEntry))
      (lookupForWriting hash key t)"

fun rehash_loop :: "('k \<Rightarrow> 32 word) \<Rightarrow> ('k, 'v) bucket list \<Rightarrow> nat \<Rightarrow> nat option \<Rightarrow> nat option \<Rightarrow>
    ('k, 'v) hash_table \<Rightarrow> (('k, 'v) hash_table \<times> nat option) option" where
  "rehash_loop hash [] i entry newEntry t = Some (t, newEntry)"
| "rehash_loop hash (Bucket key v # oldTable) i entry newEntry t =
    (case reinsert hash key v t of
       None \<Rightarrow> None
     | Some (t', reinsertedEntry) \<Rightarrow>
         rehash_loop hash oldTable (i + 1) entry (if entry = Some i then Some reinsertedEntry else newEntry) t')"
| "rehash_loop hash (_ # oldTable) i entry newEntry t = rehash_loop hash oldTable (i + 1) entry newEntry t"

definition rehashTo :: "('k \<Rightarrow> 32 word) \<Rightarrow> ('k, 'v) bucket list \<Rightarrow> nat \<Rightarrow> nat option \<Rightarrow> ('k, 'v) hash_table \<Rightarrow>
    (('k, 'v) hash_table \<times> nat option) option" where
  "rehashTo hash newTable newTableSize entry t =
    map_option (\<lambda>(t', newEntry). (t'\<lparr>m_deletedCount := 0\<rparr>, newEntry))
      (rehash_loop hash (m_table t) 0 entry None (t\<lparr>m_table := newTable, m_tableSize := newTableSize\<rparr>))"

definition rehash :: "('k \<Rightarrow> 32 word) \<Rightarrow> nat \<Rightarrow> nat option \<Rightarrow> ('k, 'v) hash_table \<Rightarrow>
    (('k, 'v) hash_table \<times> nat option) option" where
  "rehash hash newTableSize entry t = rehashTo hash (allocateTable newTableSize) newTableSize entry t"

definition expand :: "('k \<Rightarrow> 32 word) \<Rightarrow> nat option \<Rightarrow> ('k, 'v) hash_table \<Rightarrow>
    (('k, 'v) hash_table \<times> nat option) option" where
  "expand hash entry t =
    (if m_tableSize t = 0 then rehash hash minimumTableSize entry t
     else if mustRehashInPlace t then rehash hash (m_tableSize t) entry t
     else (let newSize = (m_tableSize t * 2) mod 2 ^ 32
           in if newSize \<le> m_tableSize t then None else rehash hash newSize entry t))"

definition HashTable_shrink :: "('k \<Rightarrow> 32 word) \<Rightarrow> ('k, 'v) hash_table \<Rightarrow> ('k, 'v) hash_table option" where
  "HashTable_shrink hash t = map_option fst (rehash hash (m_tableSize t div 2) None t)"

section \<open>Operations of the table\<close>

definition initializeBucket :: "nat \<Rightarrow> ('k, 'v) hash_table \<Rightarrow> ('k, 'v) hash_table" where
  "initializeBucket i t = t\<lparr>m_table := (m_table t)[i := EmptyBucket]\<rparr>"

definition deleteBucket :: "nat \<Rightarrow> ('k, 'v) hash_table \<Rightarrow> ('k, 'v) hash_table" where
  "deleteBucket i t = t\<lparr>m_table := (m_table t)[i := DeletedBucket]\<rparr>"

definition ensure_table :: "('k \<Rightarrow> 32 word) \<Rightarrow> ('k, 'v) hash_table \<Rightarrow> ('k, 'v) hash_table option" where
  "ensure_table hash t = (if m_table t = [] then map_option fst (expand hash None t) else Some t)"

definition translate :: "nat \<Rightarrow> 'k \<Rightarrow> 'v \<Rightarrow> ('k, 'v) hash_table \<Rightarrow> ('k, 'v) hash_table" where
  "translate i key v t = t\<lparr>m_table := (m_table t)[i := Bucket key v]\<rparr>"

text \<open>
  The common end of \<^verbatim>\<open>add\<close> and \<^verbatim>\<open>addPassingHashCode\<close>: store the entry, count it and
  grow the table if it is half full.
\<close>

definition finish_add :: "('k \<Rightarrow> 32 word) \<Rightarrow> nat \<Rightarrow> 'k \<Rightarrow> 'v \<Rightarrow> ('k, 'v) hash_table \<Rightarrow>
    (('k, 'v) hash_table \<times> nat \<times> bool) option" where
  "finish_add hash entry key extra t =
    (let t1 = translate entry key extra t; t2 = t1\<lparr>m_keyCount := m_keyCount t1 + 1\<rparr>
     in if shouldExpand t2
        then (case expand hash (Some entry) t2 of
                Some (t3, Some entry') \<Rightarrow> Some (t3, entry', True)
              | _ \<Rightarrow> None)
        else Some (t2, entry, True))"

definition HashTable_add :: "('k \<Rightarrow> 32 word) \<Rightarrow> 'k \<Rightarrow> 'v \<Rightarrow> ('k, 'v) hash_table \<Rightarrow>
    (('k, 'v) hash_table \<times> nat \<times> bool) option" where
  "HashTable_add hash key extra t0 =
    (case ensure_table hash t0 of
       None \<Rightarrow> None
     | Some t \<Rightarrow>
        (case probe_for_writing hash key t of
           None \<Rightarrow> None
         | Some (deletedEntry, entry, found) \<Rightarrow>
            if found then Some (t, entry, False)
            else (case deletedEntry of
                    Some d \<Rightarrow> finish_add hash d key extra
                      ((initializeBucket d t)\<lparr>m_deletedCount := m_deletedCount t - 1\<rparr>)
                  | None \<Rightarrow> finish_add hash entry key extra t)))"

definition addPassingHashCode :: "('k \<Rightarrow> 32 word) \<Rightarrow> 'k \<Rightarrow> 'v \<Rightarrow> ('k, 'v) hash_table \<Rightarrow>
    (('k, 'v) hash_table \<times> nat \<times> bool) option" where
  "addPassingHashCode hash key extra t0 =
    (case ensure_table hash t0 of
       None \<Rightarrow> None
     | Some t \<Rightarrow>
        (case fullLookupForWriting hash key t of
           None \<Rightarrow> None
         | Some (entry, found, h) \<Rightarrow>
            if found then Some (t, entry, False)
            else if isDeletedBucket (m_table t ! entry)
            then finish_add hash entry key extra
                   ((initializeBucket entry t)\<lparr>m_deletedCount := m_deletedCount t - 1\<rparr>)
            else finish_add hash entry key extra t))"

definition remove_at :: "('k \<Rightarrow> 32 word) \<Rightarrow> nat \<Rightarrow> ('k, 'v) hash_table \<Rightarrow> ('k, 'v) hash_table option" where
  "remove_at hash pos t =
    (let t1 = (deleteBucket pos t)\<lparr>m_deletedCount := m_deletedCount t + 1, m_keyCount := m_keyCount t - 1\<rparr>
     in if shouldShrink t1 then HashTable_shrink hash t1 else Some t1)"

definition HashTable_remove :: "('k \<Rightarrow> 32 word) \<Rightarrow> 'k \<Rightarrow> ('k, 'v) hash_table \<Rightarrow> ('k, 'v) hash_table option" where
  "HashTable_remove hash key t =
    (case HashTable_lookup hash key t of
       None \<Rightarrow> None
     | Some None \<Rightarrow> Some t
     | Some (Some pos) \<Rightarrow> remove_at hash pos t)"

definition HashTable_contains :: "('k \<Rightarrow> 32 word) \<Rightarrow> 'k \<Rightarrow> ('k, 'v) hash_table \<Rightarrow> bool option" where
  "HashTable_contains hash key t = map_option (\<lambda>entry. entry \<noteq> None) (HashTable_lookup hash key t)"

definition HashTable_clear :: "('k, 'v) hash_table \<Rightarrow> ('k, 'v) hash_table" where
  "HashTable_clear t =
    (if m_table t = [] then t else t\<lparr>m_table := [], m_tableSize := 0, m_keyCount := 0\<rparr>)"

section \<open>The probe sequence visits every bucket\<close>

definition probe :: "32 word \<Rightarrow> nat \<Rightarrow> nat \<Rightarrow> nat" where
  "probe h S n = (unat h + n * unat (1 OR doubleHash h)) mod S"

lemma and_size_mask: "x AND (2 ^ m - Suc 0) = x mod (2 ^ m :: nat)"
  by (simp add: take_bit_eq_mask mask_eq_exp_minus_1 flip: take_bit_eq_mod)

lemma odd_step: "odd (unat (1 OR doubleHash h))"
proof -
  have "bit (unat (1 OR doubleHash h)) 0" by (simp add: bit_unsigned_iff bit_or_iff bit_1_iff)
  thus ?thesis by (simp add: bit_0)
qed

lemma step_positive: "unat (1 OR doubleHash h) \<noteq> 0"
  using odd_step [of h] by (metis even_zero)

lemma probe_less: "0 < S \<Longrightarrow> probe h S n < S"
  by (simp add: probe_def)

lemma probe_inj: "inj_on (probe h (2 ^ m)) {..<2 ^ m}"
proof (rule linorder_inj_onI')
  fix a b :: nat
  let ?k = "unat (1 OR doubleHash h)"
  assume "a \<in> {..<2 ^ m}" "b \<in> {..<2 ^ m}" "a < b"
  hence bound: "0 < b - a" "b - a < 2 ^ m" by auto
  have coprime: "coprime (2 ^ m) ?k" using odd_step by simp
  show "probe h (2 ^ m) a \<noteq> probe h (2 ^ m) b"
  proof
    assume "probe h (2 ^ m) a = probe h (2 ^ m) b"
    hence "2 ^ m dvd (unat h + b * ?k) - (unat h + a * ?k)"
      unfolding probe_def using \<open>a < b\<close> by (subst (asm) eq_commute, subst (asm) mod_eq_dvd_iff_nat) auto
    hence "2 ^ m dvd (b - a) * ?k" by (simp add: diff_mult_distrib)
    hence "2 ^ m dvd b - a" using coprime by (simp add: coprime_dvd_mult_left_iff)
    thus False using bound by (meson dvd_imp_le not_le)
  qed
qed

lemma probe_covers: "p < 2 ^ m \<Longrightarrow> \<exists>n < 2 ^ m. probe h (2 ^ m) n = p"
proof -
  assume p: "p < 2 ^ m"
  have "probe h (2 ^ m) ` {..<2 ^ m} \<subseteq> {..<2 ^ m}" by (auto simp: probe_less)
  hence "probe h (2 ^ m) ` {..<2 ^ m} = {..<2 ^ m}"
    using probe_inj by (simp add: card_image card_subset_eq)
  hence "p \<in> probe h (2 ^ m) ` {..<2 ^ m}" using p by simp
  thus ?thesis by auto
qed

lemma probe_start: "unat h AND (2 ^ m - Suc 0) = probe h (2 ^ m) 0"
  by (simp add: and_size_mask probe_def)

lemma probe_next:
  "(probe h (2 ^ m) n + unat (1 OR doubleHash h)) AND (2 ^ m - Suc 0) = probe h (2 ^ m) (Suc n)"
proof -
  have "unat h + n * unat (1 OR doubleHash h) + unat (1 OR doubleHash h) = unat h + Suc n * unat (1 OR doubleHash h)"
    by simp
  thus ?thesis unfolding and_size_mask probe_def by (simp only: mod_add_left_eq)
qed

definition step_at :: "32 word \<Rightarrow> nat \<Rightarrow> nat" where
  "step_at h n = (if n = 0 then 0 else unat (1 OR doubleHash h))"

lemma next_step_at: "next_step h (step_at h n) = unat (1 OR doubleHash h)" "step_at h (Suc n) = unat (1 OR doubleHash h)"
  using step_positive [of h] by (auto simp: next_step_def step_at_def)

lemma lookup_loop_run:
  assumes "length table = 2 ^ m"
    and "\<forall>j<n. \<not> isEmptyBucket (table ! probe h (2 ^ m) j) \<and> \<not> holds_key key (table ! probe h (2 ^ m) j)"
  shows "lookup_loop table (2 ^ m - Suc 0) key h 0 (probe h (2 ^ m) 0) =
    lookup_loop table (2 ^ m - Suc 0) key h (step_at h n) (probe h (2 ^ m) n)"
  using assms(2)
proof (induction n)
  case 0
  thus ?case by (simp add: step_at_def)
next
  case (Suc n)
  have "lookup_loop table (2 ^ m - Suc 0) key h (step_at h n) (probe h (2 ^ m) n) =
    lookup_loop table (2 ^ m - Suc 0) key h (step_at h (Suc n)) (probe h (2 ^ m) (Suc n))"
    using Suc.prems probe_less [of "2 ^ m" h n] assms(1)
    by (subst lookup_loop.simps) (simp add: next_step_at probe_next)
  thus ?case using Suc by simp
qed

lemma writing_loop_run:
  assumes "length table = 2 ^ m"
    and "\<forall>j<n. \<not> isEmptyBucket (table ! probe h (2 ^ m) j) \<and> \<not> holds_key key (table ! probe h (2 ^ m) j)"
  shows "\<exists>d. writing_loop table (2 ^ m - Suc 0) key h None 0 (probe h (2 ^ m) 0) =
      writing_loop table (2 ^ m - Suc 0) key h d (step_at h n) (probe h (2 ^ m) n) \<and>
    (\<forall>x. d = Some x \<longrightarrow> (\<exists>j<n. x = probe h (2 ^ m) j) \<and> isDeletedBucket (table ! x))"
  using assms(2)
proof (induction n)
  case 0
  thus ?case by (auto simp: step_at_def)
next
  case (Suc n)
  let ?p = "probe h (2 ^ m) n"
  obtain d where d: "writing_loop table (2 ^ m - Suc 0) key h None 0 (probe h (2 ^ m) 0) =
      writing_loop table (2 ^ m - Suc 0) key h d (step_at h n) ?p"
    "\<forall>x. d = Some x \<longrightarrow> (\<exists>j<n. x = probe h (2 ^ m) j) \<and> isDeletedBucket (table ! x)"
    using Suc by auto
  let ?d = "if isDeletedBucket (table ! ?p) then Some ?p else d"
  have step: "writing_loop table (2 ^ m - Suc 0) key h d (step_at h n) ?p =
    writing_loop table (2 ^ m - Suc 0) key h ?d (step_at h (Suc n)) (probe h (2 ^ m) (Suc n))"
    using Suc.prems probe_less [of "2 ^ m" h n] assms(1)
    by (subst writing_loop.simps) (simp add: next_step_at probe_next)
  have place: "\<forall>x. ?d = Some x \<longrightarrow> (\<exists>j<Suc n. x = probe h (2 ^ m) j) \<and> isDeletedBucket (table ! x)"
  proof (intro allI impI)
    fix x assume x: "?d = Some x"
    show "(\<exists>j<Suc n. x = probe h (2 ^ m) j) \<and> isDeletedBucket (table ! x)"
    proof (cases "isDeletedBucket (table ! ?p)")
      case True
      thus ?thesis using x by auto
    next
      case False
      hence "d = Some x" using x by simp
      thus ?thesis using d(2) less_SucI by blast
    qed
  qed
  show ?case by (intro exI [of _ ?d] conjI) (rule trans [OF d(1) step], rule place)
qed

section \<open>The content of a table\<close>

fun bucket_entry :: "('k, 'v) bucket \<Rightarrow> ('k \<times> 'v) list" where
  "bucket_entry (Bucket k v) = [(k, v)]"
| "bucket_entry EmptyBucket = []"
| "bucket_entry DeletedBucket = []"

definition entries :: "('k, 'v) bucket list \<Rightarrow> ('k \<times> 'v) list" where
  "entries table = concat (map bucket_entry table)"

definition deleted :: "('k, 'v) bucket list \<Rightarrow> nat" where
  "deleted table = length (filter isDeletedBucket table)"

lemmas bucket_defs = isEmptyBucket_def isDeletedBucket_def isEmptyOrDeletedBucket_def holds_key_def

lemma entries_simps [simp]:
  "entries [] = []" "entries (b # table) = bucket_entry b @ entries table"
  "entries (xs @ ys) = entries xs @ entries ys" "entries (replicate n EmptyBucket) = []"
  by (simp_all add: entries_def)

lemma deleted_simps [simp]:
  "deleted [] = 0" "deleted (b # table) = (if isDeletedBucket b then 1 else 0) + deleted table"
  "deleted (xs @ ys) = deleted xs + deleted ys" "deleted (replicate n EmptyBucket) = 0"
  by (simp_all add: deleted_def isDeletedBucket_def)

lemma in_entries: "(k, v) \<in> set (entries table) \<longleftrightarrow> Bucket k v \<in> set table"
proof (induction table)
  case (Cons b table)
  thus ?case by (cases b) auto
qed simp

lemma split_at:
  assumes "p < length table"
  obtains xs ys where "table = xs @ table ! p # ys" "length xs = p" "\<And>b. table[p := b] = xs @ b # ys"
proof -
  have "table = take p table @ table ! p # drop (Suc p) table" using assms by (rule id_take_nth_drop)
  moreover have "table[p := b] = take p table @ b # drop (Suc p) table" for b
    using assms by (rule upd_conv_take_nth_drop)
  ultimately show ?thesis using that assms by simp
qed

lemma room_left:
  assumes "length (entries table) + deleted table < length table"
  shows "\<exists>p < length table. isEmptyBucket (table ! p)"
proof (rule ccontr)
  assume "\<not> ?thesis"
  hence "\<forall>b \<in> set table. \<not> isEmptyBucket b" by (auto simp: in_set_conv_nth)
  hence "length (entries table) + deleted table = length table"
  proof (induction table)
    case (Cons b table)
    thus ?case by (cases b) (simp_all add: bucket_defs)
  qed simp
  thus False using assms by simp
qed

text \<open>
  Every entry is reached by its probe sequence before an empty bucket ends it.
\<close>

definition chained :: "('k \<Rightarrow> 32 word) \<Rightarrow> ('k, 'v) bucket list \<Rightarrow> bool" where
  "chained hash table \<longleftrightarrow> (\<forall>p < length table. \<forall>k v. table ! p = Bucket k v \<longrightarrow>
      (\<exists>n. p = probe (hash k) (length table) n \<and>
           (\<forall>j<n. \<not> isEmptyBucket (table ! probe (hash k) (length table) j))))"

definition table_core :: "('k \<Rightarrow> 32 word) \<Rightarrow> ('k, 'v) bucket list \<Rightarrow> bool" where
  "table_core hash table \<longleftrightarrow> (\<exists>m. length table = 2 ^ m) \<and> chained hash table \<and>
      distinct (map fst (entries table)) \<and> length (entries table) + deleted table < length table"

lemma same_key_same_place:
  assumes "distinct (map fst (entries table))" "p < length table" "q < length table"
    and "table ! p = Bucket k v" "table ! q = Bucket k w"
  shows "p = q"
  using assms
proof (induction table arbitrary: p q)
  case (Cons b table)
  have absent: "Bucket k x \<in> set table \<Longrightarrow> b \<noteq> Bucket k y" for x y
  proof
    assume "Bucket k x \<in> set table" "b = Bucket k y"
    hence "(k, x) \<in> set (entries table)" "k \<notin> fst ` set (entries table)"
      using Cons.prems(1) by (simp_all add: in_entries)
    thus False by force
  qed
  show ?case
  proof (cases p)
    case 0
    thus ?thesis using Cons.prems absent [of w v] nth_mem [of "q - 1" table] by (cases q) simp_all
  next
    case (Suc p')
    show ?thesis
    proof (cases q)
      case 0
      thus ?thesis using Suc Cons.prems absent [of v w] nth_mem [of p' table] by simp
    next
      case (Suc q')
      thus ?thesis using \<open>p = Suc p'\<close> Cons.prems Cons.IH [of p' q'] by simp
    qed
  qed
qed simp

section \<open>Finding a key\<close>

definition passes :: "('k \<Rightarrow> 32 word) \<Rightarrow> 'k \<Rightarrow> ('k, 'v) bucket list \<Rightarrow> nat \<Rightarrow> bool" where
  "passes hash key table n \<longleftrightarrow> (\<forall>j<n. \<not> isEmptyBucket (table ! probe (hash key) (length table) j) \<and>
      \<not> holds_key key (table ! probe (hash key) (length table) j))"

lemma first_stop:
  assumes "table_core hash table"
  obtains n where "passes hash key table n"
    and "isEmptyBucket (table ! probe (hash key) (length table) n) \<or> holds_key key (table ! probe (hash key) (length table) n)"
proof -
  let ?stop = "\<lambda>n. isEmptyBucket (table ! probe (hash key) (length table) n) \<or>
    holds_key key (table ! probe (hash key) (length table) n)"
  obtain m where m: "length table = 2 ^ m" using assms by (auto simp: table_core_def)
  obtain p where p: "p < length table" "isEmptyBucket (table ! p)"
    using room_left assms by (auto simp: table_core_def)
  obtain n where "probe (hash key) (length table) n = p" using probe_covers p(1) unfolding m by blast
  hence "?stop n" using p(2) by simp
  hence "?stop (LEAST n. ?stop n)" by (rule LeastI)
  moreover have "passes hash key table (LEAST n. ?stop n)"
    unfolding passes_def using not_less_Least [where P = ?stop] by blast
  ultimately show ?thesis using that by blast
qed

lemma holds_key_iff: "holds_key key b \<longleftrightarrow> (\<exists>v. b = Bucket key v)"
  by (auto simp: holds_key_def split: bucket.splits)

lemma probe_found:
  assumes core: "table_core hash table" and p: "p < length table" "table ! p = Bucket key v"
  obtains n where "passes hash key table n" "probe (hash key) (length table) n = p"
proof -
  let ?probe = "probe (hash key) (length table)"
  obtain n where n: "passes hash key table n" "isEmptyBucket (table ! ?probe n) \<or> holds_key key (table ! ?probe n)"
    using core by (rule first_stop)
  obtain c where c: "p = ?probe c" "\<forall>j<c. \<not> isEmptyBucket (table ! ?probe j)"
    using core p by (auto simp: table_core_def chained_def)
  have "\<not> c < n" using n(1) c(1) p(2) by (auto simp: passes_def holds_key_iff)
  hence "n = c \<or> n < c" by auto
  hence "holds_key key (table ! ?probe n)"
    using c n(2) p(2) by (auto simp: holds_key_iff)
  then obtain w where "table ! ?probe n = Bucket key w" by (auto simp: holds_key_iff)
  moreover have "?probe n < length table" using p(1) by (intro probe_less) auto
  moreover have "distinct (map fst (entries table))" using core by (simp add: table_core_def)
  ultimately have "?probe n = p" using p by (intro same_key_same_place)
  thus ?thesis using that n(1) by blast
qed

lemma probe_absent:
  assumes core: "table_core hash table" and absent: "key \<notin> fst ` set (entries table)"
  obtains n where "passes hash key table n" "isEmptyBucket (table ! probe (hash key) (length table) n)"
proof -
  let ?probe = "probe (hash key) (length table)"
  obtain n where n: "passes hash key table n" "isEmptyBucket (table ! ?probe n) \<or> holds_key key (table ! ?probe n)"
    using core by (rule first_stop)
  have "?probe n < length table" using core by (intro probe_less) (auto simp: table_core_def)
  hence "table ! ?probe n \<in> set table" by simp
  hence "\<not> holds_key key (table ! ?probe n)"
    using absent by (force simp: holds_key_iff image_iff simp flip: in_entries)
  thus ?thesis using that n by blast
qed

definition free_place :: "('k \<Rightarrow> 32 word) \<Rightarrow> 'k \<Rightarrow> ('k, 'v) bucket list \<Rightarrow> nat \<Rightarrow> bool" where
  "free_place hash key table x \<longleftrightarrow> x < length table \<and> isEmptyOrDeletedBucket (table ! x) \<and>
      (\<exists>n. x = probe (hash key) (length table) n \<and>
           (\<forall>j<n. \<not> isEmptyBucket (table ! probe (hash key) (length table) j)))"

definition sized :: "('k, 'v) hash_table \<Rightarrow> bool" where
  "sized t \<longleftrightarrow> m_tableSize t = length (m_table t)"

lemma lookup_as_run:
  assumes "table_core hash (m_table t)" "sized t" "passes hash key (m_table t) n"
  shows "HashTable_lookup hash key t =
    lookup_loop (m_table t) (tableSizeMask t) key (hash key) (step_at (hash key) n)
      (probe (hash key) (length (m_table t)) n)"
proof -
  obtain m where m: "length (m_table t) = 2 ^ m" using assms(1) by (auto simp: table_core_def)
  hence "m_table t \<noteq> []" by auto
  hence start: "HashTable_lookup hash key t =
      lookup_loop (m_table t) (2 ^ m - Suc 0) key (hash key) 0 (probe (hash key) (2 ^ m) 0)"
    using assms(2) by (simp add: HashTable_lookup_def tableSizeMask_def sized_def m probe_start)
  have passed: "\<forall>j<n. \<not> isEmptyBucket (m_table t ! probe (hash key) (2 ^ m) j) \<and>
      \<not> holds_key key (m_table t ! probe (hash key) (2 ^ m) j)"
    using assms(3) by (simp add: passes_def m)
  have mask: "tableSizeMask t = 2 ^ m - Suc 0" using assms(2) by (simp add: tableSizeMask_def sized_def m)
  show ?thesis unfolding mask m by (rule trans [OF start lookup_loop_run [OF m passed]])
qed

lemma lookup_found:
  assumes "table_core hash (m_table t)" "sized t" "p < length (m_table t)" "m_table t ! p = Bucket key v"
  shows "HashTable_lookup hash key t = Some (Some p)"
proof -
  obtain n where n: "passes hash key (m_table t) n" "probe (hash key) (length (m_table t)) n = p"
    using assms(1,3,4) by (rule probe_found)
  show ?thesis
    unfolding lookup_as_run [OF assms(1,2) n(1)] n(2)
    using assms(3,4) by (subst lookup_loop.simps) (simp add: bucket_defs)
qed

lemma lookup_absent:
  assumes "table_core hash (m_table t)" "sized t" "key \<notin> fst ` set (entries (m_table t))"
  shows "HashTable_lookup hash key t = Some None"
proof -
  obtain n where n: "passes hash key (m_table t) n" "isEmptyBucket (m_table t ! probe (hash key) (length (m_table t)) n)"
    using assms(1,3) by (rule probe_absent)
  have "probe (hash key) (length (m_table t)) n < length (m_table t)"
    using assms(1) by (intro probe_less) (auto simp: table_core_def)
  thus ?thesis
    unfolding lookup_as_run [OF assms(1,2) n(1)]
    using n(2) by (subst lookup_loop.simps) simp
qed

lemma writing_as_run:
  assumes "table_core hash (m_table t)" "sized t" "passes hash key (m_table t) n"
  obtains d where "probe_for_writing hash key t =
    writing_loop (m_table t) (tableSizeMask t) key (hash key) d (step_at (hash key) n)
      (probe (hash key) (length (m_table t)) n)"
    and "\<And>x. d = Some x \<Longrightarrow> free_place hash key (m_table t) x \<and> isDeletedBucket (m_table t ! x)"
proof -
  obtain m where m: "length (m_table t) = 2 ^ m" using assms(1) by (auto simp: table_core_def)
  have start: "probe_for_writing hash key t =
      writing_loop (m_table t) (2 ^ m - Suc 0) key (hash key) None 0 (probe (hash key) (2 ^ m) 0)"
    using assms(2) by (simp add: probe_for_writing_def tableSizeMask_def sized_def m probe_start)
  have passed: "\<forall>j<n. \<not> isEmptyBucket (m_table t ! probe (hash key) (2 ^ m) j) \<and>
      \<not> holds_key key (m_table t ! probe (hash key) (2 ^ m) j)"
    using assms(3) by (simp add: passes_def m)
  have mask: "tableSizeMask t = 2 ^ m - Suc 0" using assms(2) by (simp add: tableSizeMask_def sized_def m)
  obtain d where d: "probe_for_writing hash key t =
      writing_loop (m_table t) (tableSizeMask t) key (hash key) d (step_at (hash key) n)
        (probe (hash key) (length (m_table t)) n)"
    "\<forall>x. d = Some x \<longrightarrow> (\<exists>j<n. x = probe (hash key) (2 ^ m) j) \<and> isDeletedBucket (m_table t ! x)"
    unfolding mask m start using writing_loop_run [OF m passed] by blast
  have "free_place hash key (m_table t) x" if x: "d = Some x" for x
  proof -
    obtain j where j: "j < n" "x = probe (hash key) (length (m_table t)) j" using d(2) x m by auto
    hence "\<forall>i<j. \<not> isEmptyBucket (m_table t ! probe (hash key) (length (m_table t)) i)"
      using assms(3) by (simp add: passes_def)
    thus ?thesis using j d(2) x m by (auto simp: free_place_def isEmptyOrDeletedBucket_def probe_less)
  qed
  thus ?thesis using that d by blast
qed

lemma writing_found:
  assumes "table_core hash (m_table t)" "sized t" "p < length (m_table t)" "m_table t ! p = Bucket key v"
  obtains d where "probe_for_writing hash key t = Some (d, p, True)"
proof -
  obtain n where n: "passes hash key (m_table t) n" "probe (hash key) (length (m_table t)) n = p"
    using assms(1,3,4) by (rule probe_found)
  obtain d where "probe_for_writing hash key t =
      writing_loop (m_table t) (tableSizeMask t) key (hash key) d (step_at (hash key) n) p"
    using writing_as_run [OF assms(1,2) n(1)] n(2) by metis
  hence "probe_for_writing hash key t = Some (d, p, True)"
    using assms(3,4) by (subst (asm) writing_loop.simps) (simp add: bucket_defs)
  thus ?thesis by (rule that)
qed

lemma writing_absent:
  assumes "table_core hash (m_table t)" "sized t" "key \<notin> fst ` set (entries (m_table t))"
  obtains d e where "probe_for_writing hash key t = Some (d, e, False)"
    and "free_place hash key (m_table t) e" "isEmptyBucket (m_table t ! e)"
    and "\<And>x. d = Some x \<Longrightarrow> free_place hash key (m_table t) x \<and> isDeletedBucket (m_table t ! x)"
proof -
  let ?probe = "probe (hash key) (length (m_table t))"
  obtain n where n: "passes hash key (m_table t) n" "isEmptyBucket (m_table t ! ?probe n)"
    using assms(1,3) by (rule probe_absent)
  obtain d where d: "probe_for_writing hash key t =
      writing_loop (m_table t) (tableSizeMask t) key (hash key) d (step_at (hash key) n) (?probe n)"
    "\<And>x. d = Some x \<Longrightarrow> free_place hash key (m_table t) x \<and> isDeletedBucket (m_table t ! x)"
    using writing_as_run [OF assms(1,2) n(1)] by blast
  have less: "?probe n < length (m_table t)"
    using assms(1) by (intro probe_less) (auto simp: table_core_def)
  hence "probe_for_writing hash key t = Some (d, ?probe n, False)"
    unfolding d(1) using n(2) by (subst writing_loop.simps) simp
  moreover have "free_place hash key (m_table t) (?probe n)"
    using less n by (auto simp: free_place_def isEmptyOrDeletedBucket_def passes_def)
  ultimately show ?thesis using that n(2) d(2) by blast
qed

section \<open>Changing one bucket\<close>

lemma chained_update:
  assumes "chained hash table" "length table' = length table"
    and "\<And>q. q < length table \<Longrightarrow> isEmptyBucket (table' ! q) \<Longrightarrow> isEmptyBucket (table ! q)"
    and "\<And>q k v. q < length table \<Longrightarrow> table' ! q = Bucket k v \<Longrightarrow>
      (\<exists>w. table ! q = Bucket k w) \<or> free_place hash k table q"
  shows "chained hash table'"
  unfolding chained_def
proof (intro allI impI)
  fix p k v
  assume p: "p < length table'" "table' ! p = Bucket k v"
  let ?probe = "probe (hash k) (length table)"
  have "\<exists>n. p = ?probe n \<and> (\<forall>j<n. \<not> isEmptyBucket (table ! ?probe j))"
    using assms(4) [of p k v] assms(1,2) p unfolding chained_def free_place_def by fastforce
  then obtain n where n: "p = ?probe n" "\<forall>j<n. \<not> isEmptyBucket (table ! ?probe j)" by blast
  have "?probe j < length table" for j using p(1) assms(2) by (intro probe_less) auto
  hence "\<forall>j<n. \<not> isEmptyBucket (table' ! ?probe j)" using n(2) assms(3) by blast
  thus "\<exists>n. p = probe (hash k) (length table') n \<and>
      (\<forall>j<n. \<not> isEmptyBucket (table' ! probe (hash k) (length table') j))"
    using n(1) assms(2) by auto
qed

lemma chained_at:
  assumes "table_core hash table" "\<not> isEmptyBucket b"
    and place: "\<And>k v. b = Bucket k v \<Longrightarrow> (\<exists>w. table ! x = Bucket k w) \<or> free_place hash k table x"
  shows "chained hash (table[x := b])"
proof (rule chained_update)
  show "chained hash table" using assms(1) by (simp add: table_core_def)
next
  fix q assume "q < length table" "isEmptyBucket (table[x := b] ! q)"
  thus "isEmptyBucket (table ! q)" using assms(2) by (cases "q = x") simp_all
next
  fix q k v assume "q < length table" "table[x := b] ! q = Bucket k v"
  thus "(\<exists>w. table ! q = Bucket k w) \<or> free_place hash k table q"
    using place by (cases "q = x") simp_all
qed simp

lemma map_of_fresh:
  assumes "key \<notin> fst ` set (xs @ ys)"
  shows "map_of (xs @ (key, v) # ys) = (map_of (xs @ ys))(key \<mapsto> v)"
    and "map_of (xs @ ys) = (map_of (xs @ (key, v) # ys))(key := None)"
proof -
  have "map_of xs key = None" "map_of ys key = None"
    using assms by (simp_all add: map_of_eq_None_iff image_Un)
  thus "map_of (xs @ (key, v) # ys) = (map_of (xs @ ys))(key \<mapsto> v)"
    "map_of (xs @ ys) = (map_of (xs @ (key, v) # ys))(key := None)"
    by (auto simp: fun_eq_iff map_add_def split: option.splits)
qed

lemma fill:
  assumes core: "table_core hash table" and free: "free_place hash key table x"
    and absent: "key \<notin> fst ` set (entries table)"
    and room: "length (entries table) + deleted table + 1 < length table"
    and table': "table' = table[x := Bucket key v]"
  shows "table_core hash table'"
    and "map_of (entries table') = (map_of (entries table))(key \<mapsto> v)"
    and "length (entries table') = length (entries table) + 1"
    and "deleted table' + (if isDeletedBucket (table ! x) then 1 else 0) = deleted table"
proof -
  have x: "x < length table" "isEmptyOrDeletedBucket (table ! x)" using free by (auto simp: free_place_def)
  obtain xs ys where s: "table = xs @ table ! x # ys" "table' = xs @ Bucket key v # ys"
    unfolding table' using split_at [OF x(1)] by metis
  have "bucket_entry (table ! x) = []" using x(2) by (cases "table ! x") (simp_all add: bucket_defs)
  hence old: "entries table = entries xs @ entries ys" by (subst s(1)) simp
  have new: "entries table' = entries xs @ (key, v) # entries ys" by (simp add: s(2))
  have del: "deleted table = deleted xs + (if isDeletedBucket (table ! x) then 1 else 0) + deleted ys"
    by (subst s(1)) simp
  have del': "deleted table' = deleted xs + deleted ys" by (simp add: s(2) bucket_defs)
  show "map_of (entries table') = (map_of (entries table))(key \<mapsto> v)"
    unfolding new old by (rule map_of_fresh(1)) (use absent old in simp)
  show len: "length (entries table') = length (entries table) + 1" by (simp add: old new)
  show "deleted table' + (if isDeletedBucket (table ! x) then 1 else 0) = deleted table"
    using del del' by simp
  have "chained hash table'"
    unfolding table' using core free by (intro chained_at) (simp_all add: isEmptyBucket_def)
  moreover have "distinct (map fst (entries table'))"
    using core absent unfolding table_core_def new old by auto
  ultimately show "table_core hash table'"
    using core room len del del' unfolding table_core_def table' by auto
qed

lemma erase:
  assumes core: "table_core hash table" and p: "p < length table" "table ! p = Bucket key v"
    and table': "table' = table[p := DeletedBucket]"
  shows "table_core hash table'"
    and "map_of (entries table') = (map_of (entries table))(key := None)"
    and "length (entries table') + 1 = length (entries table)"
    and "deleted table' = deleted table + 1"
proof -
  obtain xs ys where s: "table = xs @ Bucket key v # ys" "table' = xs @ DeletedBucket # ys"
    unfolding table' using split_at [OF p(1)] p(2) by metis
  have old: "entries table = entries xs @ (key, v) # entries ys" by (simp add: s(1))
  have new: "entries table' = entries xs @ entries ys" by (simp add: s(2))
  have absent: "key \<notin> fst ` set (entries xs @ entries ys)"
    using core unfolding table_core_def old by auto
  show "map_of (entries table') = (map_of (entries table))(key := None)"
    unfolding new old using absent by (rule map_of_fresh(2))
  show "length (entries table') + 1 = length (entries table)" "deleted table' = deleted table + 1"
    by (simp_all add: s isDeletedBucket_def)
  have "chained hash table'"
    unfolding table' using core p by (intro chained_at) (simp_all add: isEmptyBucket_def)
  thus "table_core hash table'"
    using core unfolding table_core_def old new by (auto simp: s isDeletedBucket_def)
qed

lemma overwrite:
  assumes core: "table_core hash table" and p: "p < length table" "table ! p = Bucket key v"
    and table': "table' = table[p := Bucket key w]"
  shows "table_core hash table'"
    and "map_of (entries table') = (map_of (entries table))(key \<mapsto> w)"
    and "length (entries table') = length (entries table)"
    and "deleted table' = deleted table"
proof -
  obtain xs ys where s: "table = xs @ Bucket key v # ys" "table' = xs @ Bucket key w # ys"
    unfolding table' using split_at [OF p(1)] p(2) by metis
  have old: "entries table = entries xs @ (key, v) # entries ys" by (simp add: s(1))
  have new: "entries table' = entries xs @ (key, w) # entries ys" by (simp add: s(2))
  have absent: "key \<notin> fst ` set (entries xs @ entries ys)"
    using core unfolding table_core_def old by auto
  show "map_of (entries table') = (map_of (entries table))(key \<mapsto> w)"
    unfolding new old map_of_fresh(1) [OF absent] by simp
  show "length (entries table') = length (entries table)" "deleted table' = deleted table"
    by (simp_all add: s isDeletedBucket_def)
  have "chained hash table'"
    unfolding table' using core p by (intro chained_at) (simp_all add: isEmptyBucket_def)
  thus "table_core hash table'"
    using core unfolding table_core_def old new by (auto simp: s isDeletedBucket_def)
qed

section \<open>Rehashing\<close>

definition clean :: "('k \<Rightarrow> 32 word) \<Rightarrow> ('k, 'v) hash_table \<Rightarrow> bool" where
  "clean hash t \<longleftrightarrow> table_core hash (m_table t) \<and> sized t \<and> deleted (m_table t) = 0"

definition settled :: "('k, 'v) hash_table \<Rightarrow> ('k, 'v) hash_table \<Rightarrow> bool" where
  "settled t t' \<longleftrightarrow> length (m_table t') = length (m_table t) \<and> m_keyCount t' = m_keyCount t \<and>
      (\<forall>q < length (m_table t). \<not> isEmptyBucket (m_table t ! q) \<longrightarrow> m_table t' ! q = m_table t ! q)"

lemma settled_trans: "settled t1 t2 \<Longrightarrow> settled t2 t3 \<Longrightarrow> settled t1 t3"
  by (auto simp: settled_def)

lemma no_deleted: "deleted table = 0 \<Longrightarrow> x < length table \<Longrightarrow> \<not> isDeletedBucket (table ! x)"
  by (simp add: deleted_def filter_empty_conv)

lemma reinsert_places:
  assumes clean: "clean hash t" and absent: "key \<notin> fst ` set (entries (m_table t))"
    and room: "length (entries (m_table t)) + 1 < length (m_table t)"
  obtains t' q where "reinsert hash key v t = Some (t', q)" "clean hash t'" "settled t t'"
    and "q < length (m_table t')" "m_table t' ! q = Bucket key v"
    and "map_of (entries (m_table t')) = (map_of (entries (m_table t)))(key \<mapsto> v)"
    and "length (entries (m_table t')) = length (entries (m_table t)) + 1"
proof -
  have core: "table_core hash (m_table t)" "sized t" "deleted (m_table t) = 0" using clean by (auto simp: clean_def)
  obtain d e where w: "probe_for_writing hash key t = Some (d, e, False)"
    "free_place hash key (m_table t) e" "isEmptyBucket (m_table t ! e)"
    "\<And>x. d = Some x \<Longrightarrow> free_place hash key (m_table t) x \<and> isDeletedBucket (m_table t ! x)"
    using writing_absent [OF core(1,2) absent] by blast
  have e: "e < length (m_table t)" using w(2) by (simp add: free_place_def)
  have "d = None" using w(4) no_deleted [OF core(3)] by (cases d) (auto simp: free_place_def)
  let ?t = "t\<lparr>m_table := (m_table t)[e := Bucket key v]\<rparr>"
  have "length (entries (m_table t)) + deleted (m_table t) + 1 < length (m_table t)"
    using room core(3) by simp
  note f = fill [OF core(1) w(2) absent this, of "m_table ?t" v]
  have "reinsert hash key v t = Some (?t, e)"
    using w(1) \<open>d = None\<close> by (simp add: reinsert_def lookupForWriting_def)
  moreover have "clean hash ?t" using f core by (simp add: clean_def sized_def)
  moreover have "settled t ?t" using w(3) e by (auto simp: settled_def nth_list_update)
  moreover have "m_table ?t ! e = Bucket key v" using e by simp
  ultimately show ?thesis using that f e by simp
qed

definition traced :: "('k, 'v) bucket list \<Rightarrow> nat \<Rightarrow> nat option \<Rightarrow> nat option \<Rightarrow> nat option \<Rightarrow>
    ('k, 'v) bucket list \<Rightarrow> bool" where
  "traced old i entry newEntry newEntry' table' \<longleftrightarrow>
    ((\<forall>p < length old. entry \<noteq> Some (i + p)) \<longrightarrow> newEntry' = newEntry) \<and>
    (\<forall>p k v. p < length old \<longrightarrow> entry = Some (i + p) \<longrightarrow> old ! p = Bucket k v \<longrightarrow>
      (\<exists>q < length table'. newEntry' = Some q \<and> table' ! q = Bucket k v))"

lemma traced_skip:
  assumes "traced old (i + 1) entry newEntry newEntry' table'" "\<And>k v. b \<noteq> Bucket k v"
  shows "traced (b # old) i entry newEntry newEntry' table'"
  unfolding traced_def
proof (intro conjI impI allI)
  assume none: "\<forall>p < length (b # old). entry \<noteq> Some (i + p)"
  have "entry \<noteq> Some (i + 1 + p)" if "p < length old" for p
    using none [rule_format, of "Suc p"] that by simp
  thus "newEntry' = newEntry" using assms(1) by (simp add: traced_def)
next
  fix p k v
  assume "p < length (b # old)" "entry = Some (i + p)" "(b # old) ! p = Bucket k v"
  thus "\<exists>q < length table'. newEntry' = Some q \<and> table' ! q = Bucket k v"
    using assms by (cases p) (simp_all add: traced_def)
qed

lemma traced_move:
  assumes t: "traced old (i + 1) entry (if entry = Some i then Some q else newEntry) newEntry' table'"
    and q: "q < length table'" "table' ! q = Bucket key v"
  shows "traced (Bucket key v # old) i entry newEntry newEntry' table'"
  unfolding traced_def
proof (intro conjI impI allI)
  assume none: "\<forall>p < length (Bucket key v # old). entry \<noteq> Some (i + p)"
  have "entry \<noteq> Some (i + 1 + p)" if "p < length old" for p
    using none [rule_format, of "Suc p"] that by simp
  moreover have "entry \<noteq> Some i" using none [rule_format, of 0] by simp
  ultimately show "newEntry' = newEntry" using t by (simp add: traced_def)
next
  fix p k w
  assume p: "p < length (Bucket key v # old)" "entry = Some (i + p)" "(Bucket key v # old) ! p = Bucket k w"
  show "\<exists>q < length table'. newEntry' = Some q \<and> table' ! q = Bucket k w"
  proof (cases p)
    case 0
    hence "newEntry' = Some q" "k = key" "w = v" using t p by (auto simp: traced_def)
    thus ?thesis using q by simp
  next
    case (Suc p')
    thus ?thesis using t p by (simp add: traced_def)
  qed
qed

lemma rehash_loop_moves:
  assumes "clean hash t" "distinct (map fst (entries old))"
    and "fst ` set (entries (m_table t)) \<inter> fst ` set (entries old) = {}"
    and "length (entries (m_table t)) + length (entries old) < length (m_table t)"
  shows "\<exists>t' newEntry'. rehash_loop hash old i entry newEntry t = Some (t', newEntry') \<and>
    clean hash t' \<and> settled t t' \<and>
    map_of (entries (m_table t')) = map_of (entries (m_table t)) ++ map_of (entries old) \<and>
    length (entries (m_table t')) = length (entries (m_table t)) + length (entries old) \<and>
    traced old i entry newEntry newEntry' (m_table t')"
  using assms
proof (induction old arbitrary: i t newEntry)
  case Nil
  thus ?case by (simp add: settled_def traced_def)
next
  case (Cons b old)
  show ?case
  proof (cases "bucket_entry b")
    case Nil
    hence "rehash_loop hash (b # old) i entry newEntry t = rehash_loop hash old (i + 1) entry newEntry t"
      "\<And>k v. b \<noteq> Bucket k v"
      by (cases b; simp)+
    thus ?thesis
      using Cons.IH [of t "i + 1" newEntry] Cons.prems Nil traced_skip [of old i entry newEntry _ _ b] by auto
  next
    case (Cons _ _)
    then obtain key v where b: "b = Bucket key v" by (cases b) auto
    have new: "key \<notin> fst ` set (entries (m_table t))" "key \<notin> fst ` set (entries old)"
      using Cons.prems(2,3) b by auto
    have room: "length (entries (m_table t)) + 1 < length (m_table t)" using Cons.prems(4) b by simp
    obtain t1 q where r: "reinsert hash key v t = Some (t1, q)" "clean hash t1" "settled t t1"
      "q < length (m_table t1)" "m_table t1 ! q = Bucket key v"
      and m: "map_of (entries (m_table t1)) = (map_of (entries (m_table t)))(key \<mapsto> v)"
        "length (entries (m_table t1)) = length (entries (m_table t)) + 1"
      using reinsert_places [OF Cons.prems(1) new(1) room, of v] by blast
    let ?new = "if entry = Some i then Some q else newEntry"
    have "fst ` set (entries (m_table t1)) = insert key (fst ` set (entries (m_table t)))"
      by (simp add: m(1) flip: dom_map_of_conv_image_fst)
    hence "\<exists>t' newEntry'. rehash_loop hash old (i + 1) entry ?new t1 = Some (t', newEntry') \<and>
        clean hash t' \<and> settled t1 t' \<and>
        map_of (entries (m_table t')) = map_of (entries (m_table t1)) ++ map_of (entries old) \<and>
        length (entries (m_table t')) = length (entries (m_table t1)) + length (entries old) \<and>
        traced old (i + 1) entry ?new newEntry' (m_table t')"
      using Cons.prems b r(2,3) m(2) new by (intro Cons.IH) (auto simp: settled_def)
    then obtain t' newEntry' where t': "rehash_loop hash old (i + 1) entry ?new t1 = Some (t', newEntry')"
      "clean hash t'" "settled t1 t'"
      and m': "map_of (entries (m_table t')) = map_of (entries (m_table t1)) ++ map_of (entries old)"
        "length (entries (m_table t')) = length (entries (m_table t1)) + length (entries old)"
      and tr: "traced old (i + 1) entry ?new newEntry' (m_table t')" by blast
    have run: "rehash_loop hash (b # old) i entry newEntry t = Some (t', newEntry')"
      using r(1) t'(1) by (simp add: b)
    have content: "map_of (entries (m_table t')) = map_of (entries (m_table t)) ++ map_of (entries (b # old))"
      using new(2) by (simp add: m' m b map_add_upd_left dom_map_of_conv_image_fst)
    have "q < length (m_table t')" "m_table t' ! q = Bucket key v"
      using t'(3) r(4,5) by (simp_all add: settled_def isEmptyBucket_def)
    hence tr': "traced (b # old) i entry newEntry newEntry' (m_table t')"
      unfolding b using tr by (intro traced_move)
    show ?thesis
      by (intro exI conjI) (fact run, fact t'(2), rule settled_trans [OF r(3) t'(3)], fact content,
        simp add: m(2) m'(2) b, fact tr')
  qed
qed

section \<open>The invariant of a table\<close>

definition table_map :: "('k, 'v) hash_table \<Rightarrow> 'k \<rightharpoonup> 'v" where
  "table_map t = map_of (entries (m_table t))"

text \<open>
  The invariant: the counters count, at most half of the buckets are in use or
  deleted, and the size is a power of two between eight and 2 to the 30.
\<close>

definition table_ok :: "('k \<Rightarrow> 32 word) \<Rightarrow> ('k, 'v) hash_table \<Rightarrow> bool" where
  "table_ok hash t \<longleftrightarrow> sized t \<and> m_keyCount t = length (entries (m_table t)) \<and>
    (m_table t \<noteq> [] \<longrightarrow> table_core hash (m_table t) \<and> m_deletedCount t = deleted (m_table t) \<and>
      (m_keyCount t + m_deletedCount t) * m_maxLoad \<le> m_tableSize t \<and>
      minimumTableSize \<le> m_tableSize t \<and> m_tableSize t \<le> 2 ^ 30)"

lemmas load_defs = m_maxLoad_def m_minLoad_def minimumTableSize_def

lemma distinct_keys: "table_ok hash t \<Longrightarrow> distinct (map fst (entries (m_table t)))"
  by (cases "m_table t = []") (auto simp: table_ok_def table_core_def)

lemma rehash_result:
  assumes "distinct (map fst (entries (m_table t)))" "length (entries (m_table t)) < 2 ^ m"
  obtains t' newEntry where "rehash hash (2 ^ m) entry t = Some (t', newEntry)"
    and "clean hash t'" "m_tableSize t' = 2 ^ m" "m_deletedCount t' = 0" "m_keyCount t' = m_keyCount t"
    and "table_map t' = table_map t" "length (entries (m_table t')) = length (entries (m_table t))"
    and "traced (m_table t) 0 entry None newEntry (m_table t')"
proof -
  let ?t = "t\<lparr>m_table := allocateTable (2 ^ m), m_tableSize := 2 ^ m\<rparr>"
  have "chained hash (m_table ?t)" by (simp add: chained_def allocateTable_def)
  hence "clean hash ?t" by (auto simp: clean_def table_core_def sized_def allocateTable_def)
  then obtain t' newEntry where r: "rehash_loop hash (m_table t) 0 entry None ?t = Some (t', newEntry)"
    "clean hash t'" "settled ?t t'"
    "map_of (entries (m_table t')) = map_of (entries (m_table ?t)) ++ map_of (entries (m_table t))"
    "length (entries (m_table t')) = length (entries (m_table ?t)) + length (entries (m_table t))"
    "traced (m_table t) 0 entry None newEntry (m_table t')"
    using rehash_loop_moves [of hash ?t "m_table t" 0 entry None] assms by (auto simp: allocateTable_def)
  let ?u = "t'\<lparr>m_deletedCount := 0\<rparr>"
  have "rehash hash (2 ^ m) entry t = Some (?u, newEntry)" using r(1) by (simp add: rehash_def rehashTo_def)
  moreover have "clean hash ?u" using r(2) by (simp add: clean_def sized_def)
  moreover have "m_tableSize ?u = 2 ^ m" "m_keyCount ?u = m_keyCount t"
    using r(2,3) by (simp_all add: clean_def sized_def settled_def allocateTable_def)
  moreover have "table_map ?u = table_map t" using r(4) by (simp add: table_map_def allocateTable_def)
  moreover have "length (entries (m_table ?u)) = length (entries (m_table t))"
    using r(5) by (simp add: allocateTable_def)
  ultimately show ?thesis using that r(6) by simp
qed

lemma rehash_ok:
  assumes "distinct (map fst (entries (m_table t)))" "m_keyCount t = length (entries (m_table t))"
    and "m_keyCount t * 2 \<le> 2 ^ m" "3 \<le> m" "m \<le> 30"
  obtains t' newEntry where "rehash hash (2 ^ m) entry t = Some (t', newEntry)"
    and "table_ok hash t'" "m_table t' \<noteq> []" "table_map t' = table_map t" "m_keyCount t' = m_keyCount t"
    and "traced (m_table t) 0 entry None newEntry (m_table t')"
proof -
  have "length (entries (m_table t)) < 2 ^ m" using assms(2,3) by (cases "m_keyCount t") auto
  then obtain t' newEntry where r: "rehash hash (2 ^ m) entry t = Some (t', newEntry)"
    and t': "clean hash t'" "m_tableSize t' = 2 ^ m" "m_deletedCount t' = 0" "m_keyCount t' = m_keyCount t"
      "table_map t' = table_map t" "length (entries (m_table t')) = length (entries (m_table t))"
    and "traced (m_table t) 0 entry None newEntry (m_table t')"
    using rehash_result [OF assms(1)] by metis
  moreover have "(2::nat) ^ 3 \<le> 2 ^ m" "(2::nat) ^ m \<le> 2 ^ 30"
    using assms(4,5) by (simp_all only: power_increasing_iff one_less_numeral_iff semiring_norm)
  hence "table_ok hash t'"
    using t' assms(2,3) by (simp add: table_ok_def clean_def load_defs)
  moreover have "m_table t' \<noteq> []" using t'(1) by (auto simp: clean_def table_core_def)
  ultimately show ?thesis using that by blast
qed

lemma size_exponent:
  assumes "table_core hash (m_table t)" "sized t" "2 ^ 3 \<le> m_tableSize t" "m_tableSize t \<le> 2 ^ 30"
  obtains m where "m_tableSize t = 2 ^ m" "3 \<le> m" "m \<le> 30"
proof -
  obtain m where "m_tableSize t = 2 ^ m" using assms(1,2) by (auto simp: table_core_def sized_def)
  moreover from this have "3 \<le> m" "m \<le> 30"
    using assms(3,4) by (simp_all only: power_increasing_iff one_less_numeral_iff semiring_norm)
  ultimately show ?thesis by (rule that)
qed

lemma expand_loaded:
  assumes core: "table_core hash (m_table t)" "sized t" and keys: "m_keyCount t = length (entries (m_table t))"
    and size: "2 ^ 3 \<le> m_tableSize t" "m_tableSize t \<le> 2 ^ 30"
    and load: "m_keyCount t * 2 \<le> m_tableSize t + 2" "m_keyCount t * 3 < 2 ^ 30"
  obtains t' newEntry where "expand hash entry t = Some (t', newEntry)"
    and "table_ok hash t'" "m_table t' \<noteq> []" "table_map t' = table_map t" "m_keyCount t' = m_keyCount t"
    and "traced (m_table t) 0 entry None newEntry (m_table t')"
proof -
  obtain m where m: "m_tableSize t = 2 ^ m" "3 \<le> m" "m \<le> 30" using core size by (rule size_exponent)
  have distinct: "distinct (map fst (entries (m_table t)))" using core by (simp add: table_core_def)
  have products: "(m_keyCount t * 6) mod 2 ^ 32 = m_keyCount t * 6" "(m_tableSize t * 2) mod 2 ^ 32 = m_tableSize t * 2"
    using size load by simp_all
  show ?thesis
  proof (cases "m_keyCount t * 6 < m_tableSize t * 2")
    case True
    hence "expand hash entry t = rehash hash (2 ^ m) entry t"
      using products m(1) by (simp add: expand_def mustRehashInPlace_def load_defs)
    moreover have "m_keyCount t * 2 \<le> 2 ^ m" using True m(1) by simp
    ultimately show ?thesis using rehash_ok [OF distinct keys _ m(2,3)] that by metis
  next
    case False
    hence "(2::nat) ^ m < 2 ^ 30" using load(2) m(1) by simp
    hence "m < 30" by (simp only: power_strict_increasing_iff one_less_numeral_iff semiring_norm)
    hence "3 \<le> Suc m" "Suc m \<le> 30" using m(2) by simp_all
    moreover have "expand hash entry t = rehash hash (2 ^ Suc m) entry t"
      using False products m(1) size(1) by (simp add: expand_def mustRehashInPlace_def load_defs Let_def mult.commute)
    moreover have "m_keyCount t * 2 \<le> 2 ^ Suc m" using load(1) size(1) m(1) by simp
    ultimately show ?thesis using rehash_ok [OF distinct keys, of "Suc m"] that by metis
  qed
qed

section \<open>What the operations do\<close>

lemma ensure_table_ok:
  assumes "table_ok hash t"
  obtains t' where "ensure_table hash t = Some t'" "table_ok hash t'" "m_table t' \<noteq> []"
    and "table_map t' = table_map t" "m_keyCount t' = m_keyCount t"
proof (cases "m_table t = []")
  case True
  hence empty: "m_tableSize t = 0" "m_keyCount t = length (entries (m_table t))" "m_keyCount t * 2 \<le> 2 ^ 3"
    using assms by (simp_all add: table_ok_def sized_def)
  obtain t' newEntry where "rehash hash (2 ^ 3) None t = Some (t', newEntry)" "table_ok hash t'" "m_table t' \<noteq> []"
    "table_map t' = table_map t" "m_keyCount t' = m_keyCount t"
    using distinct_keys [OF assms] empty(2,3) by (elim rehash_ok [where m = 3 and entry = None]) simp_all
  thus ?thesis using that True empty(1) by (simp add: ensure_table_def expand_def minimumTableSize_def)
next
  case False
  thus ?thesis using that assms by (simp add: ensure_table_def)
qed

lemma finish_add_ok:
  assumes T: "(m_table t)[x := Bucket key v] = T" and x: "x < length T"
    and core: "table_core hash T" "sized t" "m_keyCount t + 1 = length (entries T)" "m_deletedCount t = deleted T"
    and size: "2 ^ 3 \<le> m_tableSize t" "m_tableSize t \<le> 2 ^ 30"
    and load: "(m_keyCount t + m_deletedCount t) * 2 \<le> m_tableSize t" "(m_keyCount t + 1) * 3 < 2 ^ 30"
  obtains t' e where "finish_add hash x key v t = Some (t', e, True)" "table_ok hash t'" "table_map t' = map_of (entries T)"
    and "e < length (m_table t')" "m_table t' ! e = Bucket key v" "m_table t' \<noteq> []"
proof -
  let ?t = "t\<lparr>m_table := T, m_keyCount := m_keyCount t + 1\<rparr>"
  have finish: "finish_add hash x key v t =
      (if shouldExpand ?t
       then (case expand hash (Some x) ?t of Some (t3, Some entry') \<Rightarrow> Some (t3, entry', True) | _ \<Rightarrow> None)
       else Some (?t, x, True))"
    by (simp add: finish_add_def translate_def T Let_def)
  have sized: "sized ?t" using core(2) T by (auto simp: sized_def)
  have at_x: "T ! x = Bucket key v" using T x by auto
  show ?thesis
  proof (cases "shouldExpand ?t")
    case True
    have prem: "table_core hash (m_table ?t)" "m_keyCount ?t = length (entries (m_table ?t))"
      "2 ^ 3 \<le> m_tableSize ?t" "m_tableSize ?t \<le> 2 ^ 30" "m_keyCount ?t * 2 \<le> m_tableSize ?t + 2"
      "m_keyCount ?t * 3 < 2 ^ 30"
      using core size load by simp_all
    obtain t' newEntry where e: "expand hash (Some x) ?t = Some (t', newEntry)" "table_ok hash t'" "m_table t' \<noteq> []"
      "table_map t' = table_map ?t" "traced (m_table ?t) 0 (Some x) None newEntry (m_table t')"
      using expand_loaded [OF prem(1) sized prem(2-6), of "Some x"] by blast
    obtain q where "newEntry = Some q" "q < length (m_table t')" "m_table t' ! q = Bucket key v"
      using e(5) x at_x by (auto simp: traced_def)
    thus ?thesis using that True e finish by (simp add: table_map_def)
  next
    case False
    have "((m_keyCount t + 1 + deleted T) * 2) mod 2 ^ 32 = (m_keyCount t + 1 + deleted T) * 2"
      using load(1) size(2) core(4) by simp
    hence "table_ok hash ?t"
      using False core sized size by (simp add: table_ok_def shouldExpand_def load_defs)
    moreover have "T \<noteq> []" using x by auto
    ultimately show ?thesis using that False finish x at_x by (simp add: table_map_def)
  qed
qed

lemma table_map_at:
  assumes "table_ok hash t" "p < length (m_table t)" "m_table t ! p = Bucket key v"
  shows "table_map t key = Some v"
proof -
  have "(key, v) \<in> set (entries (m_table t))" using assms(2,3) by (simp add: in_entries) (metis nth_mem)
  thus ?thesis using distinct_keys [OF assms(1)] by (simp add: table_map_def)
qed

lemma table_map_place:
  assumes "table_map t key = Some v"
  obtains p where "p < length (m_table t)" "m_table t ! p = Bucket key v"
proof -
  have "Bucket key v \<in> set (m_table t)"
    using assms by (simp add: table_map_def flip: in_entries) (rule map_of_SomeD)
  thus ?thesis using that by (auto simp: in_set_conv_nth)
qed

lemma table_map_absent: "table_map t key = None \<longleftrightarrow> key \<notin> fst ` set (entries (m_table t))"
  by (simp add: table_map_def map_of_eq_None_iff)

definition add_result :: "('k \<Rightarrow> 32 word) \<Rightarrow> 'k \<Rightarrow> 'v \<Rightarrow> ('k, 'v) hash_table \<Rightarrow>
    ('k, 'v) hash_table \<Rightarrow> nat \<Rightarrow> bool \<Rightarrow> bool" where
  "add_result hash key v t t' e isNewEntry \<longleftrightarrow> table_ok hash t' \<and> e < length (m_table t') \<and>
    (case table_map t key of
       None \<Rightarrow> isNewEntry \<and> table_map t' = (table_map t)(key \<mapsto> v) \<and> m_table t' ! e = Bucket key v
     | Some w \<Rightarrow> \<not> isNewEntry \<and> table_map t' = table_map t \<and> m_table t' ! e = Bucket key w)"

lemma table_okD:
  assumes "table_ok hash t" "m_table t \<noteq> []"
  shows "table_core hash (m_table t)" "sized t" "m_keyCount t = length (entries (m_table t))"
    "m_deletedCount t = deleted (m_table t)" "(m_keyCount t + m_deletedCount t) * 2 \<le> m_tableSize t"
    "2 ^ 3 \<le> m_tableSize t" "m_tableSize t \<le> 2 ^ 30" "m_tableSize t = length (m_table t)"
  using assms by (auto simp: table_ok_def sized_def load_defs)

lemma fill_free_place:
  assumes ok: "table_ok hash t" "m_table t \<noteq> []" and few: "(m_keyCount t + 1) * 3 < 2 ^ 30"
    and absent: "table_map t key = None" and x: "free_place hash key (m_table t) x"
    and u: "(m_table u)[x := Bucket key v] = (m_table t)[x := Bucket key v]" "m_tableSize u = m_tableSize t"
      "m_keyCount u = m_keyCount t" "m_deletedCount u + (if isDeletedBucket (m_table t ! x) then 1 else 0) = m_deletedCount t"
  obtains t' e where "finish_add hash x key v u = Some (t', e, True)" "add_result hash key v t t' e True"
proof -
  note t = table_okD [OF ok]
  let ?T = "(m_table t)[x := Bucket key v]"
  have "length (entries (m_table t)) + deleted (m_table t) + 1 < length (m_table t)"
    using t by simp
  note f = fill [OF t(1) x table_map_absent [THEN iffD1, OF absent] this, of ?T v]
  have "sized u" using u(1,2) t(2) by (metis length_list_update sized_def)
  moreover have "x < length ?T" using x by (simp add: free_place_def)
  moreover have "m_keyCount u + 1 = length (entries ?T)" "m_deletedCount u = deleted ?T"
    using f(3,4) t u(3,4) by simp_all
  moreover have "(m_keyCount u + m_deletedCount u) * 2 \<le> m_tableSize u" "(m_keyCount u + 1) * 3 < 2 ^ 30"
    using t(5) u(2-4) few by simp_all
  ultimately obtain t' e where "finish_add hash x key v u = Some (t', e, True)" "table_ok hash t'"
    "table_map t' = map_of (entries ?T)" "e < length (m_table t')" "m_table t' ! e = Bucket key v"
    using finish_add_ok [OF u(1), of hash] f(1) t(6,7) u(2) by metis
  thus ?thesis using that f(2) absent by (simp add: add_result_def table_map_def)
qed

lemma deleted_positive: "x < length table \<Longrightarrow> isDeletedBucket (table ! x) \<Longrightarrow> 0 < deleted table"
  using no_deleted by (cases "deleted table") auto

lemma probed_add:
  assumes ok: "table_ok hash t" "m_table t \<noteq> []" and few: "(m_keyCount t + 1) * 3 < 2 ^ 30"
  obtains d e t' e' isNewEntry where "probe_for_writing hash key t = Some (d, e, \<not> isNewEntry)"
    and "add_result hash key v t t' e' isNewEntry"
    and "\<not> isNewEntry \<Longrightarrow> t' = t \<and> e' = e"
    and "isNewEntry \<Longrightarrow> d = None \<Longrightarrow> \<not> isDeletedBucket (m_table t ! e) \<and>
      finish_add hash e key v t = Some (t', e', True)"
    and "\<And>x. isNewEntry \<Longrightarrow> d = Some x \<Longrightarrow> isDeletedBucket (m_table t ! x) \<and>
      finish_add hash x key v ((initializeBucket x t)\<lparr>m_deletedCount := m_deletedCount t - 1\<rparr>) = Some (t', e', True)"
proof (cases "table_map t key")
  case (Some w)
  then obtain p where p: "p < length (m_table t)" "m_table t ! p = Bucket key w" by (rule table_map_place)
  obtain d where "probe_for_writing hash key t = Some (d, p, True)"
    using table_okD(1,2) [OF ok] p by (rule writing_found)
  moreover have "add_result hash key v t t p False" using ok(1) Some p by (simp add: add_result_def)
  ultimately show ?thesis using that [of d p False t p] by simp
next
  case None
  obtain d e where w: "probe_for_writing hash key t = Some (d, e, False)"
    "free_place hash key (m_table t) e" "isEmptyBucket (m_table t ! e)"
    "\<And>x. d = Some x \<Longrightarrow> free_place hash key (m_table t) x \<and> isDeletedBucket (m_table t ! x)"
    using writing_absent [OF table_okD(1,2) [OF ok] table_map_absent [THEN iffD1, OF None]] by blast
  show ?thesis
  proof (cases d)
    case None
    have live: "\<not> isDeletedBucket (m_table t ! e)" using w(3) by (simp add: bucket_defs split: bucket.splits)
    obtain t' e' where "finish_add hash e key v t = Some (t', e', True)" "add_result hash key v t t' e' True"
      using fill_free_place [OF ok few \<open>table_map t key = None\<close> w(2), of t v] live by auto
    thus ?thesis using that [of d e True t' e'] w(1) None live by simp
  next
    case (Some x)
    let ?u = "(initializeBucket x t)\<lparr>m_deletedCount := m_deletedCount t - 1\<rparr>"
    have x: "free_place hash key (m_table t) x" "isDeletedBucket (m_table t ! x)" using w(4) Some by auto
    have "0 < m_deletedCount t"
      using table_okD(4) [OF ok] x deleted_positive by (auto simp: free_place_def)
    then obtain t' e' where "finish_add hash x key v ?u = Some (t', e', True)" "add_result hash key v t t' e' True"
      using fill_free_place [OF ok few None x(1), of ?u v] x(2) by (auto simp: initializeBucket_def)
    thus ?thesis using that [of d e True t' e'] w(1) Some x(2) by simp
  qed
qed

lemma add_result_same: "table_map t1 = table_map t \<Longrightarrow> add_result hash key v t1 = add_result hash key v t"
  by (intro ext) (simp add: add_result_def split: option.split)

lemma both_adds:
  assumes "table_ok hash t" "(m_keyCount t + 1) * 3 < 2 ^ 30"
  obtains t' e isNewEntry where "HashTable_add hash key v t = Some (t', e, isNewEntry)"
    and "addPassingHashCode hash key v t = Some (t', e, isNewEntry)" "add_result hash key v t t' e isNewEntry"
proof -
  obtain t1 where t1: "ensure_table hash t = Some t1" "table_ok hash t1" "m_table t1 \<noteq> []"
    "table_map t1 = table_map t" "m_keyCount t1 = m_keyCount t"
    using ensure_table_ok [OF assms(1)] by blast
  have few: "(m_keyCount t1 + 1) * 3 < 2 ^ 30" using assms(2) t1(5) by simp
  obtain d e t' e' isNewEntry where p: "probe_for_writing hash key t1 = Some (d, e, \<not> isNewEntry)"
    "add_result hash key v t1 t' e' isNewEntry" "\<not> isNewEntry \<Longrightarrow> t' = t1 \<and> e' = e"
    "isNewEntry \<Longrightarrow> d = None \<Longrightarrow> \<not> isDeletedBucket (m_table t1 ! e) \<and> finish_add hash e key v t1 = Some (t', e', True)"
    "\<And>x. isNewEntry \<Longrightarrow> d = Some x \<Longrightarrow> isDeletedBucket (m_table t1 ! x) \<and>
      finish_add hash x key v ((initializeBucket x t1)\<lparr>m_deletedCount := m_deletedCount t1 - 1\<rparr>) = Some (t', e', True)"
    using probed_add [OF t1(2,3) few, of key v thesis] that by blast
  have "HashTable_add hash key v t = Some (t', e', isNewEntry)"
    using t1(1) p(1,3-5) by (cases isNewEntry; cases d) (simp_all add: HashTable_add_def)
  moreover have "addPassingHashCode hash key v t = Some (t', e', isNewEntry)"
    using t1(1) p(1,3-5) by (cases isNewEntry; cases d)
      (simp_all add: addPassingHashCode_def fullLookupForWriting_def lookupForWriting_def)
  moreover have "add_result hash key v t t' e' isNewEntry" using p(2) by (simp only: add_result_same [OF t1(4)])
  ultimately show ?thesis by (rule that)
qed

lemma lookup_result:
  assumes "table_ok hash t"
  shows "table_map t key = None \<Longrightarrow> HashTable_lookup hash key t = Some None"
    and "table_map t key = Some v \<Longrightarrow>
      \<exists>p < length (m_table t). HashTable_lookup hash key t = Some (Some p) \<and> m_table t ! p = Bucket key v"
proof -
  assume absent: "table_map t key = None"
  show "HashTable_lookup hash key t = Some None"
  proof (cases "m_table t = []")
    case True
    thus ?thesis by (simp add: HashTable_lookup_def)
  next
    case False
    thus ?thesis using table_okD [OF assms] absent by (intro lookup_absent) (simp_all add: table_map_absent)
  qed
next
  assume "table_map t key = Some v"
  then obtain p where p: "p < length (m_table t)" "m_table t ! p = Bucket key v" by (rule table_map_place)
  hence "m_table t \<noteq> []" by auto
  hence "HashTable_lookup hash key t = Some (Some p)" using table_okD(1,2) [OF assms] p by (intro lookup_found)
  thus "\<exists>p < length (m_table t). HashTable_lookup hash key t = Some (Some p) \<and> m_table t ! p = Bucket key v"
    using p by blast
qed

lemma remove_at_ok:
  assumes ok: "table_ok hash t" and p: "p < length (m_table t)" "m_table t ! p = Bucket key v"
  obtains t' where "remove_at hash p t = Some t'" "table_ok hash t'" "table_map t' = (table_map t)(key := None)"
proof -
  have filled: "m_table t \<noteq> []" using p(1) by auto
  note t = table_okD [OF ok filled]
  let ?T = "(m_table t)[p := DeletedBucket]"
  let ?t = "t\<lparr>m_table := ?T, m_deletedCount := m_deletedCount t + 1, m_keyCount := m_keyCount t - 1\<rparr>"
  note e = erase [OF t(1) p, of ?T]
  have counts: "m_keyCount ?t = length (entries ?T)" "m_deletedCount ?t = deleted ?T"
    "m_keyCount ?t + m_deletedCount ?t = m_keyCount t + m_deletedCount t"
    using e(3,4) t(3,4) by simp_all
  have sized: "sized ?t" using t(2) by (simp add: sized_def)
  have remove: "remove_at hash p t = (if shouldShrink ?t then HashTable_shrink hash ?t else Some ?t)"
    by (simp add: remove_at_def deleteBucket_def Let_def)
  show ?thesis
  proof (cases "shouldShrink ?t")
    case False
    have "table_ok hash ?t"
      using counts sized e(1) t by (simp add: table_ok_def load_defs)
    thus ?thesis using that False remove e(2) by (simp add: table_map_def)
  next
    case True
    obtain m where m: "m_tableSize t = 2 ^ m" "3 \<le> m" "m \<le> 30" using t(1,2,6,7) by (rule size_exponent)
    have "(2::nat) ^ 3 < 2 ^ m" using True m(1) by (simp add: shouldShrink_def load_defs)
    hence "3 < m" by (simp only: power_strict_increasing_iff one_less_numeral_iff semiring_norm)
    then obtain n where n: "m = Suc n" "3 \<le> n" "n \<le> 30" using m(3) by (cases m) auto
    have half: "m_tableSize ?t div 2 = 2 ^ n" using m(1) n(1) by simp
    have "m_keyCount ?t * 6 < m_tableSize t"
      using True t(5,7) counts(3) by (simp add: shouldShrink_def load_defs)
    hence load: "m_keyCount ?t * 2 \<le> 2 ^ n" using m(1) n(1) by simp
    have distinct: "distinct (map fst (entries (m_table ?t)))" using e(1) by (simp add: table_core_def)
    have "m_keyCount ?t = length (entries (m_table ?t))" using counts(1) by simp
    then obtain t' newEntry where "rehash hash (2 ^ n) None ?t = Some (t', newEntry)"
      "table_ok hash t'" "table_map t' = table_map ?t"
      using rehash_ok [OF distinct _ load n(2,3), of hash None] by blast
    hence "remove_at hash p t = Some t'" using True remove half by (simp add: HashTable_shrink_def)
    thus ?thesis using that \<open>table_ok hash t'\<close> \<open>table_map t' = table_map ?t\<close> e(2) by (simp add: table_map_def)
  qed
qed

end
