(* ===== verification/Hash_Map.thy ===== *)
theory Hash_Map
  imports Hash_Table
begin

text \<open>
  \<^verbatim>\<open>WTF::HashMap\<close> (wtf/HashMap.h) over the table, and that it behaves as the association
  lists of the prelude by which the other theories model the maps of the inspector.
\<close>

section \<open>The map over the table\<close>

definition HashMap_add :: "('k \<Rightarrow> 32 word) \<Rightarrow> 'k \<Rightarrow> 'v \<Rightarrow> ('k, 'v) hash_table \<Rightarrow> (('k, 'v) hash_table \<times> nat \<times> bool) option" where
  "HashMap_add hash key mapped t = HashTable_add hash key mapped t"

text \<open>
  \<^verbatim>\<open>set\<close> overwrites the value of the entry that \<^verbatim>\<open>add\<close> found.
\<close>

definition store_value :: "nat \<Rightarrow> 'v \<Rightarrow> ('k, 'v) hash_table \<Rightarrow> ('k, 'v) hash_table option" where
  "store_value e mapped t =
    (case m_table t ! e of
       Bucket k _ \<Rightarrow> Some (t\<lparr>m_table := (m_table t)[e := Bucket k mapped]\<rparr>)
     | _ \<Rightarrow> None)"

definition HashMap_set :: "('k \<Rightarrow> 32 word) \<Rightarrow> 'k \<Rightarrow> 'v \<Rightarrow> ('k, 'v) hash_table \<Rightarrow> ('k, 'v) hash_table option" where
  "HashMap_set hash key mapped t =
    (case HashMap_add hash key mapped t of
       None \<Rightarrow> None
     | Some (t', e, isNewEntry) \<Rightarrow> if isNewEntry then Some t' else store_value e mapped t')"

definition value_at :: "nat \<Rightarrow> ('k, 'v) hash_table \<Rightarrow> 'v option" where
  "value_at p t = (case m_table t ! p of Bucket _ v \<Rightarrow> Some v | _ \<Rightarrow> None)"

definition HashMap_get :: "('k \<Rightarrow> 32 word) \<Rightarrow> 'v \<Rightarrow> 'k \<Rightarrow> ('k, 'v) hash_table \<Rightarrow> 'v option" where
  "HashMap_get hash emptyValue key t =
    (case HashTable_lookup hash key t of
       None \<Rightarrow> None
     | Some None \<Rightarrow> Some emptyValue
     | Some (Some p) \<Rightarrow> value_at p t)"

definition HashMap_take :: "('k \<Rightarrow> 32 word) \<Rightarrow> 'v \<Rightarrow> 'k \<Rightarrow> ('k, 'v) hash_table \<Rightarrow> ('v \<times> ('k, 'v) hash_table) option" where
  "HashMap_take hash emptyValue key t =
    (case HashTable_lookup hash key t of
       None \<Rightarrow> None
     | Some None \<Rightarrow> Some (emptyValue, t)
     | Some (Some p) \<Rightarrow>
         (case (value_at p t, remove_at hash p t) of (Some v, Some t') \<Rightarrow> Some (v, t') | _ \<Rightarrow> None))"

definition HashMap_size :: "('k, 'v) hash_table \<Rightarrow> nat" where
  "HashMap_size t = m_keyCount t"

definition HashMap_isEmpty :: "('k, 'v) hash_table \<Rightarrow> bool" where
  "HashMap_isEmpty t \<longleftrightarrow> m_keyCount t = 0"

text \<open>
  An iterator visits the used buckets in the order of the table; an empty map
  begins at its end.
\<close>

definition iteration :: "('k, 'v) hash_table \<Rightarrow> ('k \<times> 'v) list" where
  "iteration t = (if HashMap_isEmpty t then [] else entries (m_table t))"

fun add_each :: "('k \<Rightarrow> 32 word) \<Rightarrow> ('k \<times> 'v) list \<Rightarrow> ('k, 'v) hash_table \<Rightarrow> ('k, 'v) hash_table option" where
  "add_each hash [] t = Some t"
| "add_each hash ((key, v) # rest) t =
    (case HashTable_add hash key v t of None \<Rightarrow> None | Some (t', e, isNewEntry) \<Rightarrow> add_each hash rest t')"

definition HashTable_copy :: "('k \<Rightarrow> 32 word) \<Rightarrow> ('k, 'v) hash_table \<Rightarrow> ('k, 'v) hash_table option" where
  "HashTable_copy hash other = add_each hash (iteration other) HashTable_new"

fun same_entries :: "('k \<Rightarrow> 32 word) \<Rightarrow> ('k \<times> 'v) list \<Rightarrow> ('k, 'v) hash_table \<Rightarrow> bool option" where
  "same_entries hash [] b = Some True"
| "same_entries hash ((key, v) # rest) b =
    (case HashTable_lookup hash key b of
       None \<Rightarrow> None
     | Some None \<Rightarrow> Some False
     | Some (Some p) \<Rightarrow> if value_at p b \<noteq> Some v then Some False else same_entries hash rest b)"

definition HashMap_equal :: "('k \<Rightarrow> 32 word) \<Rightarrow> ('k, 'v) hash_table \<Rightarrow> ('k, 'v) hash_table \<Rightarrow> bool option" where
  "HashMap_equal hash a b =
    (if HashMap_size a \<noteq> HashMap_size b then Some False else same_entries hash (iteration a) b)"

definition copyKeysToVector :: "('k, 'v) hash_table \<Rightarrow> 'k list" where
  "copyKeysToVector t = map fst (iteration t)"

definition copyValuesToVector :: "('k, 'v) hash_table \<Rightarrow> 'v list" where
  "copyValuesToVector t = map snd (iteration t)"

text \<open>
  A client's calls, and what each does to an association list.
\<close>

datatype ('k, 'v) map_call = Call_add 'k 'v | Call_set 'k 'v | Call_remove 'k | Call_take 'k | Call_clear

fun map_step :: "('k \<Rightarrow> 32 word) \<Rightarrow> 'v \<Rightarrow> ('k, 'v) map_call \<Rightarrow> ('k, 'v) hash_table \<Rightarrow> ('k, 'v) hash_table option" where
  "map_step hash emptyValue (Call_add key v) t = map_option fst (HashMap_add hash key v t)"
| "map_step hash emptyValue (Call_set key v) t = HashMap_set hash key v t"
| "map_step hash emptyValue (Call_remove key) t = HashTable_remove hash key t"
| "map_step hash emptyValue (Call_take key) t = map_option snd (HashMap_take hash emptyValue key t)"
| "map_step hash emptyValue Call_clear t = Some (HashTable_clear t)"

fun map_run :: "('k \<Rightarrow> 32 word) \<Rightarrow> 'v \<Rightarrow> ('k, 'v) map_call list \<Rightarrow> ('k, 'v) hash_table \<Rightarrow> ('k, 'v) hash_table option" where
  "map_run hash emptyValue [] t = Some t"
| "map_run hash emptyValue (c # cs) t =
    (case map_step hash emptyValue c t of None \<Rightarrow> None | Some t' \<Rightarrow> map_run hash emptyValue cs t')"

fun call_spec :: "('k, 'v) map_call \<Rightarrow> ('k, 'v) hmap \<Rightarrow> ('k, 'v) hmap" where
  "call_spec (Call_add key v) m = hadd key v m"
| "call_spec (Call_set key v) m = hset key v m"
| "call_spec (Call_remove key) m = hremove key m"
| "call_spec (Call_take key) m = hremove key m"
| "call_spec Call_clear m = []"

section \<open>The map refines an association list\<close>

lemma new_ok: "table_ok hash HashTable_new" "table_map HashTable_new = Map.empty"
  by (simp_all add: HashTable_new_def table_ok_def sized_def table_map_def)

lemma key_count:
  assumes "table_ok hash t"
  shows "m_keyCount t = card (dom (table_map t))"
proof -
  have "card (set (map fst (entries (m_table t)))) = length (map fst (entries (m_table t)))"
    using distinct_keys [OF assms] by (rule distinct_card)
  thus ?thesis using assms by (simp add: table_ok_def table_map_def dom_map_of_conv_image_fst)
qed

lemma HashMap_add_ok:
  assumes "table_ok hash t" "(m_keyCount t + 1) * 3 < 2 ^ 30"
  obtains t' e isNewEntry where "HashMap_add hash key v t = Some (t', e, isNewEntry)" "add_result hash key v t t' e isNewEntry"
  unfolding HashMap_add_def using both_adds [OF assms, of key v] by blast

lemma HashMap_set_ok:
  assumes "table_ok hash t" "(m_keyCount t + 1) * 3 < 2 ^ 30"
  obtains t' where "HashMap_set hash key v t = Some t'" "table_ok hash t'" "table_map t' = (table_map t)(key \<mapsto> v)"
proof -
  obtain t1 e isNewEntry where a: "HashMap_add hash key v t = Some (t1, e, isNewEntry)"
    "add_result hash key v t t1 e isNewEntry" using HashMap_add_ok [OF assms] by blast
  show ?thesis
  proof (cases "table_map t key")
    case None
    thus ?thesis using a by (intro that [of t1]) (simp_all add: add_result_def HashMap_set_def)
  next
    case (Some w)
    hence e: "\<not> isNewEntry" "table_ok hash t1" "e < length (m_table t1)" "table_map t1 = table_map t" "m_table t1 ! e = Bucket key w"
      using a(2) by (auto simp: add_result_def)
    hence filled: "m_table t1 \<noteq> []" by auto
    let ?t = "t1\<lparr>m_table := (m_table t1)[e := Bucket key v]\<rparr>"
    note o = overwrite [OF table_okD(1) [OF e(2) filled] e(3,5), of "m_table ?t" v]
    have "HashMap_set hash key v t = Some ?t" using a(1) e(1,5) by (simp add: HashMap_set_def store_value_def)
    moreover have "table_ok hash ?t" using o table_okD [OF e(2) filled] by (simp add: table_ok_def load_defs sized_def)
    moreover have "table_map ?t = (table_map t)(key \<mapsto> v)" using o(2) e(4) by (simp add: table_map_def)
    ultimately show ?thesis by (rule that)
  qed
qed

lemma HashMap_get_ok:
  assumes "table_ok hash t"
  shows "HashMap_get hash emptyValue key t = Some (case table_map t key of None \<Rightarrow> emptyValue | Some v \<Rightarrow> v)"
  using lookup_result [OF assms, of key]
  by (cases "table_map t key") (auto simp: HashMap_get_def value_at_def)

lemma removal_ok:
  assumes "table_ok hash t"
  obtains t' where "HashTable_remove hash key t = Some t'" "table_ok hash t'" "table_map t' = (table_map t)(key := None)"
    and "HashMap_take hash emptyValue key t = Some (case table_map t key of None \<Rightarrow> emptyValue | Some v \<Rightarrow> v, t')"
proof (cases "table_map t key")
  case None
  hence "HashTable_lookup hash key t = Some None" using lookup_result(1) [OF assms] by simp
  moreover have "table_map t = (table_map t)(key := None)" using None by (simp add: fun_upd_idem)
  ultimately show ?thesis
    using that [of t] assms None by (simp add: HashTable_remove_def HashMap_take_def)
next
  case (Some v)
  then obtain p where p: "p < length (m_table t)" "HashTable_lookup hash key t = Some (Some p)" "m_table t ! p = Bucket key v"
    using lookup_result(2) [OF assms] by blast
  obtain t' where "remove_at hash p t = Some t'" "table_ok hash t'" "table_map t' = (table_map t)(key := None)"
    using assms p(1,3) by (rule remove_at_ok)
  thus ?thesis using that [of t'] Some p by (simp add: HashTable_remove_def HashMap_take_def value_at_def)
qed

lemma clear_ok: "table_ok hash t \<Longrightarrow> table_ok hash (HashTable_clear t) \<and> table_map (HashTable_clear t) = Map.empty"
  by (auto simp: HashTable_clear_def table_ok_def sized_def table_map_def)

lemma map_step_refines:
  assumes ok: "table_ok hash t" and few: "(m_keyCount t + 1) * 3 < 2 ^ 30" and rel: "table_map t = hget m"
  obtains t' where "map_step hash emptyValue c t = Some t'" "table_ok hash t'" "table_map t' = hget (call_spec c m)"
proof (cases c)
  case (Call_add key v)
  obtain t' e isNewEntry where a: "HashMap_add hash key v t = Some (t', e, isNewEntry)"
    "add_result hash key v t t' e isNewEntry" using HashMap_add_ok [OF ok few] by blast
  have "table_map t' = hget (hadd key v m)"
    using a(2) rel by (auto simp: add_result_def fun_eq_iff split: option.splits)
  thus ?thesis using that a Call_add by (auto simp: add_result_def)
next
  case (Call_set key v)
  obtain t' where "HashMap_set hash key v t = Some t'" "table_ok hash t'" "table_map t' = (table_map t)(key \<mapsto> v)"
    using HashMap_set_ok [OF ok few] by blast
  thus ?thesis using that Call_set rel by (auto simp: fun_eq_iff)
next
  case (Call_remove key)
  obtain t' where "HashTable_remove hash key t = Some t'" "table_ok hash t'" "table_map t' = (table_map t)(key := None)"
    using removal_ok [OF ok] by blast
  thus ?thesis using that Call_remove rel by (auto simp: fun_eq_iff)
next
  case (Call_take key)
  obtain t' where "HashMap_take hash emptyValue key t = Some (case table_map t key of None \<Rightarrow> emptyValue | Some v \<Rightarrow> v, t')"
    "table_ok hash t'" "table_map t' = (table_map t)(key := None)"
    using removal_ok [OF ok] by blast
  thus ?thesis using that Call_take rel by (auto simp: fun_eq_iff)
next
  case Call_clear
  thus ?thesis using that clear_ok [OF ok] by (auto simp: fun_eq_iff)
qed

lemma call_spec_ok: "hmap_ok m \<Longrightarrow> hmap_ok (call_spec c m)"
  by (cases c) simp_all

lemma call_spec_length:
  assumes "hmap_ok m"
  shows "length (call_spec c m) \<le> length m + 1"
proof -
  have keys: "length m = length (hkeys m)" for m :: "('a, 'b) hmap" by (simp add: hkeys_def)
  have "length (hset k v m) \<le> length m + 1" "length (hremove k m) \<le> length m" for k v
    unfolding keys hkeys_hset hkeys_hremove by (simp_all add: le_SucI)
  moreover have "length (hadd k v m) \<le> length m + 1" for k v
    using calculation(1) by (simp add: hadd_def hset_def split: option.split)
  ultimately show ?thesis by (cases c) (auto intro: le_SucI)
qed

lemma hget_count:
  assumes "hmap_ok m"
  shows "card (dom (hget m)) = length m"
proof -
  have "hget m = map_of m" by (rule ext) (simp add: hget_def)
  thus ?thesis using assms distinct_card [of "map fst m"] by (simp add: hmap_ok_def dom_map_of_conv_image_fst)
qed

lemma map_run_refines:
  assumes "table_ok hash t" "table_map t = hget m" "hmap_ok m" "(length m + length cs) * 3 < 2 ^ 30"
  shows "\<exists>t'. map_run hash emptyValue cs t = Some t' \<and> table_ok hash t' \<and> hmap_ok (fold call_spec cs m) \<and>
    table_map t' = hget (fold call_spec cs m)"
  using assms
proof (induction cs arbitrary: t m)
  case Nil
  thus ?case by simp
next
  case (Cons c cs)
  have "m_keyCount t = length m" using key_count Cons.prems(1-3) hget_count by metis
  hence "(m_keyCount t + 1) * 3 < 2 ^ 30" using Cons.prems(4) by simp
  then obtain t' where t': "map_step hash emptyValue c t = Some t'" "table_ok hash t'" "table_map t' = hget (call_spec c m)"
    using map_step_refines Cons.prems(1,2) by metis
  have "(length (call_spec c m) + length cs) * 3 < 2 ^ 30"
    using call_spec_length [OF Cons.prems(3), of c] Cons.prems(4) by simp
  thus ?case using Cons.IH [OF t'(2,3) call_spec_ok [OF Cons.prems(3)]] t'(1) by simp
qed

text \<open>
  C5: whatever the hash function does, a map on which fewer than 2 to the 28 calls
  of add, set, remove, take and clear were made answers every lookup, returns
  every probe loop and counts its entries as the association list on which the
  same calls were made.
\<close>

theorem hash_map_refines:
  assumes "length cs < 2 ^ 28"
  shows "\<exists>t. map_run hash emptyValue cs HashTable_new = Some t \<and> table_ok hash t \<and>
    (\<forall>key. HashTable_contains hash key t = Some (hcontains (fold call_spec cs []) key)) \<and>
    (\<forall>key. HashMap_get hash emptyValue key t =
       Some (case hget (fold call_spec cs []) key of None \<Rightarrow> emptyValue | Some v \<Rightarrow> v)) \<and>
    HashMap_size t = length (fold call_spec cs [])"
proof -
  obtain t where t: "map_run hash emptyValue cs HashTable_new = Some t" "table_ok hash t"
    "hmap_ok (fold call_spec cs [])" "table_map t = hget (fold call_spec cs [])"
    using map_run_refines [OF new_ok(1), of "[]" cs hash emptyValue] new_ok(2) assms by (auto simp: fun_eq_iff)
  have "HashTable_contains hash key t = Some (hcontains (fold call_spec cs []) key)" for key
    using lookup_result [OF t(2), of key] t(4)
    by (cases "table_map t key") (auto simp: HashTable_contains_def hcontains_def)
  moreover have "HashMap_size t = length (fold call_spec cs [])"
    using key_count [OF t(2)] hget_count [OF t(3)] t(4) by (simp add: HashMap_size_def)
  ultimately show ?thesis using t HashMap_get_ok [OF t(2)] by (intro exI [of _ t]) simp
qed

definition even_hash :: "nat \<Rightarrow> 32 word" where
  "even_hash n = word_of_nat (n div 2)"

theorem hash_map_refines_witness:
  "\<exists>t. map_run even_hash (0 :: nat) [Call_add 4 1, Call_set 5 2, Call_add 4 3, Call_remove 4, Call_set 7 9] HashTable_new = Some t \<and>
    HashMap_get even_hash 0 5 t = Some 2 \<and> HashMap_get even_hash 0 4 t = Some 0 \<and> HashMap_size t = 2"
  using hash_map_refines [of "[Call_add 4 1, Call_set 5 2, Call_add 4 3, Call_remove 4, Call_set 7 9]" even_hash "0 :: nat"]
  by (auto simp: hadd_def hset_def hremove_def hget_def)

section \<open>Comparing and copying maps\<close>

lemma iteration_entries: "table_ok hash t \<Longrightarrow> iteration t = entries (m_table t)"
  by (auto simp: iteration_def HashMap_isEmpty_def table_ok_def)

lemma same_entries_result:
  assumes "table_ok hash b"
  shows "same_entries hash kvs b = Some (\<forall>(key, v) \<in> set kvs. table_map b key = Some v)"
proof (induction kvs)
  case (Cons kv kvs)
  obtain key v where kv: "kv = (key, v)" by (cases kv)
  show ?case
  proof (cases "table_map b key")
    case None
    thus ?thesis using lookup_result(1) [OF assms] by (simp add: kv)
  next
    case (Some w)
    then obtain p where "HashTable_lookup hash key b = Some (Some p)" "m_table b ! p = Bucket key w"
      using lookup_result(2) [OF assms] by blast
    thus ?thesis using Cons.IH Some by (auto simp: kv value_at_def)
  qed
qed simp

lemma smaller_map_of_same_size:
  assumes "f \<subseteq>\<^sub>m g" "finite (dom g)" "card (dom f) = card (dom g)"
  shows "f = g"
proof (rule map_le_antisym)
  have "dom f = dom g" using assms by (intro card_subset_eq map_le_implies_dom_le)
  thus "g \<subseteq>\<^sub>m f" using assms(1) by (simp add: map_le_def)
qed (fact assms(1))

lemma HashMap_equal_result:
  assumes a: "table_ok hash a" and b: "table_ok hash b"
  shows "HashMap_equal hash a b = Some (table_map a = table_map b)"
proof -
  have sub: "(\<forall>(key, v) \<in> set (entries (m_table a)). table_map b key = Some v) \<longleftrightarrow> table_map a \<subseteq>\<^sub>m table_map b"
    using distinct_keys [OF a] by (force simp: map_le_def table_map_def [of a] dest: map_of_SomeD)
  have finite: "finite (dom (table_map b))" by (simp add: table_map_def finite_dom_map_of)
  have "table_map a \<subseteq>\<^sub>m table_map b \<and> card (dom (table_map a)) = card (dom (table_map b)) \<longleftrightarrow> table_map a = table_map b"
    using smaller_map_of_same_size [OF _ finite] by auto
  thus ?thesis
    using sub by (auto simp: HashMap_equal_def HashMap_size_def key_count [OF a] key_count [OF b]
      iteration_entries [OF a] same_entries_result [OF b])
qed

lemma add_each_run:
  "add_each hash kvs t = map_run hash undefined (map (\<lambda>(key, v). Call_add key v) kvs) t"
  by (induction hash kvs t rule: add_each.induct) (auto simp: HashMap_add_def split: option.splits)

lemma adds_of_distinct:
  assumes "distinct (map fst kvs)" "\<forall>key \<in> fst ` set kvs. hget m key = None"
  shows "hget (fold call_spec (map (\<lambda>(key, v). Call_add key v) kvs) m) key =
    (case map_of kvs key of None \<Rightarrow> hget m key | Some v \<Rightarrow> Some v)"
  using assms
proof (induction kvs arbitrary: m)
  case (Cons kv kvs)
  obtain k v where kv: "kv = (k, v)" by (cases kv)
  have "map_of kvs k = None" using Cons.prems(1) by (simp add: kv map_of_eq_None_iff)
  moreover have "\<forall>key \<in> fst ` set kvs. hget (hadd k v m) key = None"
    using Cons.prems by (auto simp: kv)
  ultimately show ?case
    using Cons.prems Cons.IH [of "hadd k v m"] by (simp add: kv split: option.split)
qed simp

lemma HashTable_copy_ok:
  assumes ok: "table_ok hash t" and few: "m_keyCount t * 3 < 2 ^ 30"
  obtains t' where "HashTable_copy hash t = Some t'" "table_ok hash t'" "table_map t' = table_map t"
proof -
  let ?cs = "map (\<lambda>(key, v). Call_add key v) (entries (m_table t))"
  have "length ?cs = m_keyCount t" using ok by (simp add: table_ok_def)
  then obtain t' where t': "HashTable_copy hash t = Some t'" "table_ok hash t'" "table_map t' = hget (fold call_spec ?cs [])"
    using map_run_refines [OF new_ok(1), of "[]" ?cs hash undefined] new_ok(2) few
    by (auto simp: HashTable_copy_def iteration_entries [OF ok] add_each_run fun_eq_iff)
  have "table_map t' key = table_map t key" for key
    unfolding t'(3) unfolding table_map_def
    using adds_of_distinct [OF distinct_keys [OF ok], of "[]" key] by (simp split: option.splits)
  hence "table_map t' = table_map t" ..
  thus ?thesis using that t' by blast
qed

text \<open>
  Comparing two maps decides whether they hold the same values under the same
  keys, and the copy of a map compares equal to it.
\<close>

lemma hash_map_equality:
  assumes "table_ok hash a" "table_ok hash b" "m_keyCount a < 2 ^ 28"
  shows "HashMap_equal hash a b = Some (table_map a = table_map b) \<and>
    (\<exists>c. HashTable_copy hash a = Some c \<and> table_ok hash c \<and> HashMap_equal hash c a = Some True)"
proof
  obtain c where c: "HashTable_copy hash a = Some c" "table_ok hash c" "table_map c = table_map a"
    using HashTable_copy_ok [OF assms(1)] assms(3) by auto
  thus "\<exists>c. HashTable_copy hash a = Some c \<and> table_ok hash c \<and> HashMap_equal hash c a = Some True"
    using HashMap_equal_result [OF c(2) assms(1)] by simp
qed (rule HashMap_equal_result [OF assms(1,2)])

lemma hash_map_equality_witness:
  "\<exists>a b. map_run even_hash (0 :: nat) [Call_set 4 1, Call_set 5 2] HashTable_new = Some a \<and>
    map_run even_hash 0 [Call_set 5 2, Call_set 4 3, Call_set 4 1] HashTable_new = Some b \<and>
    HashMap_equal even_hash a b = Some True"
proof -
  let ?xs = "[Call_set 4 1, Call_set 5 2] :: (nat, nat) map_call list"
  let ?ys = "[Call_set 5 2, Call_set 4 3, Call_set 4 1] :: (nat, nat) map_call list"
  obtain a where a: "map_run even_hash 0 ?xs HashTable_new = Some a" "table_ok even_hash a"
    "hmap_ok (fold call_spec ?xs [])" "table_map a = hget (fold call_spec ?xs [])"
    using map_run_refines [OF new_ok(1), of "[]" ?xs even_hash 0] new_ok(2) by (auto simp: fun_eq_iff)
  obtain b where b: "map_run even_hash 0 ?ys HashTable_new = Some b" "table_ok even_hash b"
    "table_map b = hget (fold call_spec ?ys [])"
    using map_run_refines [OF new_ok(1), of "[]" ?ys even_hash 0] new_ok(2) by (auto simp: fun_eq_iff)
  have "m_keyCount a < 2 ^ 28" using key_count [OF a(2)] hget_count [OF a(3)] a(4) by (simp add: hset_def)
  moreover have "table_map a = table_map b" by (simp add: a(4) b(3) fun_eq_iff)
  ultimately have "HashMap_equal even_hash a b = Some True"
    using hash_map_equality [OF a(2) b(2)] by simp
  thus ?thesis using a(1) b(1) by blast
qed

end
