(* ===== verification/Deque_Buffer.thy ===== *)
theory Deque_Buffer
  imports Prelude
begin

text \<open>
  \<^verbatim>\<open>WTF::Deque\<close> (wtf/Deque.h): a circular buffer that grows by a quarter, with its
  iterators as indices.  The indices are natural numbers, since the source does not
  let them pass the capacity.  The allocator is \<^verbatim>\<open>DefaultAllocator\<close>, which never expands a buffer in
  place.  The deque behaves as the list by which the theory of asynchronous calls
  models the chain of call stacks.
\<close>

section \<open>The buffer and its operations\<close>

text \<open>
  A slot of the buffer is unused or holds an element.  The capacity is the number
  of slots.  An allocation is rounded up by the allocator; what it makes of a
  requested capacity is the parameter \<open>quantize\<close>.
\<close>

record 'a deque =
  m_buffer :: "'a option list"
  m_start :: nat
  m_end :: nat

definition capacity :: "'a deque \<Rightarrow> nat" where
  "capacity d = length (m_buffer d)"

definition Deque_new :: "nat \<Rightarrow> 'a deque" where
  "Deque_new inlineCapacity = \<lparr> m_buffer = replicate inlineCapacity None, m_start = 0, m_end = 0 \<rparr>"

definition Deque_size :: "'a deque \<Rightarrow> nat" where
  "Deque_size d = (if m_start d \<le> m_end d then m_end d - m_start d else m_end d + capacity d - m_start d)"

definition Deque_isEmpty :: "'a deque \<Rightarrow> bool" where
  "Deque_isEmpty d \<longleftrightarrow> m_start d = m_end d"

definition Deque_at :: "nat \<Rightarrow> 'a deque \<Rightarrow> 'a option" where
  "Deque_at i d =
    (if Deque_size d \<le> i then None
     else (let right = capacity d - m_start d
           in if i < right then m_buffer d ! (m_start d + i) else m_buffer d ! (i - right)))"

text \<open>\<^verbatim>\<open>TypeOperations::move\<close> of the slots from \<open>i\<close> up to \<open>j\<close>, also within one buffer.\<close>

definition move_slots :: "'a option list \<Rightarrow> nat \<Rightarrow> nat \<Rightarrow> 'a option list \<Rightarrow> nat \<Rightarrow> 'a option list" where
  "move_slots source i j target p =
    take p target @ take (j - i) (drop i source) @ drop (p + (j - i)) target"

definition allocateBuffer :: "(nat \<Rightarrow> nat) \<Rightarrow> nat \<Rightarrow> nat \<Rightarrow> 'a option list" where
  "allocateBuffer quantize inlineCapacity newCapacity =
    replicate (if inlineCapacity < newCapacity then quantize newCapacity else inlineCapacity) None"

definition expandCapacity :: "(nat \<Rightarrow> nat) \<Rightarrow> nat \<Rightarrow> 'a deque \<Rightarrow> 'a deque" where
  "expandCapacity quantize inlineCapacity d =
    (let oldCapacity = capacity d; oldBuffer = m_buffer d;
         newCapacity = max 16 (oldCapacity + oldCapacity div 4 + 1);
         buffer = allocateBuffer quantize inlineCapacity newCapacity
     in if m_start d \<le> m_end d
        then d\<lparr>m_buffer := move_slots oldBuffer (m_start d) (m_end d) buffer (m_start d)\<rparr>
        else (let newStart = length buffer - (oldCapacity - m_start d);
                  buffer' = move_slots oldBuffer 0 (m_end d) buffer 0
              in d\<lparr>m_buffer := move_slots oldBuffer (m_start d) oldCapacity buffer' newStart, m_start := newStart\<rparr>))"

definition expandCapacityIfNeeded :: "(nat \<Rightarrow> nat) \<Rightarrow> nat \<Rightarrow> 'a deque \<Rightarrow> 'a deque" where
  "expandCapacityIfNeeded quantize inlineCapacity d =
    (if m_start d \<noteq> 0
     then (if m_end d + 1 \<noteq> m_start d then d else expandCapacity quantize inlineCapacity d)
     else if m_end d \<noteq> 0
     then (if m_end d \<noteq> capacity d - 1 then d else expandCapacity quantize inlineCapacity d)
     else if capacity d \<noteq> 0 then d
     else expandCapacity quantize inlineCapacity d)"

definition Deque_append :: "(nat \<Rightarrow> nat) \<Rightarrow> nat \<Rightarrow> 'a \<Rightarrow> 'a deque \<Rightarrow> 'a deque" where
  "Deque_append quantize inlineCapacity v d0 =
    (let d = expandCapacityIfNeeded quantize inlineCapacity d0
     in d\<lparr>m_buffer := (m_buffer d)[m_end d := Some v],
          m_end := (if m_end d = capacity d - 1 then 0 else m_end d + 1)\<rparr>)"

definition Deque_prepend :: "(nat \<Rightarrow> nat) \<Rightarrow> nat \<Rightarrow> 'a \<Rightarrow> 'a deque \<Rightarrow> 'a deque" where
  "Deque_prepend quantize inlineCapacity v d0 =
    (let d = expandCapacityIfNeeded quantize inlineCapacity d0;
         start = (if m_start d = 0 then capacity d - 1 else m_start d - 1)
     in d\<lparr>m_buffer := (m_buffer d)[start := Some v], m_start := start\<rparr>)"

definition increment :: "'a deque \<Rightarrow> nat \<Rightarrow> nat" where
  "increment d index = (if index = capacity d - 1 then 0 else index + 1)"

definition decrement :: "'a deque \<Rightarrow> nat \<Rightarrow> nat" where
  "decrement d index = (if index = 0 then capacity d - 1 else index - 1)"

definition removeFirst :: "'a deque \<Rightarrow> 'a deque" where
  "removeFirst d =
    d\<lparr>m_buffer := (m_buffer d)[m_start d := None],
      m_start := (if m_start d = capacity d - 1 then 0 else m_start d + 1)\<rparr>"

definition removeLast :: "'a deque \<Rightarrow> 'a deque" where
  "removeLast d =
    (let e = (if m_end d = 0 then capacity d - 1 else m_end d - 1)
     in d\<lparr>m_buffer := (m_buffer d)[e := None], m_end := e\<rparr>)"

definition Deque_first :: "'a deque \<Rightarrow> 'a option" where
  "Deque_first d = (if m_start d < capacity d then m_buffer d ! m_start d else None)"

definition Deque_last :: "'a deque \<Rightarrow> 'a option" where
  "Deque_last d = (if decrement d (m_end d) < capacity d then m_buffer d ! decrement d (m_end d) else None)"

definition takeFirst :: "'a deque \<Rightarrow> ('a \<times> 'a deque) option" where
  "takeFirst d = map_option (\<lambda>oldFirst. (oldFirst, removeFirst d)) (Deque_first d)"

definition takeLast :: "'a deque \<Rightarrow> ('a \<times> 'a deque) option" where
  "takeLast d = map_option (\<lambda>oldLast. (oldLast, removeLast d)) (Deque_last d)"

definition Deque_remove :: "nat \<Rightarrow> 'a deque \<Rightarrow> 'a deque" where
  "Deque_remove position d =
    (if position = m_end d then d
     else (let buffer = (m_buffer d)[position := None]
           in if m_start d \<le> position
              then d\<lparr>m_buffer := (move_slots buffer (m_start d) position buffer (m_start d + 1))[m_start d := None],
                     m_start := (m_start d + 1) mod capacity d\<rparr>
              else d\<lparr>m_buffer := (move_slots buffer (position + 1) (m_end d) buffer position)[m_end d - 1 := None],
                     m_end := (m_end d - 1 + capacity d) mod capacity d\<rparr>))"

partial_function (option) find_loop :: "('a \<Rightarrow> bool) \<Rightarrow> 'a deque \<Rightarrow> nat \<Rightarrow> nat option" where
  "find_loop predicate d it =
    (if it = m_end d then Some it
     else (case m_buffer d ! it of
             None \<Rightarrow> None
           | Some x \<Rightarrow> if predicate x then Some it else find_loop predicate d (increment d it)))"

definition findIf :: "('a \<Rightarrow> bool) \<Rightarrow> 'a deque \<Rightarrow> nat option" where
  "findIf predicate d = find_loop predicate d (m_start d)"

definition Deque_clear :: "nat \<Rightarrow> 'a deque \<Rightarrow> 'a deque" where
  "Deque_clear inlineCapacity d = \<lparr> m_buffer = replicate inlineCapacity None, m_start = 0, m_end = 0 \<rparr>"

definition Deque_copy :: "(nat \<Rightarrow> nat) \<Rightarrow> nat \<Rightarrow> 'a deque \<Rightarrow> 'a deque" where
  "Deque_copy quantize inlineCapacity other =
    (let buffer = (if capacity other = 0 then [] else allocateBuffer quantize inlineCapacity (capacity other))
     in other\<lparr>m_buffer :=
          (if m_start other \<le> m_end other
           then move_slots (m_buffer other) (m_start other) (m_end other) buffer (m_start other)
           else move_slots (m_buffer other) (m_start other) (length buffer)
                  (move_slots (m_buffer other) 0 (m_end other) buffer 0) (m_start other))\<rparr>)"

section \<open>What a deque holds\<close>

definition from_index :: "'a deque \<Rightarrow> nat \<Rightarrow> 'a option list" where
  "from_index d i =
    (if i \<le> m_end d then take (m_end d - i) (drop i (m_buffer d)) else drop i (m_buffer d) @ take (m_end d) (m_buffer d))"

definition deque_holds :: "'a deque \<Rightarrow> 'a list \<Rightarrow> bool" where
  "deque_holds d xs \<longleftrightarrow> capacity d \<noteq> 1 \<and>
    (if capacity d = 0 then m_start d = 0 \<and> m_end d = 0 else m_start d < capacity d \<and> m_end d < capacity d) \<and>
    from_index d (m_start d) = map Some xs"

lemma length_move_slots:
  "j \<le> length source \<Longrightarrow> p + (j - i) \<le> length target \<Longrightarrow> length (move_slots source i j target p) = length target"
  by (simp add: move_slots_def)

lemma holds_bounds:
  assumes "deque_holds d xs"
  shows "m_start d \<le> length (m_buffer d)" "m_end d \<le> length (m_buffer d)"
  using assms by (auto simp: deque_holds_def capacity_def split: if_splits)

lemma Deque_size_holds:
  assumes "deque_holds d xs"
  shows "Deque_size d = length xs"
proof -
  have "length (from_index d (m_start d)) = length xs" using assms by (simp add: deque_holds_def)
  thus ?thesis using holds_bounds [OF assms] by (auto simp: Deque_size_def from_index_def capacity_def split: if_splits)
qed

definition has_room :: "'a deque \<Rightarrow> bool" where
  "has_room d \<longleftrightarrow> 2 \<le> capacity d \<and> (if m_start d = 0 then m_end d \<noteq> capacity d - 1 else m_end d + 1 \<noteq> m_start d)"

lemma straight_move:
  assumes "length buffer > length old" "s \<le> e" "e \<le> length old"
  shows "take (e - s) (drop s (move_slots old s e buffer s)) = take (e - s) (drop s old)"
  using assms by (simp add: move_slots_def)

lemma wrapped_move:
  assumes "length old < length buffer" "e < s" "s \<le> length old"
  defines "newStart \<equiv> length buffer - (length old - s)"
  shows "drop newStart (move_slots old s (length old) (move_slots old 0 e buffer 0) newStart) = drop s old"
    and "take e (move_slots old s (length old) (move_slots old 0 e buffer 0) newStart) = take e old"
  using assms by (simp_all add: move_slots_def)

lemma straight_holds:
  assumes holds: "deque_holds d xs" and n: "length (m_buffer d) < length buffer" "16 \<le> length buffer"
    and straight: "m_start d \<le> m_end d"
    and e: "e = d\<lparr>m_buffer := move_slots (m_buffer d) (m_start d) (m_end d) buffer (m_start d)\<rparr>"
  shows "deque_holds e xs \<and> has_room e"
proof -
  note bounds = holds_bounds [OF holds]
  have fields: "capacity e = length buffer" "m_start e = m_start d" "m_end e = m_end d"
    using straight n bounds by (simp_all add: e capacity_def length_move_slots)
  have "from_index e (m_start e) = map Some xs"
    using holds straight straight_move [OF n(1) straight bounds(2)] by (simp add: deque_holds_def from_index_def e)
  moreover have "m_end d < length buffer - 1"
    using holds n by (auto simp: deque_holds_def capacity_def split: if_splits)
  ultimately show ?thesis using n bounds straight unfolding deque_holds_def has_room_def fields by auto
qed

lemma wrapped_holds:
  assumes holds: "deque_holds d xs" and n: "length (m_buffer d) < length buffer" "16 \<le> length buffer"
    and wrapped: "m_end d < m_start d"
    and start: "newStart = length buffer - (length (m_buffer d) - m_start d)"
    and e: "e = d\<lparr>m_buffer := move_slots (m_buffer d) (m_start d) (length (m_buffer d))
        (move_slots (m_buffer d) 0 (m_end d) buffer 0) newStart, m_start := newStart\<rparr>"
  shows "deque_holds e xs \<and> has_room e"
proof -
  note bounds = holds_bounds [OF holds]
  have fields: "capacity e = length buffer" "m_start e = newStart" "m_end e = m_end d"
    using wrapped n bounds start by (simp_all add: e capacity_def length_move_slots)
  have less: "m_start d < length (m_buffer d)" using holds wrapped by (simp add: deque_holds_def capacity_def split: if_splits)
  have places: "m_end d + 1 < newStart" "newStart < length buffer" using wrapped n less start by simp_all
  have "from_index e (m_start e) = map Some xs"
    using holds wrapped places wrapped_move [OF n(1) wrapped bounds(1)]
    by (simp add: deque_holds_def from_index_def e start)
  thus ?thesis using n places unfolding deque_holds_def has_room_def fields by auto
qed

lemma expandCapacity_holds:
  assumes holds: "deque_holds d xs" and quantize: "\<And>n. n \<le> quantize n"
  shows "deque_holds (expandCapacity quantize inlineCapacity d) xs \<and> has_room (expandCapacity quantize inlineCapacity d)"
proof -
  obtain buffer :: "'a option list"
    where buffer: "buffer = allocateBuffer quantize inlineCapacity (max 16 (capacity d + capacity d div 4 + 1))" by blast
  have n: "length (m_buffer d) < length buffer" "16 \<le> length buffer"
    using quantize [of "max 16 (capacity d + capacity d div 4 + 1)"] by (auto simp: buffer allocateBuffer_def capacity_def)
  show ?thesis
  proof (cases "m_start d \<le> m_end d")
    case True
    thus ?thesis using straight_holds [OF holds n True refl] unfolding expandCapacity_def Let_def buffer [symmetric] by simp
  next
    case False
    thus ?thesis using wrapped_holds [OF holds n _ refl refl]
      unfolding expandCapacity_def Let_def buffer [symmetric] unfolding capacity_def by simp
  qed
qed

lemma expandCapacityIfNeeded_holds:
  assumes "deque_holds d xs" "\<And>n. n \<le> quantize n"
  shows "deque_holds (expandCapacityIfNeeded quantize inlineCapacity d) xs"
    "has_room (expandCapacityIfNeeded quantize inlineCapacity d)"
proof -
  have "capacity d \<noteq> 1" "capacity d \<noteq> 0 \<or> m_start d = 0 \<and> m_end d = 0"
    using assms(1) by (auto simp: deque_holds_def split: if_splits)
  thus "deque_holds (expandCapacityIfNeeded quantize inlineCapacity d) xs"
    "has_room (expandCapacityIfNeeded quantize inlineCapacity d)"
    using assms(1) expandCapacity_holds [OF assms, of inlineCapacity]
    by (auto simp: expandCapacityIfNeeded_def has_room_def)
qed

section \<open>Adding and taking at the ends\<close>

lemma from_index_step:
  assumes "i < capacity d" "i \<noteq> m_end d" "m_end d < capacity d"
  shows "from_index d i = m_buffer d ! i # from_index d (increment d i)"
proof -
  have drop: "drop i (m_buffer d) = m_buffer d ! i # drop (Suc i) (m_buffer d)"
    using assms(1) by (simp add: capacity_def Cons_nth_drop_Suc)
  show ?thesis
  proof (cases "i < m_end d")
    case True
    hence "increment d i = Suc i" "m_end d - i = Suc (m_end d - Suc i)"
      using assms(3) by (auto simp: increment_def)
    thus ?thesis using True by (simp add: from_index_def drop)
  next
    case False
    thus ?thesis using assms by (auto simp: from_index_def increment_def capacity_def drop)
  qed
qed

lemma from_index_end: "from_index d (m_end d) = []"
  by (simp add: from_index_def)

lemma take_last: "0 < n \<Longrightarrow> n \<le> length xs \<Longrightarrow> take n xs = take (n - 1) xs @ [xs ! (n - 1)]"
  using take_Suc_conv_app_nth [of "n - 1" xs] by simp

lemma from_index_last:
  assumes "i < capacity d" "i \<noteq> m_end d" "m_end d < capacity d"
  shows "from_index d i = from_index (d\<lparr>m_end := decrement d (m_end d)\<rparr>) i @ [m_buffer d ! decrement d (m_end d)]"
proof (cases "m_end d = 0")
  case True
  thus ?thesis
    using assms take_last [of "capacity d - i" "drop i (m_buffer d)"]
    by (simp add: from_index_def decrement_def capacity_def)
next
  case False
  have "take (m_end d - i) (drop i (m_buffer d)) = take (m_end d - 1 - i) (drop i (m_buffer d)) @ [m_buffer d ! (m_end d - 1)]"
    if "i < m_end d"
    using that assms take_last [of "m_end d - i" "drop i (m_buffer d)"] by (simp add: capacity_def)
  moreover have "take (m_end d) (m_buffer d) = take (m_end d - 1) (m_buffer d) @ [m_buffer d ! (m_end d - 1)]"
    using False assms by (intro take_last) (simp_all add: capacity_def)
  ultimately show ?thesis using False assms by (auto simp: from_index_def decrement_def)
qed

definition outside :: "'a deque \<Rightarrow> nat \<Rightarrow> nat \<Rightarrow> bool" where
  "outside d i k \<longleftrightarrow> (if i \<le> m_end d then k < i \<or> m_end d \<le> k else m_end d \<le> k \<and> k < i)"

lemma from_index_outside:
  assumes "outside d i k"
  shows "from_index (d\<lparr>m_buffer := (m_buffer d)[k := v]\<rparr>) i = from_index d i"
proof (cases "i \<le> m_end d")
  case True
  thus ?thesis using assms by (auto simp: from_index_def outside_def intro!: nth_equalityI)
next
  case False
  thus ?thesis using assms by (simp add: from_index_def outside_def)
qed

lemma holds_filled:
  assumes "deque_holds d xs" "capacity d \<noteq> 0"
  shows "m_start d < capacity d" "m_end d < capacity d" "from_index d (m_start d) = map Some xs" "capacity d \<noteq> 1"
  using assms by (auto simp: deque_holds_def)

lemma holds_empty_iff:
  assumes "deque_holds d xs"
  shows "xs = [] \<longleftrightarrow> m_start d = m_end d"
proof -
  have "length xs = 0 \<longleftrightarrow> Deque_size d = 0" using Deque_size_holds [OF assms] by simp
  thus ?thesis using assms by (auto simp: Deque_size_def deque_holds_def split: if_splits)
qed

lemma append_holds:
  assumes "deque_holds d xs" "\<And>n. n \<le> quantize n"
  shows "deque_holds (Deque_append quantize inlineCapacity v d) (xs @ [v])"
proof -
  let ?e = "expandCapacityIfNeeded quantize inlineCapacity d"
  have e: "deque_holds ?e xs" "has_room ?e" using expandCapacityIfNeeded_holds [OF assms] by simp_all
  have filled: "capacity ?e \<noteq> 0" using e(2) by (simp add: has_room_def)
  note f = holds_filled [OF e(1) filled]
  let ?d = "?e\<lparr>m_buffer := (m_buffer ?e)[m_end ?e := Some v], m_end := increment ?e (m_end ?e)\<rparr>"
  have append: "Deque_append quantize inlineCapacity v d = ?d" by (simp add: Deque_append_def Let_def increment_def)
  have fields: "capacity ?d = capacity ?e" "m_end ?d < capacity ?e" "m_start ?e \<noteq> m_end ?d" "decrement ?d (m_end ?d) = m_end ?e"
    using e(2) f by (auto simp: capacity_def increment_def decrement_def has_room_def split: if_splits)
  have "from_index ?d (m_start ?e) = from_index (?d\<lparr>m_end := m_end ?e\<rparr>) (m_start ?e) @ [m_buffer ?d ! m_end ?e]"
    using from_index_last [of "m_start ?e" ?d] fields f(1) by simp
  also have "from_index (?d\<lparr>m_end := m_end ?e\<rparr>) (m_start ?e) = from_index ?e (m_start ?e)"
    using from_index_outside [of ?e "m_start ?e" "m_end ?e" "Some v"] by (simp add: outside_def from_index_def)
  also have "m_buffer ?d ! m_end ?e = Some v" using f(2) by (simp add: capacity_def)
  finally have "from_index ?d (m_start ?d) = map Some (xs @ [v])" using f(3) by simp
  thus ?thesis using append fields f(1,4) filled by (simp add: deque_holds_def)
qed

lemma prepend_holds:
  assumes "deque_holds d xs" "\<And>n. n \<le> quantize n"
  shows "deque_holds (Deque_prepend quantize inlineCapacity v d) (v # xs)"
proof -
  let ?e = "expandCapacityIfNeeded quantize inlineCapacity d"
  have e: "deque_holds ?e xs" "has_room ?e" using expandCapacityIfNeeded_holds [OF assms] by simp_all
  have filled: "capacity ?e \<noteq> 0" using e(2) by (simp add: has_room_def)
  note f = holds_filled [OF e(1) filled]
  let ?s = "decrement ?e (m_start ?e)"
  let ?b = "?e\<lparr>m_buffer := (m_buffer ?e)[?s := Some v]\<rparr>"
  let ?d = "?b\<lparr>m_start := ?s\<rparr>"
  have prepend: "Deque_prepend quantize inlineCapacity v d = ?d" by (simp add: Deque_prepend_def Let_def decrement_def)
  have fields: "capacity ?d = capacity ?e" "?s < capacity ?e" "?s \<noteq> m_end ?e" "increment ?d ?s = m_start ?e"
    using e(2) f by (auto simp: capacity_def increment_def decrement_def has_room_def split: if_splits)
  have "outside ?e (m_start ?e) ?s"
    using e(2) f by (auto simp: outside_def decrement_def has_room_def split: if_splits)
  hence "from_index ?b (m_start ?e) = from_index ?e (m_start ?e)" by (rule from_index_outside)
  moreover have "from_index ?d ?s = m_buffer ?d ! ?s # from_index ?d (m_start ?e)"
    using from_index_step [of ?s ?d] fields f(2) by simp
  moreover have "m_buffer ?d ! ?s = Some v" using fields(2) by (simp add: capacity_def)
  moreover have "from_index ?d (m_start ?e) = from_index ?b (m_start ?e)" by (simp add: from_index_def)
  ultimately have "from_index ?d (m_start ?d) = map Some (v # xs)" using f(3) by simp
  thus ?thesis using prepend fields f(2,4) filled by (simp add: deque_holds_def)
qed

lemma takeFirst_holds:
  assumes "deque_holds d (x # xs)"
  obtains d' where "takeFirst d = Some (x, d')" "deque_holds d' xs"
proof -
  have apart: "m_start d \<noteq> m_end d" using holds_empty_iff [OF assms] by simp
  hence filled: "capacity d \<noteq> 0" using assms by (auto simp: deque_holds_def split: if_splits)
  note f = holds_filled [OF assms filled]
  let ?s = "increment d (m_start d)"
  let ?b = "d\<lparr>m_buffer := (m_buffer d)[m_start d := None]\<rparr>"
  let ?d = "?b\<lparr>m_start := ?s\<rparr>"
  have parts: "m_buffer d ! m_start d = Some x" "from_index d ?s = map Some xs"
    using from_index_step [OF f(1) apart f(2)] f(3) by simp_all
  have "outside d ?s (m_start d)" using apart f(1,2) by (auto simp: outside_def increment_def)
  hence "from_index ?b ?s = map Some xs" using parts(2) by (simp add: from_index_outside)
  moreover have "from_index ?d ?s = from_index ?b ?s" by (simp add: from_index_def)
  ultimately have "deque_holds ?d xs"
    using f(1,2,4) filled by (auto simp: deque_holds_def capacity_def increment_def)
  moreover have "takeFirst d = Some (x, ?d)"
    using parts(1) f(1) by (simp add: takeFirst_def Deque_first_def removeFirst_def increment_def)
  ultimately show ?thesis by (intro that)
qed

lemma takeLast_holds:
  assumes "deque_holds d (xs @ [x])"
  obtains d' where "takeLast d = Some (x, d')" "deque_holds d' xs"
proof -
  have apart: "m_start d \<noteq> m_end d" using holds_empty_iff [OF assms] by simp
  hence filled: "capacity d \<noteq> 0" using assms by (auto simp: deque_holds_def split: if_splits)
  note f = holds_filled [OF assms filled]
  let ?e = "decrement d (m_end d)"
  let ?b = "d\<lparr>m_end := ?e\<rparr>"
  let ?d = "?b\<lparr>m_buffer := (m_buffer d)[?e := None]\<rparr>"
  have parts: "m_buffer d ! ?e = Some x" "from_index ?b (m_start d) = map Some xs"
    using from_index_last [OF f(1) apart f(2)] f(3) by simp_all
  have "outside ?b (m_start d) ?e" by (simp add: outside_def)
  hence "from_index ?d (m_start d) = map Some xs" using parts(2) from_index_outside [of ?b "m_start d" ?e None] by simp
  moreover have less: "?e < capacity d" using f(2) by (auto simp: decrement_def)
  ultimately have "deque_holds ?d xs" using f(1,4) filled by (simp add: deque_holds_def capacity_def)
  moreover have "takeLast d = Some (x, ?d)"
    using parts(1) less by (simp add: takeLast_def Deque_last_def removeLast_def decrement_def Let_def)
  ultimately show ?thesis by (intro that)
qed

lemma Deque_at_holds:
  assumes "deque_holds d xs" "i < length xs"
  shows "Deque_at i d = Some (xs ! i)"
proof -
  have "xs \<noteq> []" using assms(2) by auto
  hence filled: "capacity d \<noteq> 0" using assms(1) holds_empty_iff [OF assms(1)] by (auto simp: deque_holds_def split: if_splits)
  note f = holds_filled [OF assms(1) filled]
  have "from_index d (m_start d) ! i = Some (xs ! i)" using f(3) assms(2) by simp
  moreover have "length (from_index d (m_start d)) = length xs" using f(3) by simp
  ultimately show ?thesis
    using assms(2) f(1,2) Deque_size_holds [OF assms(1)]
    by (auto simp: Deque_at_def Let_def from_index_def capacity_def nth_append split: if_splits)
qed

section \<open>Searching and removing\<close>

lemma find_loop_none:
  assumes "from_index d i = map Some ys" "i < capacity d" "m_end d < capacity d" "\<forall>y \<in> set ys. \<not> predicate y"
  shows "find_loop predicate d i = Some (m_end d)"
  using assms
proof (induction ys arbitrary: i)
  case Nil
  hence "i = m_end d" using from_index_step [of i d] by (cases "i = m_end d") simp_all
  thus ?case by (subst find_loop.simps) simp
next
  case (Cons y ys)
  have apart: "i \<noteq> m_end d" using Cons.prems(1) from_index_end [of d] by auto
  hence "m_buffer d ! i = Some y" "from_index d (increment d i) = map Some ys"
    using from_index_step [OF Cons.prems(2) apart Cons.prems(3)] Cons.prems(1) by simp_all
  moreover have "increment d i < capacity d" using Cons.prems(2) by (auto simp: increment_def)
  ultimately show ?case using Cons apart by (subst find_loop.simps) simp
qed

lemma find_loop_some:
  assumes "from_index d i = map Some (pre @ x # post)" "i < capacity d" "m_end d < capacity d"
    "\<forall>y \<in> set pre. \<not> predicate y" "predicate x"
  shows "\<exists>pos < capacity d. find_loop predicate d i = Some pos \<and> pos \<noteq> m_end d \<and> \<not> outside d i pos \<and>
    from_index d pos = map Some (x # post)"
  using assms
proof (induction pre arbitrary: i)
  case Nil
  have apart: "i \<noteq> m_end d" using Nil.prems(1) from_index_end [of d] by auto
  moreover have "m_buffer d ! i = Some x"
    using from_index_step [OF Nil.prems(2) apart Nil.prems(3)] Nil.prems(1) by simp
  moreover from calculation have "find_loop predicate d i = Some i"
    using Nil.prems(5) by (subst find_loop.simps) simp
  ultimately show ?case using Nil.prems(1,2) by (auto simp: outside_def)
next
  case (Cons y pre)
  have apart: "i \<noteq> m_end d" using Cons.prems(1) from_index_end [of d] by auto
  hence "m_buffer d ! i = Some y" and rest: "from_index d (increment d i) = map Some (pre @ x # post)"
    using from_index_step [OF Cons.prems(2) apart Cons.prems(3)] Cons.prems(1) by simp_all
  hence "find_loop predicate d i = find_loop predicate d (increment d i)"
    using Cons.prems(4) apart by (subst find_loop.simps) simp
  moreover have less: "increment d i < capacity d" using Cons.prems(2) by (auto simp: increment_def)
  moreover have "outside d i pos \<Longrightarrow> pos < capacity d \<Longrightarrow> outside d (increment d i) pos" for pos
    using apart Cons.prems(2,3) by (auto simp: outside_def increment_def split: if_splits)
  ultimately show ?case using Cons.IH [OF rest less Cons.prems(3)] Cons.prems(4,5) by auto
qed

lemma from_index_segment:
  assumes "i \<le> k" "k \<le> m_end d \<or> m_end d < i" "k \<le> capacity d"
  shows "from_index d i = take (k - i) (drop i (m_buffer d)) @ from_index d k"
proof (cases "i \<le> m_end d")
  case True
  hence "k \<le> m_end d" using assms by auto
  thus ?thesis using True assms(1) take_add [of "k - i" "m_end d - k" "drop i (m_buffer d)"] by (simp add: from_index_def)
next
  case False
  hence "drop i (m_buffer d) = take (k - i) (drop i (m_buffer d)) @ drop k (m_buffer d)"
    using append_take_drop_id [of "k - i" "drop i (m_buffer d)"] assms(1) by simp
  thus ?thesis using False assms(1) by (simp add: from_index_def)
qed

lemma from_index_wrap:
  assumes "i < capacity d" "m_end d < capacity d" "m_end d \<noteq> i"
  shows "from_index d (increment d i) = from_index d (Suc i)"
  using assms by (auto simp: increment_def from_index_def capacity_def)

lemma from_index_beyond:
  assumes "m_end d' = m_end d" "\<And>j. j < length (m_buffer d) \<Longrightarrow> k \<le> j \<or> j < m_end d \<and> m_end d < k \<Longrightarrow> m_buffer d' ! j = m_buffer d ! j"
    and "length (m_buffer d') = length (m_buffer d)"
  shows "from_index d' k = from_index d k"
proof -
  have "drop k (m_buffer d') = drop k (m_buffer d)" using assms(2,3) by (auto intro!: nth_equalityI)
  moreover have "m_end d < k \<Longrightarrow> take (m_end d) (m_buffer d') = take (m_end d) (m_buffer d)"
    using assms(2,3) by (auto intro!: nth_equalityI)
  ultimately show ?thesis using assms(1) by (auto simp: from_index_def)
qed

lemma shift_up:
  assumes "s \<le> p" "p < length buffer"
    and b: "buffer' = (move_slots (buffer[p := None]) s p (buffer[p := None]) (s + 1))[s := None]"
  shows "length buffer' = length buffer" "take (p - s) (drop (Suc s) buffer') = take (p - s) (drop s buffer)"
    "\<And>j. j < length buffer \<Longrightarrow> j < s \<or> p < j \<Longrightarrow> buffer' ! j = buffer ! j"
proof -
  show len: "length buffer' = length buffer" using assms by (simp add: length_move_slots)
  have "drop (Suc s) buffer' = take (p - s) (drop s buffer) @ drop (Suc p) buffer"
    using assms(1,2) by (simp add: b move_slots_def drop_update_swap)
  thus "take (p - s) (drop (Suc s) buffer') = take (p - s) (drop s buffer)" using assms(2) by simp
  show "buffer' ! j = buffer ! j" if "j < length buffer" "j < s \<or> p < j" for j
    using that assms(1,2) by (auto simp: b move_slots_def nth_append)
qed

lemma shift_down:
  assumes "p < e" "e < length buffer"
    and b: "buffer' = (move_slots (buffer[p := None]) (p + 1) e (buffer[p := None]) p)[e - 1 := None]"
  shows "length buffer' = length buffer" "take (e - 1) buffer' = take p buffer @ take (e - 1 - p) (drop (Suc p) buffer)"
    "drop e buffer' = drop e buffer"
proof -
  have move: "move_slots (buffer[p := None]) (p + 1) e (buffer[p := None]) p =
      take p buffer @ take (e - 1 - p) (drop (Suc p) buffer) @ drop (e - 1) (buffer[p := None])"
    using assms(1,2) by (simp add: move_slots_def)
  show "length buffer' = length buffer" using assms(1,2) by (simp add: b length_move_slots)
  show "take (e - 1) buffer' = take p buffer @ take (e - 1 - p) (drop (Suc p) buffer)"
    using assms(1,2) unfolding b move by simp
  show "drop e buffer' = drop e buffer" using assms(1,2) unfolding b move by simp
qed

lemma remove_right:
  assumes bounds: "m_start d < capacity d" "m_end d < capacity d" "pos < capacity d"
    and pos: "m_start d \<le> pos" "pos < m_end d \<or> m_end d < m_start d"
  shows "from_index (Deque_remove pos d) (m_start (Deque_remove pos d)) =
      take (pos - m_start d) (drop (m_start d) (m_buffer d)) @ from_index d (Suc pos)"
    and "capacity (Deque_remove pos d) = capacity d" "m_end (Deque_remove pos d) = m_end d"
    and "m_start (Deque_remove pos d) < capacity d"
proof -
  obtain buffer where buffer: "buffer = (move_slots ((m_buffer d)[pos := None]) (m_start d) pos
      ((m_buffer d)[pos := None]) (m_start d + 1))[m_start d := None]" by blast
  note s = shift_up [OF pos(1) _ buffer, folded capacity_def, OF bounds(3)]
  let ?d = "d\<lparr>m_buffer := buffer, m_start := (m_start d + 1) mod capacity d\<rparr>"
  have remove: "Deque_remove pos d = ?d" using pos by (auto simp: Deque_remove_def Let_def buffer)
  show "capacity (Deque_remove pos d) = capacity d" "m_end (Deque_remove pos d) = m_end d"
    using s(1) by (simp_all add: remove capacity_def)
  have "0 < capacity d" using bounds(3) by linarith
  thus "m_start (Deque_remove pos d) < capacity d" by (simp add: remove)
  have cap: "capacity ?d = capacity d" using s(1) by (simp add: capacity_def)
  have "m_start ?d = increment ?d (m_start d)"
    unfolding increment_def cap using bounds(1) by (auto simp: mod_if)
  moreover have "m_end ?d \<noteq> m_start d" using pos by auto
  ultimately have "from_index ?d (m_start ?d) = from_index ?d (Suc (m_start d))"
    using from_index_wrap [of "m_start d" ?d] bounds cap by simp
  also have "\<dots> = take (pos - m_start d) (drop (Suc (m_start d)) buffer) @ from_index ?d (Suc pos)"
    using from_index_segment [of "Suc (m_start d)" "Suc pos" ?d] pos bounds(3) s(1) by (auto simp: capacity_def)
  also have "from_index ?d (Suc pos) = from_index d (Suc pos)"
    using s pos by (intro from_index_beyond) (auto simp: capacity_def)
  finally show "from_index (Deque_remove pos d) (m_start (Deque_remove pos d)) =
      take (pos - m_start d) (drop (m_start d) (m_buffer d)) @ from_index d (Suc pos)"
    by (simp add: remove s(2))
qed

lemma remove_left:
  assumes bounds: "m_start d < capacity d" and pos: "pos < m_end d" "m_end d < m_start d"
  shows "from_index (Deque_remove pos d) (m_start (Deque_remove pos d)) =
      drop (m_start d) (m_buffer d) @ take pos (m_buffer d) @ from_index d (Suc pos)"
    and "capacity (Deque_remove pos d) = capacity d" "m_start (Deque_remove pos d) = m_start d"
    and "m_end (Deque_remove pos d) < capacity d"
proof -
  obtain buffer where buffer: "buffer = (move_slots ((m_buffer d)[pos := None]) (pos + 1) (m_end d)
      ((m_buffer d)[pos := None]) pos)[m_end d - 1 := None]" by blast
  have less: "m_end d < length (m_buffer d)" using bounds pos by (simp add: capacity_def)
  note s = shift_down [OF pos(1) less buffer]
  have "(m_end d - 1 + capacity d) mod capacity d = m_end d - 1"
    using bounds pos by (simp only: mod_add_self2) simp
  hence remove: "Deque_remove pos d = d\<lparr>m_buffer := buffer, m_end := m_end d - 1\<rparr>"
    using pos by (simp add: Deque_remove_def Let_def buffer)
  show "capacity (Deque_remove pos d) = capacity d" "m_start (Deque_remove pos d) = m_start d"
    "m_end (Deque_remove pos d) < capacity d"
    using s(1) bounds pos by (simp_all add: remove capacity_def)
  have "drop (m_start d) buffer = drop (m_start d) (m_buffer d)"
    using arg_cong [OF s(3), of "drop (m_start d - m_end d)"] pos(2) by simp
  thus "from_index (Deque_remove pos d) (m_start (Deque_remove pos d)) =
      drop (m_start d) (m_buffer d) @ take pos (m_buffer d) @ from_index d (Suc pos)"
    using pos s(2) by (auto simp: remove from_index_def)
qed

lemma remove_holds:
  assumes holds: "deque_holds d (pre @ x # post)" and pos: "pos < capacity d" "pos \<noteq> m_end d" "\<not> outside d (m_start d) pos"
    and at: "from_index d pos = map Some (x # post)"
  shows "deque_holds (Deque_remove pos d) (pre @ post)"
proof -
  have filled: "capacity d \<noteq> 0" using pos(1) by simp
  note f = holds_filled [OF holds filled]
  have "from_index d pos = m_buffer d ! pos # from_index d (Suc pos)"
    using from_index_step [OF pos(1,2) f(2)] from_index_wrap [OF pos(1) f(2)] pos(2) by simp
  hence rest: "from_index d (Suc pos) = map Some post" using at by simp
  show ?thesis
  proof (cases "m_start d \<le> pos")
    case True
    hence place: "pos < m_end d \<or> m_end d < m_start d" using pos(2,3) by (auto simp: outside_def split: if_splits)
    have "from_index d (m_start d) = take (pos - m_start d) (drop (m_start d) (m_buffer d)) @ from_index d pos"
      using True place pos(1) by (intro from_index_segment) auto
    hence "take (pos - m_start d) (drop (m_start d) (m_buffer d)) = map Some pre" using f(3) at by simp
    thus ?thesis using remove_right [OF f(1,2) pos(1) True place] rest f(2,4) filled by (simp add: deque_holds_def)
  next
    case False
    hence place: "pos < m_end d" "m_end d < m_start d" using pos(3) by (auto simp: outside_def split: if_splits)
    have "from_index d 0 = take pos (m_buffer d) @ from_index d pos"
      using from_index_segment [of 0 pos d] place pos(1) by simp
    hence "from_index d (m_start d) = drop (m_start d) (m_buffer d) @ take pos (m_buffer d) @ from_index d pos"
      using place by (simp add: from_index_def)
    hence "drop (m_start d) (m_buffer d) @ take pos (m_buffer d) = map Some pre" using f(3) at by simp
    thus ?thesis using remove_left [OF f(1) place] rest f(1,4) filled by (simp add: deque_holds_def)
  qed
qed

section \<open>A deque refines a list\<close>

datatype 'a deque_call = Append 'a | Prepend 'a | RemoveIf "'a \<Rightarrow> bool" | TakeFirst | TakeLast | Clear

fun deque_step :: "(nat \<Rightarrow> nat) \<Rightarrow> nat \<Rightarrow> 'a deque_call \<Rightarrow> 'a deque \<Rightarrow> 'a deque option" where
  "deque_step quantize inlineCapacity (Append v) d = Some (Deque_append quantize inlineCapacity v d)"
| "deque_step quantize inlineCapacity (Prepend v) d = Some (Deque_prepend quantize inlineCapacity v d)"
| "deque_step quantize inlineCapacity (RemoveIf predicate) d = map_option (\<lambda>it. Deque_remove it d) (findIf predicate d)"
| "deque_step quantize inlineCapacity TakeFirst d =
    (if Deque_isEmpty d then Some d else map_option snd (takeFirst d))"
| "deque_step quantize inlineCapacity TakeLast d =
    (if Deque_isEmpty d then Some d else map_option snd (takeLast d))"
| "deque_step quantize inlineCapacity Clear d = Some (Deque_clear inlineCapacity d)"

fun deque_run :: "(nat \<Rightarrow> nat) \<Rightarrow> nat \<Rightarrow> 'a deque_call list \<Rightarrow> 'a deque \<Rightarrow> 'a deque option" where
  "deque_run quantize inlineCapacity [] d = Some d"
| "deque_run quantize inlineCapacity (c # cs) d =
    (case deque_step quantize inlineCapacity c d of None \<Rightarrow> None | Some d' \<Rightarrow> deque_run quantize inlineCapacity cs d')"

fun remove_first :: "('a \<Rightarrow> bool) \<Rightarrow> 'a list \<Rightarrow> 'a list" where
  "remove_first predicate [] = []"
| "remove_first predicate (x # xs) = (if predicate x then xs else x # remove_first predicate xs)"

fun list_step :: "'a deque_call \<Rightarrow> 'a list \<Rightarrow> 'a list" where
  "list_step (Append v) xs = xs @ [v]"
| "list_step (Prepend v) xs = v # xs"
| "list_step (RemoveIf predicate) xs = remove_first predicate xs"
| "list_step TakeFirst xs = tl xs"
| "list_step TakeLast xs = butlast xs"
| "list_step Clear xs = []"

lemma remove_first_found:
  "\<forall>y \<in> set pre. \<not> predicate y \<Longrightarrow> predicate x \<Longrightarrow> remove_first predicate (pre @ x # post) = pre @ post"
  by (induction pre) simp_all

lemma remove_first_none: "\<forall>y \<in> set xs. \<not> predicate y \<Longrightarrow> remove_first predicate xs = xs"
  by (induction xs) simp_all

lemma new_holds: "inlineCapacity \<noteq> 1 \<Longrightarrow> deque_holds (Deque_new inlineCapacity) []"
  "Deque_clear inlineCapacity d = Deque_new inlineCapacity"
  by (simp_all add: deque_holds_def Deque_new_def Deque_clear_def capacity_def from_index_def)

lemma findIf_remove_holds:
  assumes holds: "deque_holds d xs"
  obtains it where "findIf predicate d = Some it" "deque_holds (Deque_remove it d) (remove_first predicate xs)"
proof (cases "\<exists>y \<in> set xs. predicate y")
  case True
  then obtain pre x post where xs: "xs = pre @ x # post" "predicate x" "\<forall>y \<in> set pre. \<not> predicate y"
    by (rule split_list_first_propE)
  have filled: "capacity d \<noteq> 0"
    using holds holds_empty_iff [OF holds] xs(1) by (auto simp: deque_holds_def split: if_splits)
  note f = holds_filled [OF holds filled]
  obtain pos where pos: "pos < capacity d" "findIf predicate d = Some pos" "pos \<noteq> m_end d"
    "\<not> outside d (m_start d) pos" "from_index d pos = map Some (x # post)"
    using find_loop_some [of d "m_start d" pre x post predicate] f xs by (auto simp: findIf_def)
  have "deque_holds (Deque_remove pos d) (pre @ post)"
    using holds pos(1,3,4,5) unfolding xs(1) by (rule remove_holds)
  thus ?thesis using that pos(2) xs by (simp add: remove_first_found)
next
  case False
  have "findIf predicate d = Some (m_end d)"
  proof (cases "capacity d = 0")
    case True
    thus ?thesis using holds by (simp add: findIf_def deque_holds_def find_loop.simps)
  next
    case filled: False
    thus ?thesis using False holds_filled [OF holds filled] find_loop_none by (auto simp: findIf_def)
  qed
  moreover have "Deque_remove (m_end d) d = d" by (simp add: Deque_remove_def)
  ultimately show ?thesis using that holds False by (simp add: remove_first_none)
qed

lemma deque_step_holds:
  assumes holds: "deque_holds d xs" and quantize: "\<And>n. n \<le> quantize n" and inline: "inlineCapacity \<noteq> 1"
  obtains d' where "deque_step quantize inlineCapacity c d = Some d'" "deque_holds d' (list_step c xs)"
proof (cases c)
  case (Append v)
  thus ?thesis using that append_holds [OF assms(1,2)] by simp
next
  case (Prepend v)
  thus ?thesis using that prepend_holds [OF assms(1,2)] by simp
next
  case (RemoveIf predicate)
  obtain it where "findIf predicate d = Some it" "deque_holds (Deque_remove it d) (remove_first predicate xs)"
    using holds by (rule findIf_remove_holds)
  thus ?thesis using that RemoveIf by simp
next
  case TakeFirst
  show ?thesis
  proof (cases xs)
    case Nil
    thus ?thesis using that TakeFirst holds holds_empty_iff [OF holds] by (simp add: Deque_isEmpty_def)
  next
    case (Cons x rest)
    obtain d' where "takeFirst d = Some (x, d')" "deque_holds d' rest"
      using holds unfolding Cons by (rule takeFirst_holds)
    thus ?thesis using that TakeFirst Cons holds_empty_iff [OF holds] by (simp add: Deque_isEmpty_def)
  qed
next
  case TakeLast
  show ?thesis
  proof (cases xs rule: rev_cases)
    case Nil
    thus ?thesis using that TakeLast holds holds_empty_iff [OF holds] by (simp add: Deque_isEmpty_def)
  next
    case (snoc rest x)
    obtain d' where "takeLast d = Some (x, d')" "deque_holds d' rest"
      using holds unfolding snoc by (rule takeLast_holds)
    thus ?thesis using that TakeLast snoc holds_empty_iff [OF holds] by (simp add: Deque_isEmpty_def)
  qed
next
  case Clear
  thus ?thesis using that new_holds(1) [OF inline] by (simp add: new_holds(2))
qed

lemma deque_run_holds:
  assumes "deque_holds d xs" "\<And>n. n \<le> quantize n" "inlineCapacity \<noteq> 1"
  shows "\<exists>d'. deque_run quantize inlineCapacity cs d = Some d' \<and> deque_holds d' (fold list_step cs xs)"
  using assms(1)
proof (induction cs arbitrary: d xs)
  case (Cons c cs)
  obtain d' where "deque_step quantize inlineCapacity c d = Some d'" "deque_holds d' (list_step c xs)"
    using deque_step_holds [OF Cons.prems assms(2,3)] by blast
  thus ?case using Cons.IH by simp
qed simp

text \<open>
  The copy allocates for the capacity of the other deque, and reads the other
  buffer up to its own capacity.
\<close>

lemma copy_holds:
  assumes holds: "deque_holds d xs" and same: "quantize (capacity d) = capacity d"
    and inline: "capacity d \<noteq> 0 \<Longrightarrow> inlineCapacity \<le> capacity d"
  shows "deque_holds (Deque_copy quantize inlineCapacity d) xs"
proof -
  let ?e = "Deque_copy quantize inlineCapacity d"
  note bounds = holds_bounds [OF holds]
  let ?buffer = "if capacity d = 0 then [] else allocateBuffer quantize inlineCapacity (capacity d) :: 'a option list"
  have "length ?buffer = length (m_buffer d)" using same inline by (auto simp: allocateBuffer_def capacity_def)
  then obtain buffer where buffer: "length buffer = length (m_buffer d)" "buffer = ?buffer" by blast
  have fields: "m_start ?e = m_start d" "m_end ?e = m_end d" by (simp_all add: Deque_copy_def Let_def)
  have "from_index ?e (m_start d) = from_index d (m_start d) \<and> capacity ?e = capacity d"
  proof (cases "m_start d \<le> m_end d")
    case True
    thus ?thesis using bounds buffer(1) unfolding Deque_copy_def Let_def buffer(2) [symmetric]
      by (simp add: from_index_def capacity_def move_slots_def)
  next
    case False
    thus ?thesis using bounds buffer(1) unfolding Deque_copy_def Let_def buffer(2) [symmetric]
      by (simp add: from_index_def capacity_def move_slots_def)
  qed
  thus ?thesis using holds fields by (simp add: deque_holds_def)
qed

text \<open>
  C11: whatever sequence of calls is made on an empty deque, and whenever they
  make the buffer grow or wrap around, the deque holds what a list holds after
  the same calls, in the same order and under every index, as long as the
  allocator grants what was asked for and the inline buffer has not exactly one
  slot.
\<close>

theorem deque_refines_list:
  assumes "\<And>n. n \<le> quantize n" "inlineCapacity \<noteq> 1"
  shows "\<exists>d. deque_run quantize inlineCapacity cs (Deque_new inlineCapacity) = Some d \<and>
    Deque_size d = length (fold list_step cs []) \<and>
    (\<forall>i < length (fold list_step cs []). Deque_at i d = Some (fold list_step cs [] ! i))"
proof -
  obtain d where "deque_run quantize inlineCapacity cs (Deque_new inlineCapacity) = Some d"
    "deque_holds d (fold list_step cs [])"
    using deque_run_holds [OF new_holds(1) [OF assms(2)] assms] by blast
  thus ?thesis using Deque_size_holds Deque_at_holds by blast
qed

theorem deque_refines_list_witness:
  "\<exists>d. deque_run (\<lambda>n. n) 4 [Append 1, Append 2, Prepend (0 :: nat), Append 3, RemoveIf (\<lambda>x. x = 2), TakeFirst] (Deque_new 4) = Some d \<and>
    Deque_size d = 2 \<and> Deque_at 0 d = Some 1 \<and> Deque_at 1 d = Some 3"
  using deque_refines_list [of "\<lambda>n. n" 4 "[Append 1, Append 2, Prepend (0 :: nat), Append 3, RemoveIf (\<lambda>x. x = 2), TakeFirst]"]
  by auto

text \<open>With an inline buffer of one slot the first element that is appended is lost.\<close>

lemma one_slot_loses: "Deque_isEmpty (Deque_append quantize 1 v (Deque_new 1))"
  by (simp add: Deque_isEmpty_def Deque_append_def Deque_new_def expandCapacityIfNeeded_def capacity_def Let_def)

end
