(* ===== verification/Spec2Isabelle.thy ===== *)
theory Spec2Isabelle
  imports Inspector_Server Hash_Map Deque_Buffer
begin

text \<open>
  \<^bold>\<open>The program.\<close>  A server that lets a debugging front end inspect a V8 isolate over
  a WebSocket (src/Source).  A thread of connections (v8inspector/RemoteDebuggingServer.cc)
  posts every message to the main thread, where the inspector (v8inspector/V8Inspector.cpp)
  gives it to the dispatcher (core/InspectorBackendDispatcher.cpp).  The dispatcher parses the
  JSON, finds the handler of the command, checks the parameters and calls the runtime
  agent or the debugger agent.  The agents work on V8 through the debugger
  (bindings/core/v8/V8Debugger.cpp), which drives a script of its own inside V8
  (bindings/core/v8/DebuggerScript.js), and through the injected script; V8 in turn reports parsed
  scripts, breaks, promises and asynchronous tasks.  Replies and notifications go back as
  JSON texts through the thread of the connections.

  \<^bold>\<open>Conventions.\<close>  A C++ computation has the type \<open>cxx\<close> of theory Prelude: \<open>Val\<close> its
  result, \<open>UB\<close> the use of a null pointer, an end iterator or a character past the end,
  where the source has at most an assertion that release builds drop.  A protocol error is
  a value (\<open>Some\<close> message).  Objects are records named as the classes and passed as
  state; a field keeps its name in the source where no other record has it, else a prefix
  tells them apart.  An \<^verbatim>\<open>int\<close> or \<^verbatim>\<open>unsigned\<close> whose overflow matters is a word or written
  with its modulus; strings are lists of 16-bit units.  V8, the mirrors, the injected
  script, regular expressions, dtoa and the standard conversions are parameters: the records
  \<open>platform\<close>, \<open>script_engine\<close>, \<open>v8_debug\<close>, \<open>isolate\<close>, \<open>environment\<close> and \<open>worker\<close>, over a type
  \<open>'w\<close> of worlds that their functions may change.  Where a property needs a law of a
  parameter it is a named predicate, and its witness instantiates it with a concrete
  function (the definitions \<open>sample_...\<close>).

  \<^bold>\<open>The theories\<close>, each after the ones it calls, with what its lemmas show:

  \<^item> Prelude: outcomes, strings, hash maps as association lists, and the interface of a
    dictionary (locale \<open>dictionary\<close>), interpreted for hash maps here and for JSON objects in
    JSON_Values.
  \<^item> WTF_String (wtf/text): searching, comparing, reading and printing numbers.  The rolling
    hash searches find the least and the greatest occurrence; printed numbers are read back.
  \<^item> Decimal (platform/Decimal.cpp): every operation keeps numbers well formed, products are
    exact, integers survive printing and reading.
  \<^item> JSON_Values, JSON_Parser, JSON_Roundtrip (platform/JSONValues.cpp,
    core/inspector/JSONParser.cpp): values and printers, the tokenizer and the builder.  Parsing
    gives well-formed values, stays within the text unless it ends in a backslash,
    and inverts printing.
  \<^item> Inspector_State (core/inspector/InspectorState.cpp): typed properties shared through a
    store with the composite state; a cookie restores every agent.
  \<^item> Content_Search (core/inspector/ContentSearchUtils.cpp): magic comments, search by lines.
  \<^item> Injected_Script (core/inspector/InjectedScript*.cpp): bound objects and groups, calls
    under the evaluation flag, one script per context.
  \<^item> Promise_Tracker (core/inspector/PromiseTracker.cpp and the classes of call stacks): ids
    correspond to living promises, as an invariant of the reachable states.
  \<^item> Debugger_Script (bindings/core/v8/DebuggerScript.js, core/inspector/JavaScriptCallFrame.cpp):
    breakpoints, frames, scopes, the extent of a script.
  \<^item> V8_Debugger (bindings/core/v8/V8Debugger.cpp, core/inspector/ScriptDebugListener.cpp): its state,
    the mode for exceptions (locale \<open>exception_mode\<close>), live editing, the queue of tasks.
  \<^item> Debugger_State, Async_Calls, Debugger_Breakpoints, Debugger_Pausing, Debugger_Commands
    (core/inspector/InspectorDebuggerAgent.cpp, V8AsyncCallTracker.cpp, AsyncCallChain.cpp,
    WorkerDebuggerAgent.cpp): the debugger agent.  Fresh operation ids, the life of asynchronous
    tasks, breakpoints as a refinement of an abstract table, a cache of verdicts that is
    never stale, pauses that end and leave nothing paused, modes that are restored.
  \<^item> Runtime_Agent (core/inspector/InspectorRuntimeAgent.cpp, WorkerRuntimeAgent.cpp): its commands
    within a scope that does not pause on exceptions.
  \<^item> Frontend_Messages (core/InspectorFrontend.cpp, InspectorTypeBuilder.cpp): the JSON of every
    notification and response.
  \<^item> Dispatcher_Handlers, Command_Table, Dispatcher (core/InspectorBackendDispatcher.cpp): the
    handlers, the table of all commands with the offsets of their names, and dispatching.  Agents
    see typed parameters only; every request gets one reply; faulty requests change nothing.
  \<^item> Inspector_Server (v8inspector): connecting, disconnecting, restoring, and the two threads as
    the step relations \<open>own_step\<close> and \<open>server_step\<close>.  A session with one client refines the
    sequential program \<open>run_main\<close> and delivers its whole output.
  \<^item> Hash_Table, Hash_Map (wtf/HashTable.h, wtf/HashMap.h): the open-addressing table refines the
    association lists of Prelude, by which the other theories model the maps of the agents.
  \<^item> Deque_Buffer (wtf/Deque.h): the circular buffer refines the lists by which Async_Calls models
    the chain of call stacks.

  \<^bold>\<open>Bounds and loops.\<close>  No definition uses fuel.  Loops over data are recursive functions
  with a termination proof.  The loops that need not end are partial functions with the value
  \<open>None\<close> for a loop that goes on: the search for an operation id (ends if fewer than
  2 to the 31 minus 1 are in use), the probe loops of the hash table (end on every table the
  operations produce), the search in a deque, and the queue of tasks.  The bounds in properties
  are those of the program: nesting of JSON up to the limit of the parser (1000), texts
  shorter than 2 to the 32 units, and fewer than 2 to the 28 calls on a hash map, within which
  the 32-bit products of the load test cannot wrap.  A nested message loop runs the tasks it is given;
  it waits if none of them resumes the program.

  \<^bold>\<open>Findings.\<close>  Lemmas next to the definitions record where the code does not do what it
  means to: a malformed message is used through a null pointer (\<open>malformed_message\<close>), closing
  any connection ends the session (\<open>close_silences\<close>), replies go to the newest connection
  (\<open>reply_to_newest\<close>), a failed run of a script loses the mode for exceptions
  (\<open>runScript_mode_lost\<close>), disabling keeps the compiled patterns (\<open>disable_keeps_patterns\<close>), an
  unannounced operation is reported as completed (\<open>completed_without_announcement\<close>), a refused
  breakpoint stays set (\<open>refused_breakpoint_stays\<close>), scopes are numbered in two ways
  (\<open>scope_number_mismatch\<close>), the tokenizer reads past the end (\<open>parseJSON_out_of_bounds\<close>) and
  ignores the last letter of a constant (\<open>parseJSON_const_last_letter\<close>), reading an integer wraps
  (\<open>charactersToInt_wraps\<close>), the ceiling of some zeros is one (\<open>ceil_of_zero\<close>), printed fractions are
  cut (\<open>decimal_fraction_truncated\<close>), and a deque with one inline slot loses its first element
  (\<open>one_slot_loses\<close>).

  \<^bold>\<open>Not modelled.\<close>  V8 and its bindings, the script InjectedScriptSource.js, which reflects on
  arbitrary objects of V8, and the loading of DebuggerScript.js: they only compute inside the
  engine, and the model takes what they return as parameters.  A call into V8 changes the world
  only; a break that happens during such a call, with its own nested pause, is not followed.
  Memory management (reference counts, garbage collection, the allocator, and with them the
  branches of the containers for a garbage-collected heap), the conversion from and to UTF-8,
  dtoa, and the libraries base, net and url, which the server only calls: threads appear as the
  interleaving of steps, the HTTP server as the events of the connections.  The agents of other
  domains do not exist in this program; their commands are in the table and end in the refusal
  the code gives.  The type builders are templates whose assertions the compiler checks.  The shell
  (V8InspectorMain.cpp) reads files and runs them.

  Helper definitions whose lines lie within those of another definition are not listed separately
  in the map from definitions to source lines.
\<close>

end
